(* ===== verification/Prelude.thy ===== *)
theory Prelude
  imports Main "HOL-Library.AList" "HOL-Library.Word" "HOL-Library.Multiset"
    "HOL-Library.Sublist"
begin

text \<open>
  Shared vocabulary of the development: the collections the components feed, Go's
  strings as byte lists with the functions of package strings the code calls, Go maps
  with string keys as association lists, signed 64-bit arithmetic, and the error
  values and gRPC status codes that both drivers return.
\<close>

named_theorems exec \<open>equations that run a program step by step\<close>
named_theorems inv_intro \<open>preservation of invariants by operations\<close>

section \<open>Strings\<close>

text \<open>
  A Go string is a sequence of bytes; here it is a list of 8-bit characters, so
  \<open>length\<close> is Go's \<open>len\<close>.
\<close>

type_synonym bytestr = string

definition byte :: "char \<Rightarrow> nat" where
  "byte c = of_char c"

definition chr :: "nat \<Rightarrow> char" where
  "chr n = char_of n"

lemma byte_less: "byte c < 256"
  unfolding byte_def using of_char_mod_256 [of c, where ?'a = nat]
  by (metis mod_less_divisor zero_less_numeral)

lemma byte_chr [simp]: "n < 256 \<Longrightarrow> byte (chr n) = n"
  by (simp add: byte_def chr_def)

lemma chr_byte [simp]: "chr (byte c) = c"
  by (simp add: byte_def chr_def)

lemma byte_inj: "byte c = byte d \<longleftrightarrow> c = d"
  by (metis chr_byte)

text \<open>\<open>strings.HasSuffix\<close> and \<open>strings.TrimSuffix\<close>.\<close>

definition has_suffix :: "bytestr \<Rightarrow> bytestr \<Rightarrow> bool" where
  "has_suffix s t \<longleftrightarrow> suffix t s"

definition trim_suffix :: "bytestr \<Rightarrow> bytestr \<Rightarrow> bytestr" where
  "trim_suffix s t = (if has_suffix s t then take (length s - length t) s else s)"

lemma has_suffix_append [simp]: "has_suffix (s @ t) t"
  by (simp add: has_suffix_def suffix_def)

lemma trim_suffix_append [simp]: "trim_suffix (s @ t) t = s"
  by (simp add: trim_suffix_def)

lemma trim_suffix_same: "has_suffix s t \<Longrightarrow> trim_suffix s t @ t = s"
  by (auto simp: trim_suffix_def has_suffix_def suffix_def)

lemma has_suffix_code [code]:
  "has_suffix s t \<longleftrightarrow> length t \<le> length s \<and> drop (length s - length t) s = t"
  by (auto simp: has_suffix_def suffix_def intro: exI [of _ "take (length s - length t) s"])
    (metis append_take_drop_id)

text \<open>\<open>strings.Contains\<close>.\<close>

fun contains_sub :: "bytestr \<Rightarrow> bytestr \<Rightarrow> bool" where
  "contains_sub [] t \<longleftrightarrow> t = []"
| "contains_sub (c # s) t \<longleftrightarrow> prefix t (c # s) \<or> contains_sub s t"

lemma contains_sub_iff: "contains_sub s t \<longleftrightarrow> (\<exists>u v. s = u @ t @ v)"
proof (induction s)
  case Nil
  then show ?case by auto
next
  case (Cons c s)
  show ?case
  proof
    assume "contains_sub (c # s) t"
    then consider "prefix t (c # s)" | "contains_sub s t" by auto
    then show "\<exists>u v. c # s = u @ t @ v"
    proof cases
      case 1
      then show ?thesis by (auto simp: prefix_def intro: exI [of _ "[]"])
    next
      case 2
      with Cons.IH show ?thesis by (metis append_Cons)
    qed
  next
    assume "\<exists>u v. c # s = u @ t @ v"
    then obtain u v where uv: "c # s = u @ t @ v" by blast
    show "contains_sub (c # s) t"
    proof (cases u)
      case Nil
      with uv have "prefix t (c # s)" by (simp add: prefix_def)
      then show ?thesis by simp
    next
      case (Cons a u')
      with uv have "s = u' @ t @ v" by simp
      with Cons.IH have "contains_sub s t" by blast
      then show ?thesis by simp
    qed
  qed
qed

text \<open>\<open>strings.ToLower\<close> on ASCII text; bytes above 127 are left as they are.\<close>

definition lower_char :: "char \<Rightarrow> char" where
  "lower_char c = (if 65 \<le> byte c \<and> byte c \<le> 90 then chr (byte c + 32) else c)"

definition to_lower :: "bytestr \<Rightarrow> bytestr" where
  "to_lower = map lower_char"

text \<open>Go's byte-wise order of strings.\<close>

fun str_less :: "bytestr \<Rightarrow> bytestr \<Rightarrow> bool" where
  "str_less [] [] = False"
| "str_less [] (_ # _) = True"
| "str_less (_ # _) [] = False"
| "str_less (c # s) (d # t) =
     (if byte c < byte d then True else if byte d < byte c then False else str_less s t)"

lemma str_less_irrefl [simp]: "\<not> str_less s s"
  by (induction s) auto

lemma str_less_total: "s \<noteq> t \<Longrightarrow> str_less s t \<or> str_less t s"
proof (induction s t rule: str_less.induct)
  case (4 c s d t)
  then show ?case using byte_inj [of c d] by (cases "c = d") auto
qed auto

lemma str_less_trans: "str_less s t \<Longrightarrow> str_less t u \<Longrightarrow> str_less s u"
proof (induction s t arbitrary: u rule: str_less.induct)
  case (2 c t)
  then show ?case by (cases u) auto
next
  case (4 c s d t)
  then show ?case by (cases u) (auto split: if_splits)
qed auto

lemma str_less_asym: "str_less s t \<Longrightarrow> \<not> str_less t s"
  using str_less_trans str_less_irrefl by blast

section \<open>Go maps with string keys\<close>

text \<open>
  A Go map is an association list with distinct keys; assignment and delete are the
  library's \<open>AList.update\<close> and \<open>AList.delete\<close>. The order in which a range
  statement visits the keys is never read off the list: it is an argument.
\<close>

definition map_keys :: "('k \<times> 'v) list \<Rightarrow> 'k list" where
  "map_keys m = map fst m"

definition map_pick :: "'k list \<Rightarrow> ('k \<times> 'v) list \<Rightarrow> 'v list" where
  "map_pick ks m = List.map_filter (map_of m) ks"

lemma set_map_pick: "set (map_pick ks m) = {v. \<exists>k \<in> set ks. map_of m k = Some v}"
  by (auto simp: map_pick_def List.map_filter_def intro!: image_eqI)

lemma map_of_update [simp]: "map_of (AList.update k v m) = (map_of m)(k \<mapsto> v)"
  by (rule update_conv')

lemma map_of_delete [simp]: "map_of (AList.delete k m) = (map_of m)(k := None)"
  by (rule delete_conv')

lemma map_filter_Nil: "List.map_filter f xs = [] \<longleftrightarrow> (\<forall>x \<in> set xs. f x = None)"
  by (induction xs) (simp_all add: List.map_filter_def)

text \<open>Filling a map from a list of pairs: the last value of a key wins.\<close>

lemma map_of_fold_update:
  "map_of (fold (\<lambda>(k, v) m. AList.update k v m) kvs m) = map_of m ++ map_of (rev kvs)"
proof (induction kvs arbitrary: m)
  case (Cons kv kvs)
  then show ?case by (cases kv) (simp add: map_add_def fun_eq_iff split: option.split)
qed simp

lemma map_of_rev_distinct: "distinct (map fst kvs) \<Longrightarrow> map_of (rev kvs) = map_of kvs"
proof
  fix k
  assume d: "distinct (map fst kvs)"
  then have "distinct (map fst (rev kvs))" by (simp add: rev_map [symmetric])
  then have "map_of (rev kvs) k = Some v \<longleftrightarrow> map_of kvs k = Some v" for v
    using d map_of_eq_Some_iff [of kvs k v] map_of_eq_Some_iff [of "rev kvs" k v] by simp
  then show "map_of (rev kvs) k = map_of kvs k" by (metis option.exhaust)
qed

lemma distinct_update_keys: "distinct (map fst m) \<Longrightarrow> distinct (map fst (AList.update k v m))"
  by (rule distinct_update)

lemma distinct_delete_keys: "distinct (map fst m) \<Longrightarrow> distinct (map fst (AList.delete k m))"
  by (rule distinct_delete)

lemma length_update_new: "map_of m k = None \<Longrightarrow> length (AList.update k v m) = Suc (length m)"
  by (induction m) auto

lemma length_update_old: "map_of m k \<noteq> None \<Longrightarrow> length (AList.update k v m) = length m"
  by (induction m) auto

lemma length_delete_le: "length (AList.delete k m) \<le> length m"
  by (rule length_delete_le)

lemma set_update_subset: "set (AList.update k v m) \<subseteq> insert (k, v) (set m)"
  by (induction m) auto

lemma set_delete_subset: "set (AList.delete k m) \<subseteq> set m"
  by (auto simp: AList.delete_eq)

section \<open>Signed 64-bit integers\<close>

text \<open>Go's int and time.Duration: arithmetic wraps around at 64 bits, two's complement.\<close>

definition wrap64 :: "int \<Rightarrow> int" where
  "wrap64 x = (x + 2 ^ 63) mod 2 ^ 64 - 2 ^ 63"

definition max_int64 :: int where "max_int64 = 2 ^ 63 - 1"
definition min_int64 :: int where "min_int64 = - (2 ^ 63)"

lemma wrap64_id: "min_int64 \<le> x \<Longrightarrow> x \<le> max_int64 \<Longrightarrow> wrap64 x = x"
  by (simp add: wrap64_def min_int64_def max_int64_def)

lemma wrap64_range: "min_int64 \<le> wrap64 x \<and> wrap64 x \<le> max_int64"
proof -
  have "0 \<le> (x + 2 ^ 63) mod 2 ^ 64" "(x + 2 ^ 63) mod 2 ^ 64 < 2 ^ 64" by simp_all
  then show ?thesis unfolding wrap64_def min_int64_def max_int64_def by simp
qed

end
