(* ===== verification/GoText.thy ===== *)
theory GoText
  imports Prelude
begin

text \<open>
  The part of Go's package unicode/utf8 and of strings.IndexFunc that the validators
  rest on: a string is decoded rune by rune, an invalid byte counts as one replacement
  rune, and a rune is a control character when \<open>unicode.IsControl\<close> says so. The
  theorem of this theory is that a control rune is found exactly when a scan of the
  bytes finds a C0 control, DEL, or the two-byte form of a C1 control.
\<close>

section \<open>Decoding\<close>

definition rune_error :: nat where
  "rune_error = 65533"

definition cont :: "nat \<Rightarrow> bool" where
  "cont b \<longleftrightarrow> 128 \<le> b \<and> b \<le> 191"

text \<open>The range the second byte of a multi-byte sequence must lie in, per first byte.\<close>

definition second_ok :: "nat \<Rightarrow> nat \<Rightarrow> bool" where
  "second_ok b0 b1 \<longleftrightarrow>
     (if b0 = 224 then 160 \<le> b1 \<and> b1 \<le> 191
      else if b0 = 237 then 128 \<le> b1 \<and> b1 \<le> 159
      else if b0 = 240 then 144 \<le> b1 \<and> b1 \<le> 191
      else if b0 = 244 then 128 \<le> b1 \<and> b1 \<le> 143
      else cont b1)"

text \<open>\<open>utf8.DecodeRuneInString\<close>: the rune and the number of bytes it takes.\<close>

fun decode_rune :: "nat list \<Rightarrow> nat \<times> nat" where
  "decode_rune [] = (rune_error, 0)"
| "decode_rune (b0 # bs) =
     (if b0 < 128 then (b0, 1)
      else if 194 \<le> b0 \<and> b0 \<le> 223 then
        (case bs of
           b1 # _ \<Rightarrow> if cont b1 then ((b0 - 192) * 64 + (b1 - 128), 2) else (rune_error, 1)
         | [] \<Rightarrow> (rune_error, 1))
      else if 224 \<le> b0 \<and> b0 \<le> 239 then
        (case bs of
           b1 # b2 # _ \<Rightarrow>
             if second_ok b0 b1 \<and> cont b2
             then ((b0 - 224) * 4096 + (b1 - 128) * 64 + (b2 - 128), 3) else (rune_error, 1)
         | _ \<Rightarrow> (rune_error, 1))
      else if 240 \<le> b0 \<and> b0 \<le> 244 then
        (case bs of
           b1 # b2 # b3 # _ \<Rightarrow>
             if second_ok b0 b1 \<and> cont b2 \<and> cont b3
             then ((b0 - 240) * 262144 + (b1 - 128) * 4096 + (b2 - 128) * 64 + (b3 - 128), 4)
             else (rune_error, 1)
         | _ \<Rightarrow> (rune_error, 1))
      else (rune_error, 1))"

lemma decode_rune_size: "bs \<noteq> [] \<Longrightarrow> 1 \<le> snd (decode_rune bs)"
  by (cases bs) (auto split: list.splits)

text \<open>The runes a range loop over the string visits.\<close>

function runes_of :: "nat list \<Rightarrow> nat list" where
  "runes_of [] = []"
| "runes_of (b # bs) =
     fst (decode_rune (b # bs)) # runes_of (drop (snd (decode_rune (b # bs))) (b # bs))"
  by pat_completeness auto
termination
proof (relation "measure length")
  fix b bs
  show "(drop (snd (decode_rune (b # bs))) (b # bs), b # bs) \<in> measure length"
    using decode_rune_size [of "b # bs"] by simp
qed simp

definition runes :: "bytestr \<Rightarrow> nat list" where
  "runes s = runes_of (map byte s)"

text \<open>\<open>unicode.IsControl\<close>.\<close>

definition is_control :: "nat \<Rightarrow> bool" where
  "is_control r \<longleftrightarrow> r < 32 \<or> (127 \<le> r \<and> r < 160)"

text \<open>\<open>strings.IndexFunc(value, unicode.IsControl) >= 0\<close>.\<close>

definition has_control :: "bytestr \<Rightarrow> bool" where
  "has_control s \<longleftrightarrow> (\<exists>r \<in> set (runes s). is_control r)"

section \<open>The byte scan\<close>

fun ctl_bytes :: "nat list \<Rightarrow> bool" where
  "ctl_bytes [] = False"
| "ctl_bytes (b # bs) \<longleftrightarrow>
     b < 32 \<or> b = 127 \<or> (b = 194 \<and> bs \<noteq> [] \<and> 128 \<le> hd bs \<and> hd bs < 160) \<or> ctl_bytes bs"

text \<open>A byte that continues a sequence starts no control rune by itself.\<close>

lemma ctl_bytes_cont: "cont b \<Longrightarrow> ctl_bytes (b # bs) \<longleftrightarrow> ctl_bytes bs"
  by (auto simp: cont_def)

lemma second_ok_cont: "second_ok b0 b1 \<Longrightarrow> cont b1"
  by (auto simp: second_ok_def cont_def split: if_splits)

lemma ctl_bytes_lead: "194 < b \<Longrightarrow> ctl_bytes (b # bs) \<longleftrightarrow> ctl_bytes bs"
  by auto

text \<open>One decoding step: the rune is a control rune or the scan goes on behind it.\<close>

lemma ctl_bytes_step:
  assumes "\<forall>x \<in> set (b # bs). x < 256"
  shows "ctl_bytes (b # bs) \<longleftrightarrow>
    is_control (fst (decode_rune (b # bs))) \<or>
    ctl_bytes (drop (snd (decode_rune (b # bs))) (b # bs))"
proof -
  consider (ascii) "b < 128" | (bad) "128 \<le> b" "b < 194" | (two) "194 \<le> b" "b \<le> 223"
    | (three) "224 \<le> b" "b \<le> 239" | (four) "240 \<le> b" "b \<le> 244" | (big) "244 < b"
    by linarith
  then show ?thesis
  proof cases
    case ascii
    then show ?thesis by (auto simp: is_control_def)
  next
    case bad
    then show ?thesis by (auto simp: is_control_def rune_error_def)
  next
    case two
    show ?thesis
    proof (cases bs)
      case Nil
      with two show ?thesis by (auto simp: is_control_def rune_error_def)
    next
      case (Cons b1 cs)
      show ?thesis
      proof (cases "cont b1")
        case True
        then obtain k where k: "b1 = 128 + k" "k \<le> 63"
          by (auto simp: cont_def dest: le_Suc_ex)
        from two obtain j where j: "b = 194 + j" "j \<le> 29"
          by (auto dest: le_Suc_ex)
        have "is_control ((b - 192) * 64 + (b1 - 128)) \<longleftrightarrow> b = 194 \<and> b1 < 160"
          unfolding j k is_control_def by auto
        then show ?thesis using two Cons True ctl_bytes_cont [OF True, of cs]
          by (auto simp: cont_def)
      next
        case False
        with two Cons show ?thesis by (auto simp: is_control_def rune_error_def cont_def)
      qed
    qed
  next
    case three
    show ?thesis
    proof (cases "\<exists>b1 b2 cs. bs = b1 # b2 # cs \<and> second_ok b b1 \<and> cont b2")
      case True
      then obtain b1 b2 cs where bs: "bs = b1 # b2 # cs" "second_ok b b1" "cont b2" by blast
      have "160 \<le> (b - 224) * 4096 + (b1 - 128) * 64 + (b2 - 128)"
        using bs(2) three by (cases "b = 224") (auto simp: second_ok_def cont_def split: if_splits)
      then show ?thesis using three bs
        by (simp add: is_control_def ctl_bytes_cont second_ok_cont del: ctl_bytes.simps(2))
          (auto simp: ctl_bytes_lead ctl_bytes_cont second_ok_cont simp del: ctl_bytes.simps(2))
    next
      case False
      then have "decode_rune (b # bs) = (rune_error, 1)"
        using three by (auto split: list.splits)
      then show ?thesis using three by (auto simp: is_control_def rune_error_def)
    qed
  next
    case four
    show ?thesis
    proof (cases "\<exists>b1 b2 b3 cs. bs = b1 # b2 # b3 # cs \<and> second_ok b b1 \<and> cont b2 \<and> cont b3")
      case True
      then obtain b1 b2 b3 cs where
        bs: "bs = b1 # b2 # b3 # cs" "second_ok b b1" "cont b2" "cont b3" by blast
      have "160 \<le> (b - 240) * 262144 + (b1 - 128) * 4096 + (b2 - 128) * 64 + (b3 - 128)"
        using bs(2) four by (cases "b = 240") (auto simp: second_ok_def cont_def split: if_splits)
      then show ?thesis using four bs
        by (simp add: is_control_def ctl_bytes_cont second_ok_cont del: ctl_bytes.simps(2))
          (auto simp: ctl_bytes_lead ctl_bytes_cont second_ok_cont simp del: ctl_bytes.simps(2))
    next
      case False
      then have "decode_rune (b # bs) = (rune_error, 1)"
        using four by (auto split: list.splits)
      then show ?thesis using four by (auto simp: is_control_def rune_error_def)
    qed
  next
    case big
    then show ?thesis by (auto simp: is_control_def rune_error_def)
  qed
qed

lemma runes_of_control:
  "\<forall>x \<in> set bs. x < 256 \<Longrightarrow> (\<exists>r \<in> set (runes_of bs). is_control r) \<longleftrightarrow> ctl_bytes bs"
proof (induction bs rule: runes_of.induct)
  case 1
  then show ?case by simp
next
  case (2 b bs)
  let ?rest = "drop (snd (decode_rune (b # bs))) (b # bs)"
  have "\<forall>x \<in> set ?rest. x < 256" using "2.prems" by (meson in_set_dropD)
  then have "(\<exists>r \<in> set (runes_of ?rest). is_control r) \<longleftrightarrow> ctl_bytes ?rest" by (rule "2.IH")
  then show ?case using ctl_bytes_step [OF "2.prems"]
    by (simp del: decode_rune.simps ctl_bytes.simps)
qed

lemma has_control_bytes: "has_control s \<longleftrightarrow> ctl_bytes (map byte s)"
  unfolding has_control_def runes_def by (rule runes_of_control) (auto simp: byte_less)

lemma has_control_Nil [simp]: "\<not> has_control []"
  by (simp add: has_control_bytes)

lemma ctl_bytes_append: "ctl_bytes bs \<Longrightarrow> ctl_bytes (bs @ cs)"
  by (induction bs) (auto simp: hd_append)

lemma ctl_bytes_append2: "ctl_bytes cs \<Longrightarrow> ctl_bytes (bs @ cs)"
  by (induction bs) auto

text \<open>A line break anywhere in the text is a control character.\<close>

lemma has_control_byte:
  assumes "c \<in> set s" and "byte c < 32 \<or> byte c = 127"
  shows "has_control s"
proof -
  from assms(1) obtain u v where "s = u @ c # v" by (meson split_list)
  moreover have "ctl_bytes (map byte (c # v))" using assms(2) by auto
  ultimately show ?thesis by (simp add: has_control_bytes ctl_bytes_append2)
qed

lemma has_control_append: "has_control s \<or> has_control t \<Longrightarrow> has_control (s @ t)"
  by (auto simp: has_control_bytes intro: ctl_bytes_append ctl_bytes_append2)

lemma not_control_no_newline: "\<not> has_control s \<Longrightarrow> CHR 0x0A \<notin> set s \<and> CHR 0x0D \<notin> set s \<and> CHR 0x00 \<notin> set s"
  using has_control_byte [of "CHR 0x0A" s] has_control_byte [of "CHR 0x0D" s]
    has_control_byte [of "CHR 0x00" s] by (auto simp: byte_def)

end
