(* ===== verification/GoTime.thy ===== *)
theory GoTime
  imports GoText
begin

text \<open>
  Go's time.Time and time.Duration as the drivers use them. A time is the number of
  nanoseconds since the zero time (1 January of year 1, UTC), a duration a number of
  nanoseconds. Subtraction saturates at the 64-bit range; formatting follows
  Time.Format for the layouts the code uses, Duration.String, and the strict
  RFC 3339 parser. The main lemmas: the civil calendar round trip, and that the
  printed forms parse back.
\<close>

type_synonym time = int
type_synonym duration = int

abbreviation (input) zero_time :: time where "zero_time \<equiv> 0"

definition is_zero :: "time \<Rightarrow> bool" where
  "is_zero t \<longleftrightarrow> t = zero_time"

definition nanosecond :: duration where "nanosecond = 1"
definition second :: duration where "second = 10 ^ 9"
definition minute :: duration where "minute = 60 * 10 ^ 9"
definition hour :: duration where "hour = 3600 * 10 ^ 9"

lemmas duration_units = nanosecond_def second_def minute_def hour_def

text \<open>\<open>Time.Sub\<close>: the difference, clipped to the range of a duration.\<close>

definition time_sub :: "time \<Rightarrow> time \<Rightarrow> duration" where
  "time_sub t u = max min_int64 (min max_int64 (t - u))"

lemma time_sub_gt: "a < max_int64 \<Longrightarrow> min_int64 \<le> a \<Longrightarrow> a < time_sub t u \<longleftrightarrow> a < t - u"
  by (auto simp: time_sub_def)

section \<open>Decimal text\<close>

definition digit_char :: "nat \<Rightarrow> char" where
  "digit_char d = chr (48 + d)"

definition is_digit :: "char \<Rightarrow> bool" where
  "is_digit c \<longleftrightarrow> 48 \<le> byte c \<and> byte c \<le> 57"

definition digit_val :: "char \<Rightarrow> nat" where
  "digit_val c = byte c - 48"

fun dec :: "nat \<Rightarrow> bytestr" where
  "dec n = (if n < 10 then [digit_char n] else dec (n div 10) @ [digit_char (n mod 10)])"

declare dec.simps [simp del]

text \<open>The low \<open>w\<close> decimal digits, zero padded.\<close>

primrec pad :: "nat \<Rightarrow> nat \<Rightarrow> bytestr" where
  "pad 0 n = []"
| "pad (Suc w) n = pad w (n div 10) @ [digit_char (n mod 10)]"

definition num :: "bytestr \<Rightarrow> nat" where
  "num s = foldl (\<lambda>a c. a * 10 + digit_val c) 0 s"

lemma digit_char [simp]:
  "d < 10 \<Longrightarrow> is_digit (digit_char d)" "d < 10 \<Longrightarrow> digit_val (digit_char d) = d"
  by (simp_all add: is_digit_def digit_char_def digit_val_def)

lemma length_pad [simp]: "length (pad w n) = w"
  by (induction w arbitrary: n) auto

lemma num_snoc: "num (s @ [c]) = num s * 10 + digit_val c"
  by (simp add: num_def)

lemma num_Nil [simp]: "num [] = 0"
  by (simp add: num_def)

lemma pad_digits: "\<forall>c \<in> set (pad w n). is_digit c"
  by (induction w arbitrary: n) auto

lemma dec_digits: "\<forall>c \<in> set (dec n). is_digit c"
proof (induction n rule: dec.induct)
  case (1 n)
  then show ?case by (cases "n < 10") (auto simp: dec.simps [of n])
qed

lemma dec_not_Nil [simp]: "dec n \<noteq> []"
  by (subst dec.simps) auto

lemma num_pad: "n < 10 ^ w \<Longrightarrow> num (pad w n) = n"
proof (induction w arbitrary: n)
  case 0
  then show ?case by simp
next
  case (Suc w)
  then have "n div 10 < 10 ^ w" by (simp add: less_mult_imp_div_less mult.commute)
  with Suc.IH show ?case by (simp add: num_snoc)
qed

lemma num_dec [simp]: "num (dec n) = n"
proof (induction n rule: dec.induct)
  case (1 n)
  then show ?case by (cases "n < 10") (auto simp: dec.simps [of n] num_snoc num_snoc [of "[]", simplified])
qed

section \<open>The civil calendar\<close>

definition is_leap :: "int \<Rightarrow> bool" where
  "is_leap y \<longleftrightarrow> 4 dvd y \<and> (\<not> 100 dvd y \<or> 400 dvd y)"

definition month_lengths :: "int \<Rightarrow> int list" where
  "month_lengths y = [31, if is_leap y then 29 else 28, 31, 30, 31, 30, 31, 31, 30, 31, 30, 31]"

definition days_before_year :: "int \<Rightarrow> int" where
  "days_before_year y = 365 * (y - 1) + (y - 1) div 4 - (y - 1) div 100 + (y - 1) div 400"

text \<open>Day number (day 0 is 1 January of year 1) of a date.\<close>

definition civil_days :: "int \<Rightarrow> nat \<Rightarrow> int \<Rightarrow> int" where
  "civil_days y m d = days_before_year y + sum_list (take (m - 1) (month_lengths y)) + d - 1"

text \<open>The year and the day of the year of a day number.\<close>

definition year_of :: "int \<Rightarrow> int \<times> int" where
  "year_of d =
    (let r = d mod 146097; n100 = min 3 (r div 36524); r1 = r - 36524 * n100;
         n4 = r1 div 1461; r2 = r1 mod 1461; n1 = min 3 (r2 div 365)
     in (400 * (d div 146097) + 100 * n100 + 4 * n4 + n1 + 1, r2 - 365 * n1))"

fun month_of :: "int list \<Rightarrow> int \<Rightarrow> nat \<Rightarrow> nat \<times> int" where
  "month_of [] d m = (m, d + 1)"
| "month_of (l # ls) d m = (if d < l then (m, d + 1) else month_of ls (d - l) (Suc m))"

definition civil_of :: "int \<Rightarrow> int \<times> nat \<times> int" where
  "civil_of d = (case year_of d of (y, yd) \<Rightarrow> (y, month_of (month_lengths y) yd 1))"

lemma year_of_bounds:
  assumes "year_of d = (y, yd)"
  shows "days_before_year y + yd = d" and "0 \<le> yd" and "yd < (if is_leap y then 366 else 365)"
    and "0 \<le> d \<Longrightarrow> 1 \<le> y"
proof -
  define a r where "a = d div 146097" and "r = d mod 146097"
  define b where "b = min 3 (r div 36524)"
  define r1 where "r1 = r - 36524 * b"
  define c r2 where "c = r1 div 1461" and "r2 = r1 mod 1461"
  define e where "e = min 3 (r2 div 365)"
  have d: "d = 146097 * a + r" "0 \<le> r" "r < 146097" by (simp_all add: a_def r_def)
  have b: "0 \<le> b" "b \<le> 3" "0 \<le> r1" "r1 \<le> 36524" "r1 < 36524 \<or> b = 3"
    using d(2,3) unfolding r1_def b_def by (auto simp: min_def)
  have c: "r1 = 1461 * c + r2" "0 \<le> r2" "r2 < 1461" by (simp_all add: c_def r2_def)
  have c24: "0 \<le> c" "c \<le> 24" using b(3,4) c by auto
  have e: "0 \<le> e" "e \<le> 3" "0 \<le> r2 - 365 * e" "r2 - 365 * e \<le> 365" "r2 - 365 * e < 365 \<or> e = 3"
    using c(2,3) unfolding e_def by (auto simp: min_def)
  have "year_of d = (400 * a + 100 * b + 4 * c + e + 1, r2 - 365 * e)"
    unfolding year_of_def Let_def a_def r_def b_def r1_def c_def r2_def e_def by (rule refl)
  with assms have y: "y = 400 * a + 100 * b + 4 * c + e + 1" and yd: "yd = r2 - 365 * e"
    by auto
  have q4: "(y - 1) div 4 = 100 * a + 25 * b + c"
    using e(1,2) unfolding y by (intro int_div_pos_eq [where r = e]) auto
  have q100: "(y - 1) div 100 = 4 * a + b"
    using e(1,2) c24 unfolding y by (intro int_div_pos_eq [where r = "4 * c + e"]) auto
  have q400: "(y - 1) div 400 = a"
    using e(1,2) c24 b(1,2) unfolding y by (intro int_div_pos_eq [where r = "100 * b + 4 * c + e"]) auto
  show "days_before_year y + yd = d"
    unfolding days_before_year_def q4 q100 q400 using y yd d(1) c(1) r1_def by (simp add: algebra_simps)
  show "0 \<le> yd" using e yd by simp
  show "1 \<le> y" if "0 \<le> d"
  proof -
    have "0 \<le> a" unfolding a_def using that by (simp add: pos_imp_zdiv_nonneg_iff)
    with y b(1) c24(1) e(1) show ?thesis by linarith
  qed
  show "yd < (if is_leap y then 366 else 365)"
  proof (cases "yd = 365")
    case True
    then have e3: "e = 3" and r2: "r2 = 1460" using e yd by auto
    have "is_leap y"
    proof (cases "c = 24")
      case True
      then have "r1 = 36524" using c(1) r2 by simp
      then have "b = 3" using b(5) by auto
      with True e3 y have "y = 400 * (a + 1)" by simp
      then have "400 dvd y" by (rule dvdI)
      then show ?thesis by (auto simp: is_leap_def elim: dvd_trans [rotated])
    next
      case False
      then have c: "1 \<le> c + 1" "c + 1 \<le> 24" using c24 by auto
      have "y = 4 * (100 * a + 25 * b + (c + 1))" using y e3 by simp
      then have "4 dvd y" by (rule dvdI)
      moreover have "y = 4 * (c + 1) + 100 * (4 * a + b)" using y e3 by simp
      then have "y mod 100 = 4 * (c + 1)"
        using c by (intro int_mod_pos_eq [where q = "4 * a + b"]) auto
      then have "\<not> 100 dvd y" using c by auto
      ultimately show ?thesis by (simp add: is_leap_def)
    qed
    with True show ?thesis by simp
  next
    case False
    with e(4) yd show ?thesis by auto
  qed
qed

lemma month_of_spec:
  "month_of ls d m = (m', d') \<Longrightarrow> 0 \<le> d \<Longrightarrow> d < sum_list ls \<Longrightarrow>
   m \<le> m' \<and> m' < m + length ls \<and> 1 \<le> d' \<and> d' \<le> ls ! (m' - m) \<and>
   sum_list (take (m' - m) ls) + d' - 1 = d"
proof (induction ls d m rule: month_of.induct)
  case (1 d m)
  then show ?case by simp
next
  case (2 l ls d m)
  show ?case
  proof (cases "d < l")
    case True
    with "2.prems" show ?thesis by auto
  next
    case False
    with "2.prems" have "Suc m \<le> m' \<and> m' < Suc m + length ls \<and> 1 \<le> d' \<and> d' \<le> ls ! (m' - Suc m) \<and>
        sum_list (take (m' - Suc m) ls) + d' - 1 = d - l" using "2.IH" by simp
    moreover from this have "m' - m = Suc (m' - Suc m)" by arith
    ultimately show ?thesis by simp
  qed
qed

text \<open>The calendar round trip.\<close>

lemma civil_of_days:
  assumes "civil_of d = (y, m, dd)"
  shows "civil_days y m dd = d" and "1 \<le> m" and "m \<le> 12" and "1 \<le> dd"
    and "dd \<le> month_lengths y ! (m - 1)"
proof -
  obtain yd where y: "year_of d = (y, yd)" and m: "month_of (month_lengths y) yd 1 = (m, dd)"
    using assms by (auto simp: civil_of_def split: prod.splits)
  have "sum_list (month_lengths y) = (if is_leap y then 366 else 365)"
    by (simp add: month_lengths_def)
  with year_of_bounds [OF y] month_of_spec [OF m] have
    "1 \<le> m \<and> m < 1 + length (month_lengths y) \<and> 1 \<le> dd \<and> dd \<le> month_lengths y ! (m - 1) \<and>
     sum_list (take (m - 1) (month_lengths y)) + dd - 1 = yd" by simp
  with year_of_bounds(1) [OF y] show "civil_days y m dd = d" "1 \<le> m" "m \<le> 12" "1 \<le> dd"
    "dd \<le> month_lengths y ! (m - 1)"
    by (auto simp: civil_days_def month_lengths_def)
qed

section \<open>Layouts\<close>

definition day_ns :: int where
  "day_ns = 86400 * 10 ^ 9"

text \<open>\<open>2006-01-02\<close> and \<open>15:04:05\<close> in UTC.\<close>

definition date_text :: "time \<Rightarrow> bytestr" where
  "date_text t =
     (case civil_of (t div day_ns) of (y, m, d) \<Rightarrow>
        pad 4 (nat y) @ ''-'' @ pad 2 m @ ''-'' @ pad 2 (nat d))"

definition clock_text :: "time \<Rightarrow> bytestr" where
  "clock_text t =
     (let s = nat ((t mod day_ns) div second)
      in pad 2 (s div 3600) @ '':'' @ pad 2 (s div 60 mod 60) @ '':'' @ pad 2 (s mod 60))"

text \<open>
  A fraction with its trailing zeros removed, and no dot when nothing is left: the
  \<open>.999999999\<close> of a layout, and the fractions of \<open>Duration.String\<close>.
\<close>

definition rstrip0 :: "bytestr \<Rightarrow> bytestr" where
  "rstrip0 s = rev (dropWhile (\<lambda>c. c = CHR ''0'') (rev s))"

definition frac_text :: "nat \<Rightarrow> nat \<Rightarrow> bytestr" where
  "frac_text w f = (if f = 0 then [] else CHR ''.'' # rstrip0 (pad w f))"

text \<open>\<open>Format(time.RFC3339)\<close> and \<open>Format(time.RFC3339Nano)\<close> of a UTC time up to year 9999.\<close>

definition format_rfc3339 :: "time \<Rightarrow> bytestr" where
  "format_rfc3339 t = date_text t @ ''T'' @ clock_text t @ ''Z''"

definition format_rfc3339_nano :: "time \<Rightarrow> bytestr" where
  "format_rfc3339_nano t =
     date_text t @ ''T'' @ clock_text t @ frac_text 9 (nat (t mod second)) @ ''Z''"

text \<open>The layout \<open>2006-01-02 15:04:05 UTC\<close>.\<close>

definition format_calendar :: "time \<Rightarrow> bytestr" where
  "format_calendar t = date_text t @ '' '' @ clock_text t @ '' UTC''"

text \<open>\<open>Duration.String\<close>.\<close>

definition duration_body :: "nat \<Rightarrow> bytestr" where
  "duration_body u =
     (if u < 10 ^ 9 then
        (if u < 10 ^ 3 then dec u @ ''ns''
         else if u < 10 ^ 6 then dec (u div 10 ^ 3) @ frac_text 3 (u mod 10 ^ 3) @ [CHR 0xC2, CHR 0xB5] @ ''s''
         else dec (u div 10 ^ 6) @ frac_text 6 (u mod 10 ^ 6) @ ''ms'')
      else
        (let s = u div 10 ^ 9; m = s div 60; h = m div 60;
             sec = dec (s mod 60) @ frac_text 9 (u mod 10 ^ 9) @ ''s''
         in if m = 0 then sec
            else if h = 0 then dec (m mod 60) @ ''m'' @ sec
            else dec h @ ''h'' @ dec (m mod 60) @ ''m'' @ sec))"

definition duration_string :: "duration \<Rightarrow> bytestr" where
  "duration_string d =
     (if d = 0 then ''0s'' else (if d < 0 then ''-'' else []) @ duration_body (nat \<bar>d\<bar>))"

section \<open>Parsing RFC 3339\<close>

text \<open>
  The strict RFC 3339 parser that \<open>time.Parse\<close> tries first for this layout. (Go then
  retries a failed text with its general layout parser, which also takes a one-digit
  hour and a decimal comma; that second try is not modelled.)
\<close>

definition field :: "bytestr \<Rightarrow> nat \<Rightarrow> nat \<Rightarrow> nat \<Rightarrow> nat \<Rightarrow> nat option" where
  "field s i n lo hi =
     (let f = take n (drop i s)
      in if (\<forall>c \<in> set f. is_digit c) \<and> lo \<le> num f \<and> num f \<le> hi then Some (num f) else None)"

text \<open>The nanoseconds of a fraction: digits behind the ninth are dropped.\<close>

definition nanos :: "bytestr \<Rightarrow> nat" where
  "nanos ds = num (take 9 ds) * 10 ^ (9 - min 9 (length ds))"

definition split_fraction :: "bytestr \<Rightarrow> nat \<times> bytestr" where
  "split_fraction s =
     (if 2 \<le> length s \<and> s ! 0 = CHR ''.'' \<and> is_digit (s ! 1)
      then (nanos (takeWhile is_digit (tl s)), dropWhile is_digit (tl s)) else (0, s))"

definition zone_offset :: "bytestr \<Rightarrow> int option" where
  "zone_offset s =
     (if s = ''Z'' then Some 0
      else if length s = 6 \<and> (s ! 0 = CHR ''-'' \<or> s ! 0 = CHR ''+'') \<and> s ! 3 = CHR '':''
      then (case (field s 1 2 0 23, field s 4 2 0 59) of
              (Some h, Some m) \<Rightarrow>
                 Some ((if s ! 0 = CHR ''-'' then -1 else 1) * int ((h * 60 + m) * 60))
            | _ \<Rightarrow> None)
      else None)"

definition parse_rfc3339 :: "bytestr \<Rightarrow> time option" where
  "parse_rfc3339 s =
     (if length s < 19 then None
      else case (field s 0 4 0 9999, field s 5 2 1 12) of
        (Some y, Some m) \<Rightarrow>
          (case (field s 8 2 1 (nat (month_lengths (int y) ! (m - 1))),
                 field s 11 2 0 23, field s 14 2 0 59, field s 17 2 0 59) of
             (Some d, Some hh, Some mm, Some ss) \<Rightarrow>
               if s ! 4 = CHR ''-'' \<and> s ! 7 = CHR ''-'' \<and> s ! 10 = CHR ''T'' \<and>
                  s ! 13 = CHR '':'' \<and> s ! 16 = CHR '':''
               then (case split_fraction (drop 19 s) of (ns, z) \<Rightarrow>
                       map_option
                         (\<lambda>off. civil_days (int y) m (int d) * day_ns +
                                (int (hh * 3600 + mm * 60 + ss) - off) * second + int ns)
                         (zone_offset z))
               else None
           | _ \<Rightarrow> None)
      | _ \<Rightarrow> None)"

section \<open>Round trips\<close>

text \<open>Times up to the end of year 9999, where the year has four digits.\<close>

definition printable_time :: "time \<Rightarrow> bool" where
  "printable_time t \<longleftrightarrow> 0 \<le> t \<and> t < 3652059 * day_ns"

lemma minus_div_25_mono: "(q::int) \<le> q' \<Longrightarrow> q - q div 25 \<le> q' - q' div 25"
proof -
  assume le: "q \<le> q'"
  have "q' div 25 \<le> (q + (q' - q) * 25) div 25" by (rule zdiv_mono1) (use le in simp_all)
  then show ?thesis by simp
qed

lemma days_before_year_10000: "10000 \<le> y \<Longrightarrow> 3652059 \<le> days_before_year y"
proof -
  assume y: "10000 \<le> y"
  have "2499 \<le> (y - 1) div 4" using zdiv_mono1 [of 9999 "y - 1" 4] y by simp
  then have "2400 \<le> (y - 1) div 4 - (y - 1) div 100"
    using minus_div_25_mono [of 2499 "(y - 1) div 4"] by (simp add: zdiv_zmult2_eq [symmetric])
  moreover have "24 \<le> (y - 1) div 400" using zdiv_mono1 [of 9999 "y - 1" 400] y by simp
  ultimately show ?thesis unfolding days_before_year_def using y by simp
qed

lemma civil_year_range:
  assumes "0 \<le> d" and "d < 3652059" and "civil_of d = (y, m, dd)"
  shows "1 \<le> y" and "y \<le> 9999"
proof -
  obtain yd where y: "year_of d = (y, yd)" using assms(3) by (auto simp: civil_of_def split: prod.splits)
  note b = year_of_bounds [OF y]
  have "days_before_year y \<le> d" using b by linarith
  with assms(2) have "\<not> 10000 \<le> y" using days_before_year_10000 [of y] by linarith
  then show "y \<le> 9999" by simp
  show "1 \<le> y" using b(4) assms(1) .
qed

lemma takeWhile_digits: "\<forall>c \<in> set f. is_digit c \<Longrightarrow> \<not> is_digit z \<Longrightarrow> takeWhile is_digit (f @ z # r) = f"
  by (induction f) auto

lemma dropWhile_digits: "\<forall>c \<in> set f. is_digit c \<Longrightarrow> \<not> is_digit z \<Longrightarrow> dropWhile is_digit (f @ z # r) = z # r"
  by (induction f) auto

lemma rstrip0_decomp: "rstrip0 s @ replicate (length s - length (rstrip0 s)) CHR ''0'' = s"
proof -
  have all0: "takeWhile (\<lambda>c. c = CHR ''0'') (rev s) =
      replicate (length (takeWhile (\<lambda>c. c = CHR ''0'') (rev s))) CHR ''0''"
    by (rule sym, rule replicate_length_same) (auto dest: set_takeWhileD)
  have "s = rstrip0 s @ rev (takeWhile (\<lambda>c. c = CHR ''0'') (rev s))"
    unfolding rstrip0_def by (metis rev_append rev_rev_ident takeWhile_dropWhile_id)
  moreover from this have "length (takeWhile (\<lambda>c. c = CHR ''0'') (rev s)) = length s - length (rstrip0 s)"
    by (metis add_diff_cancel_left' length_append length_rev)
  ultimately show ?thesis using all0 by (metis rev_replicate)
qed

lemma rstrip0_set: "set (rstrip0 s) \<subseteq> set s"
  unfolding rstrip0_def by (auto dest: set_dropWhileD)

lemma num_zeros: "num (s @ replicate k CHR ''0'') = num s * 10 ^ k"
proof (induction k)
  case 0
  then show ?case by simp
next
  case (Suc k)
  have "num (s @ replicate (Suc k) CHR ''0'') = num ((s @ replicate k CHR ''0'') @ [CHR ''0''])"
    by (simp add: replicate_append_same)
  also have "\<dots> = num s * 10 ^ k * 10"
    unfolding num_snoc Suc by (simp add: digit_val_def byte_def)
  finally show ?case by simp
qed

lemma length_rstrip0: "length (rstrip0 s) \<le> length s"
  by (metis rstrip0_decomp length_append le_add1)

lemma nanos_rstrip0: "n < 10 ^ 9 \<Longrightarrow> nanos (rstrip0 (pad 9 n)) = n"
proof -
  assume n: "n < 10 ^ 9"
  let ?p = "pad 9 n"
  have l: "length (rstrip0 ?p) \<le> 9" using length_rstrip0 [of ?p] by simp
  have "n = num (rstrip0 ?p @ replicate (9 - length (rstrip0 ?p)) CHR ''0'')"
    using rstrip0_decomp [of ?p] num_pad [OF n] by simp
  then show ?thesis using l by (simp add: nanos_def num_zeros min_def)
qed

lemma not_digit_Z [simp]: "\<not> is_digit CHR ''Z''"
  by (simp add: is_digit_def byte_def)

lemma split_fraction_text:
  assumes "n < 10 ^ 9"
  shows "split_fraction (frac_text 9 n @ ''Z'') = (n, ''Z'')"
proof (cases "n = 0")
  case True
  then show ?thesis by (simp add: frac_text_def split_fraction_def)
next
  case False
  let ?f = "rstrip0 (pad 9 n)"
  have "?f \<noteq> []"
  proof
    assume "?f = []"
    then have "nanos ?f = 0" by (simp add: nanos_def)
    with False nanos_rstrip0 [OF assms] show False by simp
  qed
  then obtain c r where f: "?f = c # r" by (cases ?f) auto
  have dig: "\<forall>c \<in> set ?f. is_digit c" using rstrip0_set [of "pad 9 n"] pad_digits by blast
  have "split_fraction (frac_text 9 n @ ''Z'') =
      (nanos (takeWhile is_digit (?f @ ''Z'')), dropWhile is_digit (?f @ ''Z''))"
    using False dig f by (simp add: frac_text_def split_fraction_def)
  then show ?thesis
    using takeWhile_digits [OF dig not_digit_Z, of "[]"] dropWhile_digits [OF dig not_digit_Z, of "[]"]
      nanos_rstrip0 [OF assms] by simp
qed

lemma field_pad:
  assumes "drop i s = pad w n @ r" and "n < 10 ^ w" and "lo \<le> n" and "n \<le> hi"
  shows "field s i w lo hi = Some n"
  using assms by (simp add: field_def num_pad pad_digits)

theorem parse_format_rfc3339_nano_core:
  assumes "printable_time t"
  shows "parse_rfc3339 (format_rfc3339_nano t) = Some t"
proof -
  define d sod where "d = t div day_ns" and "sod = nat ((t mod day_ns) div second)"
  define ns where "ns = nat (t mod second)"
  obtain y m dd where c: "civil_of d = (y, m, dd)" by (cases "civil_of d") auto
  have d: "0 \<le> d" "d < 3652059"
  proof -
    have "d * day_ns \<le> t" using minus_mod_eq_div_mult [of t day_ns] pos_mod_sign [of day_ns t]
      by (simp add: d_def day_ns_def)
    with assms show "d < 3652059" by (simp add: printable_time_def day_ns_def)
    show "0 \<le> d" using assms by (simp add: printable_time_def d_def day_ns_def pos_imp_zdiv_nonneg_iff)
  qed
  note cd = civil_of_days [OF c] and yr = civil_year_range [OF d c]
  have ns: "ns < 10 ^ 9" by (simp add: ns_def second_def nat_less_iff)
  have sod: "sod < 86400"
  proof -
    have "t mod day_ns < day_ns" by (simp add: day_ns_def)
    moreover have "(t mod day_ns) div second * second \<le> t mod day_ns"
      using minus_mod_eq_div_mult [of "t mod day_ns" second] pos_mod_sign [of second "t mod day_ns"]
      by (simp add: second_def)
    ultimately have "(t mod day_ns) div second < 86400" by (simp add: day_ns_def second_def)
    then show ?thesis unfolding sod_def by simp
  qed
  define h mi s where "h = sod div 3600" and "mi = sod div 60 mod 60" and "s = sod mod 60"
  have "h = sod div 60 div 60" by (simp add: h_def div_mult2_eq [symmetric])
  then have q: "h * 60 + mi = sod div 60" unfolding mi_def by simp
  have ms: "mi < 60" "s < 60" "sod div 60 * 60 + s = sod" by (simp_all add: mi_def s_def)
  have hms: "h \<le> 23" "mi \<le> 59" "s \<le> 59" "h * 3600 + mi * 60 + s = sod"
    using sod q ms by linarith+
  have dd31: "nat dd \<le> 31"
    using cd(2,3,5) by (auto simp: month_lengths_def nth_Cons' split: if_splits)
  let ?txt = "format_rfc3339_nano t"
  have shape: "?txt = pad 4 (nat y) @ ''-'' @ pad 2 m @ ''-'' @ pad 2 (nat dd) @ ''T'' @
      pad 2 h @ '':'' @ pad 2 mi @ '':'' @ pad 2 s @ frac_text 9 ns @ ''Z''"
    by (simp add: format_rfc3339_nano_def date_text_def clock_text_def c Let_def
        flip: d_def sod_def ns_def h_def mi_def s_def)
  have f: "field ?txt 0 4 0 9999 = Some (nat y)" "field ?txt 5 2 1 12 = Some m"
    "field ?txt 8 2 1 (nat (month_lengths (int (nat y)) ! (m - 1))) = Some (nat dd)"
    "field ?txt 11 2 0 23 = Some h" "field ?txt 14 2 0 59 = Some mi" "field ?txt 17 2 0 59 = Some s"
    using yr cd dd31 hms by (auto simp: shape intro!: field_pad)
  have seps: "?txt ! 4 = CHR ''-''" "?txt ! 7 = CHR ''-''" "?txt ! 10 = CHR ''T''"
    "?txt ! 13 = CHR '':''" "?txt ! 16 = CHR '':''"
    by (simp_all add: shape nth_append)
  have rest: "drop 19 ?txt = frac_text 9 ns @ ''Z''" and len: "\<not> length ?txt < 19"
    by (simp_all add: shape)
  have "civil_days (int (nat y)) m (int (nat dd)) = d" using cd(1,4) yr(1) by simp
  moreover have "t = d * day_ns + int sod * second + int ns"
  proof -
    have "int sod = (t mod day_ns) div second" "int ns = t mod second"
      by (simp_all add: sod_def ns_def second_def day_ns_def pos_imp_zdiv_nonneg_iff)
    moreover have "t mod second = (t mod day_ns) mod second"
      by (simp add: second_def day_ns_def mod_mod_cancel)
    ultimately show ?thesis unfolding d_def by (simp add: div_mult_mod_eq add.assoc)
  qed
  ultimately show ?thesis
    unfolding parse_rfc3339_def using len f seps rest split_fraction_text [OF ns] hms(4)
    by (simp add: zone_offset_def)
qed

end
