(* ===== verification/Errors.thy ===== *)
theory Errors
  imports Prelude
begin

text \<open>
  Go error values and gRPC statuses. An error is a tree, as \<open>fmt.Errorf\<close> with
  \<open>%w\<close> and \<open>errors.Join\<close> build it; \<open>errors.Is\<close> and
  \<open>errors.As\<close> search that tree. A formatted error keeps its format string and its
  arguments instead of the text they print, so two errors are equal when the code would
  print the same template with the same values. Errors of the AWS SDK and of the
  Kubernetes client are the leaves the code classifies: an API error with its code, a
  status error with its reason.
\<close>

datatype arg = AStr bytestr | AInt int

datatype k8s_reason =
  RUnauthorized | RForbidden | RTooManyRequests | RTimeout | RServerTimeout
| RServiceUnavailable | RNotFound | RAlreadyExists | RConflict | RInvalid | ROther

datatype goerr =
  ErrNew bytestr
| ErrFmt bytestr "arg list"
| ErrWrap bytestr "arg list" goerr
| ErrJoin "goerr list"
| ErrCapacity
| ErrExists
| ErrNoInstanceType
| ErrCanceled
| ErrDeadlineExceeded
| ErrAPI bytestr bytestr
| ErrK8s k8s_reason bytestr
| ErrUncertainCreate goerr

text \<open>\<open>errors.Is(err, target)\<close> for a sentinel target.\<close>

fun errors_is :: "goerr \<Rightarrow> goerr \<Rightarrow> bool" where
  "errors_is (ErrWrap f as e) t \<longleftrightarrow> ErrWrap f as e = t \<or> errors_is e t"
| "errors_is (ErrJoin es) t \<longleftrightarrow> ErrJoin es = t \<or> (\<exists>e \<in> set es. errors_is e t)"
| "errors_is (ErrUncertainCreate e) t \<longleftrightarrow> ErrUncertainCreate e = t \<or> errors_is e t"
| "errors_is e t \<longleftrightarrow> e = t"

fun first_some :: "'a option list \<Rightarrow> 'a option" where
  "first_some [] = None"
| "first_some (Some x # _) = Some x"
| "first_some (None # xs) = first_some xs"

text \<open>
  \<open>errors.As(err, &apiErr)\<close>: the code of the first API error of the tree in
  depth-first order.
\<close>

fun as_api_code :: "goerr \<Rightarrow> bytestr option" where
  "as_api_code (ErrWrap _ _ e) = as_api_code e"
| "as_api_code (ErrJoin es) =
     first_some (map as_api_code es)"
| "as_api_code (ErrUncertainCreate e) = as_api_code e"
| "as_api_code (ErrAPI code _) = Some code"
| "as_api_code _ = None"

text \<open>The reason of the first Kubernetes status error of the tree (\<open>apierrors.ReasonForError\<close>).\<close>

fun k8s_reason_of :: "goerr \<Rightarrow> k8s_reason option" where
  "k8s_reason_of (ErrWrap _ _ e) = k8s_reason_of e"
| "k8s_reason_of (ErrJoin es) =
     first_some (map k8s_reason_of es)"
| "k8s_reason_of (ErrUncertainCreate e) = k8s_reason_of e"
| "k8s_reason_of (ErrK8s r _) = Some r"
| "k8s_reason_of _ = None"

text \<open>\<open>errors.As(err, &uncertain)\<close>.\<close>

fun as_uncertain :: "goerr \<Rightarrow> bool" where
  "as_uncertain (ErrWrap _ _ e) = as_uncertain e"
| "as_uncertain (ErrJoin es) = (\<exists>e \<in> set es. as_uncertain e)"
| "as_uncertain (ErrUncertainCreate _) = True"
| "as_uncertain _ = False"

text \<open>\<open>errors.Join\<close>: nil when there is nothing to join.\<close>

definition errors_join :: "goerr list \<Rightarrow> goerr option" where
  "errors_join es = (if es = [] then None else Some (ErrJoin es))"

lemma errors_join_None [simp]: "errors_join es = None \<longleftrightarrow> es = []"
  by (simp add: errors_join_def)

text \<open>\<open>if err := a; err != nil { return err }\<close>, then the rest.\<close>

definition or_else :: "'e option \<Rightarrow> 'e option \<Rightarrow> 'e option" where
  "or_else a b = (case a of Some e \<Rightarrow> Some e | None \<Rightarrow> b)"

lemma or_else_None [simp]: "or_else a b = None \<longleftrightarrow> a = None \<and> b = None"
  by (simp add: or_else_def split: option.split)

section \<open>gRPC statuses\<close>

datatype code =
  Canceled | Unknown | InvalidArgument | DeadlineExceeded | NotFound | AlreadyExists
| PermissionDenied | ResourceExhausted | FailedPrecondition | Aborted | Internal | Unavailable

text \<open>A status error: its code and the error whose text is its message.\<close>

datatype grpc_status = Status (status_code: code) (status_msg: goerr)

text \<open>Cancellation as \<open>ctx.Err()\<close> reports it.\<close>

datatype ctx_err = CtxCanceled | CtxDeadlineExceeded

end
