(* ===== verification/GoFloat.thy ===== *)
theory GoFloat
  imports Complex_Main GoTime Errors
begin

text \<open>
  Go's float64 and \<open>strconv.ParseFloat(s, 64)\<close>. A float is a finite rational, an
  infinity or a NaN; every operation rounds the exact result to the nearest multiple of
  the result's quantum, ties to even, as IEEE 754 does. The sign of a zero is not kept:
  the code only compares, scales and prints magnitudes. The exactness of whole numbers
  up to 2^53 is what the quantity parser's lemmas rest on.
\<close>

section \<open>Values and rounding\<close>

datatype f64 = Fin rat | PInf | NInf | NaN

fun ilog2 :: "nat \<Rightarrow> nat" where
  "ilog2 n = (if n < 2 then 0 else Suc (ilog2 (n div 2)))"

declare ilog2.simps [simp del]

definition pow2 :: "int \<Rightarrow> rat" where
  "pow2 e = (if 0 \<le> e then 2 ^ nat e else 1 / 2 ^ nat (- e))"

text \<open>The binary exponent: \<open>2^e \<le> x < 2^(e+1)\<close> for a positive \<open>x\<close>.\<close>

definition exponent :: "rat \<Rightarrow> int" where
  "exponent x =
     (case quotient_of x of (p, q) \<Rightarrow>
        let e = int (ilog2 (nat p)) - int (ilog2 (nat q))
        in if pow2 e \<le> x then e else e - 1)"

definition quantum :: "rat \<Rightarrow> rat" where
  "quantum x = pow2 (max (- 1074) (exponent x - 52))"

definition round_even :: "rat \<Rightarrow> int" where
  "round_even x =
     (let f = \<lfloor>x\<rfloor>; d = x - of_int f
      in if d < 1 / 2 then f else if d > 1 / 2 then f + 1 else if even f then f else f + 1)"

definition round_mag :: "rat \<Rightarrow> f64" where
  "round_mag x =
     (if x = 0 then Fin 0
      else
        let y = of_int (round_even (x / quantum x)) * quantum x
        in if y < 2 ^ 1024 then Fin y else PInf)"

fun f_neg :: "f64 \<Rightarrow> f64" where
  "f_neg (Fin x) = Fin (- x)"
| "f_neg PInf = NInf"
| "f_neg NInf = PInf"
| "f_neg NaN = NaN"

definition round64 :: "rat \<Rightarrow> f64" where
  "round64 x = (if 0 \<le> x then round_mag x else f_neg (round_mag (- x)))"

text \<open>Comparison, scaling by a positive constant, math.Max.\<close>

fun f_less :: "f64 \<Rightarrow> f64 \<Rightarrow> bool" where
  "f_less NaN _ = False"
| "f_less _ NaN = False"
| "f_less (Fin x) (Fin y) = (x < y)"
| "f_less (Fin _) PInf = True"
| "f_less NInf (Fin _) = True"
| "f_less NInf PInf = True"
| "f_less _ _ = False"

fun f_eq :: "f64 \<Rightarrow> f64 \<Rightarrow> bool" where
  "f_eq NaN _ = False"
| "f_eq _ NaN = False"
| "f_eq x y = (x = y)"

definition f_le :: "f64 \<Rightarrow> f64 \<Rightarrow> bool" where
  "f_le x y \<longleftrightarrow> f_less x y \<or> f_eq x y"

fun f_scale :: "rat \<Rightarrow> f64 \<Rightarrow> f64" where
  "f_scale c (Fin x) = round64 (c * x)"
| "f_scale c y = y"

definition f_max :: "f64 \<Rightarrow> f64 \<Rightarrow> f64" where
  "f_max x y =
     (if x = PInf \<or> y = PInf then PInf
      else if x = NaN \<or> y = NaN then NaN
      else if f_less x y then y else x)"

section \<open>Rounding is exact on whole numbers\<close>

lemma ilog2_bounds: "0 < n \<Longrightarrow> 2 ^ ilog2 n \<le> n \<and> n < 2 ^ Suc (ilog2 n)"
proof (induction n rule: ilog2.induct)
  case (1 n)
  show ?case
  proof (cases "n < 2")
    case True
    with 1 show ?thesis by (simp add: ilog2.simps)
  next
    case False
    with 1 have IH: "2 ^ ilog2 (n div 2) \<le> n div 2" "n div 2 < 2 ^ Suc (ilog2 (n div 2))"
      by auto
    have s: "ilog2 n = Suc (ilog2 (n div 2))" using False ilog2.simps [of n] by simp
    show ?thesis unfolding s using IH by (auto simp: dvd_div_mult_self) 
  qed
qed

lemma pow2_pos [simp]: "0 < pow2 e"
  by (simp add: pow2_def)

lemma pow2_nonneg [simp]: "0 \<le> pow2 e" "pow2 e \<noteq> 0"
  using pow2_pos [of e] by linarith+

lemma pow2_Suc: "pow2 (e + 1) = 2 * pow2 e"
proof (cases "0 \<le> e")
  case True
  then show ?thesis by (simp add: pow2_def nat_add_distrib)
next
  case False
  then have "nat (- e) = Suc (nat (- (e + 1)))" by simp
  with False show ?thesis by (cases "e = - 1") (auto simp: pow2_def)
qed

lemma pow2_add_nat: "pow2 (e + int n) = pow2 e * 2 ^ n"
proof (induction n)
  case (Suc n)
  have "e + int (Suc n) = (e + int n) + 1" by simp
  show ?case unfolding \<open>e + int (Suc n) = (e + int n) + 1\<close> pow2_Suc Suc.IH by simp
qed simp

lemma pow2_add: "pow2 (a + b) = pow2 a * pow2 b"
proof (cases "0 \<le> b")
  case True
  then show ?thesis using pow2_add_nat [of a "nat b"] by (simp add: pow2_def)
next
  case False
  have "pow2 a = pow2 (a + b) * 2 ^ nat (- b)"
    using pow2_add_nat [of "a + b" "nat (- b)"] False by simp
  with False show ?thesis by (simp add: pow2_def)
qed

lemma pow2_mono: "a \<le> b \<Longrightarrow> pow2 a \<le> pow2 b"
  using pow2_add [of a "b - a"] by (simp add: pow2_def [of "b - a"])

lemma pow2_less_cancel: "pow2 a < pow2 b \<Longrightarrow> a < b"
  using pow2_mono [of b a] by fastforce

lemma pow2_of_nat [simp]: "pow2 (int n) = 2 ^ n"
  by (simp add: pow2_def)

lemma exponent_bounds:
  assumes "0 < x" shows "pow2 (exponent x) \<le> x" and "x < pow2 (exponent x + 1)"
proof -
  obtain p q where pq: "quotient_of x = (p, q)" by fastforce
  have q: "0 < q" and x: "x = of_int p / of_int q"
    using quotient_of_denom_pos [OF pq] quotient_of_div [OF pq] by auto
  have p: "0 < p" using assms q unfolding x by (simp add: zero_less_divide_iff)
  let ?a = "ilog2 (nat p)" and ?b = "ilog2 (nat q)"
  have nn: "(rat_of_int p) = of_nat (nat p)" "(rat_of_int q) = of_nat (nat q)" using p q by auto
  have P: "2 ^ ?a \<le> rat_of_int p" "rat_of_int p < 2 ^ Suc ?a"
    using ilog2_bounds [of "nat p"] p unfolding nn
    by (metis of_nat_le_iff of_nat_numeral of_nat_power zero_less_nat_eq,
        metis of_nat_less_iff of_nat_numeral of_nat_power zero_less_nat_eq)
  have Q: "2 ^ ?b \<le> rat_of_int q" "rat_of_int q < 2 ^ Suc ?b"
    using ilog2_bounds [of "nat q"] q unfolding nn
    by (metis of_nat_le_iff of_nat_numeral of_nat_power zero_less_nat_eq,
        metis of_nat_less_iff of_nat_numeral of_nat_power zero_less_nat_eq)
  let ?e = "int ?a - int ?b"
  have e: "pow2 ?e = 2 ^ ?a / 2 ^ ?b" using pow2_add [of ?e "int ?b"] by (simp add: field_simps)
  have "x < 2 ^ Suc ?a / 2 ^ ?b"
    unfolding x using P Q q by (intro frac_less) (use p in auto)
  then have up: "x < pow2 (?e + 1)" by (simp add: pow2_Suc e)
  have "2 ^ ?a / 2 ^ Suc ?b < x"
    unfolding x using P Q q by (intro frac_less2) auto
  then have lo: "pow2 (?e - 1) \<le> x" using pow2_Suc [of "?e - 1"] by (simp add: e)
  have ex: "exponent x = (if pow2 ?e \<le> x then ?e else ?e - 1)"
    by (simp add: exponent_def pq Let_def)
  show "pow2 (exponent x) \<le> x" "x < pow2 (exponent x + 1)"
    unfolding ex using up lo by auto
qed

lemma round_even_of_int [simp]: "round_even (of_int n) = n"
  by (simp add: round_even_def)

lemma round_even_nonneg: "0 \<le> x \<Longrightarrow> 0 \<le> round_even x"
  by (auto simp: round_even_def Let_def)

lemma round_even_near: "of_int (round_even x) \<le> x + 1" "x - 1 \<le> of_int (round_even x)"
proof -
  have "of_int \<lfloor>x\<rfloor> \<le> x" "x < of_int \<lfloor>x\<rfloor> + 1" by linarith+
  then show "of_int (round_even x) \<le> x + 1" "x - 1 \<le> of_int (round_even x)"
    unfolding round_even_def Let_def by (simp_all only: of_int_add of_int_1 split: if_split) linarith+
qed

text \<open>A multiple of its own quantum below the overflow threshold is left alone.\<close>

lemma round64_exact:
  assumes "x = of_int n * quantum x" and "0 \<le> x" and "x < 2 ^ 1024"
  shows "round64 x = Fin x"
proof (cases "x = 0")
  case False
  have "quantum x \<noteq> 0" by (simp add: quantum_def)
  with assms(1) have "x / quantum x = of_int n" by (metis nonzero_mult_div_cancel_right)
  with False assms show ?thesis by (simp add: round64_def round_mag_def Let_def)
qed (simp add: round64_def round_mag_def)

lemma round64_dyadic:
  assumes "x = of_nat n * pow2 e" and "n < 2 ^ 53" and "- 1074 \<le> e" and "e \<le> 900"
  shows "round64 x = Fin x"
proof (cases "n = 0")
  case True
  with assms show ?thesis by (simp add: round64_def round_mag_def)
next
  case False
  have x0: "0 < x" using False assms(1) by simp
  have n53: "rat_of_nat n < 2 ^ 53"
    using assms(2) by (metis of_nat_less_iff of_nat_numeral of_nat_power)
  have x1: "x < pow2 (53 + e)"
    unfolding assms(1) using n53 pow2_add [of 53 e] pow2_of_nat [of 53] by simp
  have "pow2 (exponent x) < pow2 (53 + e)" using exponent_bounds(1) [OF x0] x1 by linarith
  then have "exponent x < 53 + e" by (rule pow2_less_cancel)
  then have le: "max (- 1074) (exponent x - 52) \<le> e" using assms(3) by simp
  let ?q = "max (- 1074) (exponent x - 52)"
  have "pow2 e = pow2 ?q * 2 ^ nat (e - ?q)"
    using pow2_add_nat [of ?q "nat (e - ?q)"] le by simp
  then have m: "x = of_int (int (n * 2 ^ nat (e - ?q))) * quantum x"
    by (simp add: assms(1) quantum_def mult.commute mult.left_commute)
  have "x < 2 ^ 1024"
    using x1 pow2_mono [of "53 + e" 1024] assms(4) by (simp add: pow2_def [of 1024])
  then show ?thesis using round64_exact [OF m] x0 by simp
qed

lemma round64_of_nat: "n < 2 ^ 53 \<Longrightarrow> round64 (of_nat n) = Fin (of_nat n)"
  using round64_dyadic [of "of_nat n" n 0] by (simp add: pow2_def)

section \<open>Range\<close>

text \<open>What a rounded nonnegative number can be; below 2^1023 it is finite.\<close>

lemma round64_nonneg:
  assumes "0 \<le> x" obtains y where "round64 x = Fin y" and "0 \<le> y" and "y < 2 ^ 1024"
  | "round64 x = PInf"
proof -
  have "0 \<le> of_int (round_even (x / quantum x)) * quantum x"
    using assms by (simp add: round_even_nonneg quantum_def)
  moreover have "round64 x = (if x = 0 then Fin 0
      else if of_int (round_even (x / quantum x)) * quantum x < 2 ^ 1024
      then Fin (of_int (round_even (x / quantum x)) * quantum x) else PInf)"
    using assms by (simp add: round64_def round_mag_def Let_def)
  ultimately show ?thesis using that by (metis zero_less_numeral zero_less_power order_refl)
qed

lemma round64_finite:
  assumes "0 \<le> x" and "x < 2 ^ 1023" shows "\<exists>y. round64 x = Fin y \<and> 0 \<le> y \<and> y < 2 ^ 1024"
proof (cases "x = 0")
  case True
  then show ?thesis by (simp add: round64_def round_mag_def)
next
  case False
  with assms have x0: "0 < x" by simp
  have "pow2 (exponent x) < pow2 1023"
    using exponent_bounds(1) [OF x0] assms(2) by (simp add: pow2_def [of 1023])
  then have "exponent x < 1023" by (rule pow2_less_cancel)
  then have "quantum x \<le> pow2 1022" by (simp add: quantum_def pow2_mono)
  moreover have "pow2 1023 = 2 * pow2 1022" using pow2_Suc [of 1022] by simp
  ultimately have q: "quantum x \<le> 2 ^ 1023" by (simp add: pow2_def)
  have q0: "0 < quantum x" by (simp add: quantum_def)
  have "of_int (round_even (x / quantum x)) * quantum x \<le> (x / quantum x + 1) * quantum x"
    using round_even_near(1) [of "x / quantum x"] q0 by (intro mult_right_mono) auto
  also have "\<dots> = x + quantum x" using q0 by (simp add: field_simps)
  also have "\<dots> < 2 ^ 1023 + 2 ^ 1023" using assms(2) q by linarith
  also have "\<dots> = 2 ^ 1024" by simp
  finally have "of_int (round_even (x / quantum x)) * quantum x < 2 ^ 1024" .
  moreover have "0 \<le> of_int (round_even (x / quantum x)) * quantum x"
    using assms(1) q0 by (simp add: round_even_nonneg)
  ultimately show ?thesis using False assms(1) by (simp add: round64_def round_mag_def Let_def)
qed

text \<open>Rounding never crosses a power of two; from 2^1024 on it overflows.\<close>

lemma round_even_ge: "of_int n \<le> x \<Longrightarrow> n \<le> round_even x"
proof -
  assume "of_int n \<le> x"
  then have "n \<le> \<lfloor>x\<rfloor>" by (simp only: le_floor_iff)
  then show ?thesis unfolding round_even_def Let_def by simp
qed

lemma round_pow2_le:
  assumes "pow2 k \<le> x" and "- 1074 \<le> k"
  shows "pow2 k \<le> of_int (round_even (x / quantum x)) * quantum x"
proof -
  have x0: "0 < x" using assms(1) pow2_pos [of k] by linarith
  have "pow2 k < pow2 (exponent x + 1)" using assms(1) exponent_bounds(2) [OF x0] by linarith
  then have k: "k \<le> exponent x" using pow2_less_cancel by fastforce
  let ?q = "max (- 1074) (exponent x - 52)"
  let ?n = "nat (exponent x - ?q)"
  have e: "pow2 (exponent x) = 2 ^ ?n * pow2 ?q"
    using pow2_add_nat [of ?q ?n] k assms(2) by (simp add: mult.commute)
  then have "2 ^ ?n \<le> x / quantum x"
    using exponent_bounds(1) [OF x0] by (simp add: quantum_def field_simps)
  then have "of_int (2 ^ ?n) \<le> x / quantum x" by simp
  then have "2 ^ ?n \<le> round_even (x / quantum x)" by (rule round_even_ge)
  then have "(2 ^ ?n :: rat) \<le> of_int (round_even (x / quantum x))"
    by (metis of_int_le_iff of_int_numeral of_int_power)
  then have "2 ^ ?n * pow2 ?q \<le> of_int (round_even (x / quantum x)) * quantum x"
    unfolding quantum_def by (rule mult_right_mono) simp
  with e pow2_mono [OF k] show ?thesis by simp
qed

lemma round64_overflow: "2 ^ 1024 \<le> x \<Longrightarrow> round64 x = PInf"
proof -
  assume a: "2 ^ 1024 \<le> x"
  have p: "pow2 1024 = 2 ^ 1024" by (simp add: pow2_def)
  have "2 ^ 1024 \<le> of_int (round_even (x / quantum x)) * quantum x"
    using round_pow2_le [of 1024 x] a unfolding p by simp
  moreover have "0 < x" using a by (rule less_le_trans [rotated]) simp
  ultimately show ?thesis by (simp add: round64_def round_mag_def Let_def not_less)
qed

lemma round64_ge:
  assumes "2 ^ k \<le> x" and "x < 2 ^ 1023" shows "\<exists>y. round64 x = Fin y \<and> 2 ^ k \<le> y \<and> y < 2 ^ 1024"
proof -
  have x0: "0 < x" using assms(1) by (rule less_le_trans [rotated]) simp
  then obtain y where y: "round64 x = Fin y" "y < 2 ^ 1024"
    using round64_finite [OF _ assms(2)] by auto
  then have "y = of_int (round_even (x / quantum x)) * quantum x"
    using x0 by (simp add: round64_def round_mag_def Let_def split: if_splits)
  moreover have "2 ^ k \<le> of_int (round_even (x / quantum x)) * quantum x"
    using round_pow2_le [of "int k" x] assms(1) by simp
  ultimately show ?thesis using y by simp
qed

end
