(* ===== verification/GoParse.thy ===== *)
theory GoParse
  imports GoFloat "HOL-Library.Sublist"
begin

text \<open>
  \<open>strings.TrimSpace\<close> and \<open>strconv.ParseFloat(s, 64)\<close>. The float reader follows
  the library's: special names, then sign, digits with a point, exponent, underscores
  checked afterwards; the whole string has to be consumed. The digits are kept exactly
  (the library keeps nineteen and a sticky flag, or its decimal type) and rounded once,
  which is what its algorithms compute. A decimal, with a fraction or without, reads as the
  correctly rounded value of its digits, unless that overflows.
\<close>

section \<open>TrimSpace\<close>

text \<open>The UTF-8 encodings of the runes that \<open>unicode.IsSpace\<close> accepts.\<close>

definition spaces :: "bytestr list" where
  "spaces =
     map (\<lambda>n. [chr n]) [9, 10, 11, 12, 13, 32] @
     map (\<lambda>n. [chr 0xC2, chr n]) [0x85, 0xA0] @
     [[chr 0xE1, chr 0x9A, chr 0x80]] @
     map (\<lambda>n. [chr 0xE2, chr 0x80, chr n]) ([0x80..<0x8B] @ [0xA8, 0xA9, 0xAF]) @
     [[chr 0xE2, chr 0x81, chr 0x9F], [chr 0xE3, chr 0x80, chr 0x80]]"

lemma spaces_not_Nil: "[] \<notin> set spaces"
  by (simp add: spaces_def)

function trim_by :: "bytestr list \<Rightarrow> bytestr \<Rightarrow> bytestr" where
  "trim_by es s =
     (case find (\<lambda>e. e \<noteq> [] \<and> prefix e s) es of
        None \<Rightarrow> s
      | Some e \<Rightarrow> trim_by es (drop (length e) s))"
  by pat_completeness auto
termination
  by (relation "measure (length \<circ> snd)") (auto simp: find_Some_iff prefix_def)

declare trim_by.simps [simp del]

definition trim_space :: "bytestr \<Rightarrow> bytestr" where
  "trim_space s = rev (trim_by (map rev spaces) (rev (trim_by spaces s)))"

text \<open>A byte that starts no space: printable ASCII other than the blank.\<close>

definition solid :: "char \<Rightarrow> bool" where
  "solid c \<longleftrightarrow> 32 < byte c \<and> byte c < 127"

lemma trim_by_solid:
  assumes "s = [] \<or> solid (hd s)" and "\<forall>e \<in> set es. e \<noteq> [] \<longrightarrow> \<not> solid (hd e)"
  shows "trim_by es s = s"
proof -
  have "find (\<lambda>e. e \<noteq> [] \<and> prefix e s) es = None"
    using assms by (auto simp: find_None_iff prefix_def neq_Nil_conv)
  then show ?thesis by (simp add: trim_by.simps [of es s])
qed

lemma spaces_solid: "\<forall>e \<in> set spaces. \<not> solid (hd e) \<and> \<not> solid (last e)"
  by (simp add: spaces_def solid_def upt_conv_Cons)

lemma trim_space_solid:
  assumes "\<forall>c \<in> set s. solid c" shows "trim_space s = s"
proof -
  have "trim_by spaces s = s"
    using assms spaces_solid by (intro trim_by_solid) (auto intro: hd_in_set)
  moreover have "trim_by (map rev spaces) (rev s) = rev s"
  proof (rule trim_by_solid)
    show "rev s = [] \<or> solid (hd (rev s))"
      using assms by (cases "s = []") (simp_all add: hd_rev)
    show "\<forall>e \<in> set (map rev spaces). e \<noteq> [] \<longrightarrow> \<not> solid (hd e)"
      using spaces_solid by (auto simp: hd_rev)
  qed
  ultimately show ?thesis by (simp add: trim_space_def)
qed

section \<open>Underscores\<close>

datatype saw = SawBegin | SawDigit | SawUnderscore | SawOther

definition is_hex :: "char \<Rightarrow> bool" where
  "is_hex c \<longleftrightarrow> 97 \<le> byte (lower_char c) \<and> byte (lower_char c) \<le> 102"

fun underscore_scan :: "bool \<Rightarrow> saw \<Rightarrow> bytestr \<Rightarrow> bool" where
  "underscore_scan hex sw [] = (sw \<noteq> SawUnderscore)"
| "underscore_scan hex sw (c # s) =
     (if is_digit c \<or> hex \<and> is_hex c then underscore_scan hex SawDigit s
      else if c = CHR ''_''
      then if sw \<noteq> SawDigit then False else underscore_scan hex SawUnderscore s
      else if sw = SawUnderscore then False
      else underscore_scan hex SawOther s)"

definition drop_sign :: "bytestr \<Rightarrow> bool \<times> bytestr" where
  "drop_sign s =
     (case s of
        c # t \<Rightarrow> if c = CHR ''+'' then (False, t) else if c = CHR ''-'' then (True, t) else (False, s)
      | [] \<Rightarrow> (False, []))"

definition underscore_ok :: "bytestr \<Rightarrow> bool" where
  "underscore_ok s0 =
     (case snd (drop_sign s0) of
        z # x # t \<Rightarrow>
          if z = CHR ''0'' \<and> lower_char x \<in> set ''box''
          then underscore_scan (lower_char x = CHR ''x'') SawDigit t
          else underscore_scan False SawBegin (z # x # t)
      | t \<Rightarrow> underscore_scan False SawBegin t)"

section \<open>Reading a float\<close>

text \<open>
  The digits: value so far, digits after the point, whether a point, a digit and an
  underscore were seen, and what is left.
\<close>

record mant =
  m_val :: nat
  m_frac :: nat
  m_dot :: bool
  m_digits :: bool
  m_under :: bool

definition mant0 :: mant where
  "mant0 = \<lparr>m_val = 0, m_frac = 0, m_dot = False, m_digits = False, m_under = False\<rparr>"

definition add_digit :: "nat \<Rightarrow> nat \<Rightarrow> mant \<Rightarrow> mant" where
  "add_digit base d m =
     m\<lparr>m_val := m_val m * base + d, m_digits := True,
       m_frac := (if m_dot m then m_frac m + 1 else m_frac m)\<rparr>"

fun read_mant :: "nat \<Rightarrow> bytestr \<Rightarrow> mant \<Rightarrow> mant \<times> bytestr" where
  "read_mant base [] m = (m, [])"
| "read_mant base (c # s) m =
     (if c = CHR ''_'' then read_mant base s (m\<lparr>m_under := True\<rparr>)
      else if c = CHR ''.''
      then if m_dot m then (m, c # s) else read_mant base s (m\<lparr>m_dot := True\<rparr>)
      else if is_digit c then read_mant base s (add_digit base (digit_val c) m)
      else if base = 16 \<and> is_hex c
      then read_mant base s (add_digit base (byte (lower_char c) - 97 + 10) m)
      else (m, c # s))"

fun read_exp :: "bytestr \<Rightarrow> nat \<Rightarrow> bool \<Rightarrow> nat \<times> bool \<times> bytestr" where
  "read_exp [] e u = (e, u, [])"
| "read_exp (c # s) e u =
     (if c = CHR ''_'' then read_exp s e True
      else if is_digit c then read_exp s (if e < 10000 then e * 10 + digit_val c else e) u
      else (e, u, c # s))"

text \<open>
  \<open>readFloat\<close>: sign, mantissa, exponent; nothing when the syntax is wrong. The result
  is the magnitude \<open>val * base^-frac * ebase^exp\<close> and what is left unread.
\<close>

record lit =
  l_neg :: bool
  l_hex :: bool
  l_val :: nat
  l_frac :: nat
  l_exp :: int

definition read_float :: "bytestr \<Rightarrow> (lit \<times> bytestr) option" where
  "read_float s0 =
     (let (neg, s) = drop_sign s0;
          hex = (case s of z # x # _ # _ \<Rightarrow> z = CHR ''0'' \<and> lower_char x = CHR ''x'' | _ \<Rightarrow> False);
          base = (if hex then 16 else 10);
          (m, t) = read_mant base (if hex then drop 2 s else s) mant0;
          exp_char = (if hex then CHR ''p'' else CHR ''e'')
      in if \<not> m_digits m then None
         else
           (case (case t of
                    c # t1 \<Rightarrow>
                      if lower_char c = exp_char then
                        (let (eneg, t2) = drop_sign t1
                         in case t2 of
                              d # _ \<Rightarrow>
                                if \<not> is_digit d then None
                                else
                                  (let (e, u, r) = read_exp t2 0 (m_under m)
                                   in Some (if eneg then - int e else int e, u, r))
                            | [] \<Rightarrow> None)
                      else if hex then None else Some (0, m_under m, t)
                  | [] \<Rightarrow> if hex then None else Some (0, m_under m, t)) of
              None \<Rightarrow> None
            | Some (e, u, r) \<Rightarrow>
                if u \<and> \<not> underscore_ok (take (length s0 - length r) s0) then None
                else Some (\<lparr>l_neg = neg, l_hex = hex, l_val = m_val m, l_frac = m_frac m,
                             l_exp = e\<rparr>, r)))"

definition rat_pow :: "nat \<Rightarrow> int \<Rightarrow> rat" where
  "rat_pow b e = (if 0 \<le> e then of_nat b ^ nat e else 1 / of_nat b ^ nat (- e))"

definition lit_value :: "lit \<Rightarrow> rat" where
  "lit_value l =
     (let m = (if l_hex l
               then of_nat (l_val l) * rat_pow 2 (l_exp l - 4 * int (l_frac l))
               else of_nat (l_val l) * rat_pow 10 (l_exp l - int (l_frac l)))
      in if l_neg l then - m else m)"

text \<open>\<open>special\<close>: signed infinities and NaN in any case, and how many bytes they take.\<close>

fun common_prefix :: "bytestr \<Rightarrow> bytestr \<Rightarrow> nat" where
  "common_prefix (c # s) (p # ps) = (if lower_char c = p then Suc (common_prefix s ps) else 0)"
| "common_prefix _ _ = 0"

definition special :: "bytestr \<Rightarrow> (f64 \<times> nat) option" where
  "special s =
     (let (neg, t) = drop_sign s;
          k = length s - length t;
          n = common_prefix t ''infinity'';
          n' = (if 3 < n \<and> n < 8 then 3 else n)
      in if n' = 3 \<or> n' = 8 then Some (if neg then NInf else PInf, k + n')
         else if k = 0 \<and> common_prefix t ''nan'' = 3 then Some (NaN, 3)
         else None)"

definition num_error :: "bytestr \<Rightarrow> bytestr \<Rightarrow> goerr" where
  "num_error what s = ErrFmt ''strconv.ParseFloat: parsing %q: %s'' [AStr s, AStr what]"

definition parse_float :: "bytestr \<Rightarrow> goerr + f64" where
  "parse_float s =
     (case special s of
        Some (v, n) \<Rightarrow> if n = length s then Inr v else Inl (num_error ''invalid syntax'' s)
      | None \<Rightarrow>
          (case read_float s of
             None \<Rightarrow> Inl (num_error ''invalid syntax'' s)
           | Some (l, r) \<Rightarrow>
               if r \<noteq> [] then Inl (num_error ''invalid syntax'' s)
               else
                 (case round64 (lit_value l) of
                    Fin x \<Rightarrow> Inr (Fin x)
                  | _ \<Rightarrow> Inl (num_error ''value out of range'' s))))"

section \<open>Plain decimals\<close>

lemma digit_not:
  "is_digit c \<Longrightarrow> c \<noteq> CHR ''_'' \<and> c \<noteq> CHR ''.'' \<and> c \<noteq> CHR ''+'' \<and> c \<noteq> CHR ''-''"
  by (auto simp: is_digit_def byte_def)

lemma digit_lower: "is_digit c \<Longrightarrow> lower_char c = c"
  by (simp add: is_digit_def lower_char_def)

lemma digit_not_letter: "is_digit c \<Longrightarrow> c \<noteq> CHR ''i'' \<and> c \<noteq> CHR ''n'' \<and> c \<noteq> CHR ''x''"
  by (auto simp: is_digit_def byte_def)

lemma digit_solid: "is_digit c \<Longrightarrow> solid c"
  by (simp add: is_digit_def solid_def)

text \<open>A decimal: digits, and a fraction when there is one; and the number it stands for.\<close>

definition decimal :: "bytestr \<Rightarrow> bytestr \<Rightarrow> bytestr" where
  "decimal ds fs = ds @ (if fs = [] then [] else CHR ''.'' # fs)"

definition decimal_value :: "bytestr \<Rightarrow> bytestr \<Rightarrow> rat" where
  "decimal_value ds fs = of_nat (num (ds @ fs)) / 10 ^ length fs"

definition decimal_ok :: "bytestr \<Rightarrow> bytestr \<Rightarrow> bool" where
  "decimal_ok ds fs \<longleftrightarrow> (\<forall>c \<in> set (ds @ fs). is_digit c) \<and> ds @ fs \<noteq> []"

lemma decimal_head:
  assumes "decimal_ok ds fs"
  obtains c t where "decimal ds fs = c # t" and "is_digit c \<or> c = CHR ''.''"
  using assms by (cases ds) (auto simp: decimal_def decimal_ok_def)

lemma decimal_chars: "decimal_ok ds fs \<Longrightarrow> c \<in> set (decimal ds fs) \<Longrightarrow> is_digit c \<or> c = CHR ''.''"
  by (auto simp: decimal_def decimal_ok_def split: if_splits)

lemma decimal_last: "decimal_ok ds fs \<Longrightarrow> decimal ds fs \<noteq> [] \<and> is_digit (last (decimal ds fs))"
  by (auto simp: decimal_def decimal_ok_def)

lemma read_mant_digits:
  "\<forall>c \<in> set s. is_digit c \<Longrightarrow>
   read_mant 10 (s @ t) m =
     read_mant 10 t (m\<lparr>m_val := foldl (\<lambda>a c. a * 10 + digit_val c) (m_val m) s,
        m_digits := m_digits m \<or> s \<noteq> [],
        m_frac := (if m_dot m then m_frac m + length s else m_frac m)\<rparr>)"
  by (induction s arbitrary: m) (auto simp: digit_not add_digit_def)

lemma read_mant_decimal:
  assumes "decimal_ok ds fs"
  shows "read_mant 10 (decimal ds fs) mant0 =
    (\<lparr>m_val = num (ds @ fs), m_frac = length fs, m_dot = (fs \<noteq> []), m_digits = True, m_under = False\<rparr>, [])"
proof (cases "fs = []")
  case True
  with assms show ?thesis
    using read_mant_digits [of ds "[]" mant0] by (simp add: decimal_def decimal_ok_def mant0_def num_def)
next
  case False
  have d: "\<forall>c \<in> set ds. is_digit c" "\<forall>c \<in> set fs. is_digit c" using assms by (auto simp: decimal_ok_def)
  show ?thesis
    using read_mant_digits [OF d(1), of "CHR ''.'' # fs" mant0] read_mant_digits [OF d(2), of "[]"] False
    by (simp add: decimal_def mant0_def num_def)
qed

lemma decimal_letter: "decimal_ok ds fs \<Longrightarrow> c \<in> set (decimal ds fs) \<Longrightarrow>
   solid c \<and> c \<noteq> CHR ''+'' \<and> c \<noteq> CHR ''-'' \<and> lower_char c \<notin> {CHR ''i'', CHR ''n'', CHR ''x''}"
  using decimal_chars [of ds fs c] digit_lower [of c] digit_not_letter [of c] digit_not [of c] digit_solid [of c]
  by (auto simp: solid_def lower_char_def byte_def)

lemma read_float_decimal:
  assumes "decimal_ok ds fs"
  shows "read_float (decimal ds fs) =
    Some (\<lparr>l_neg = False, l_hex = False, l_val = num (ds @ fs), l_frac = length fs, l_exp = 0\<rparr>, [])"
proof -
  obtain c t where s: "decimal ds fs = c # t" by (rule decimal_head [OF assms])
  note L = decimal_letter [OF assms, unfolded s]
  have sign: "drop_sign (c # t) = (False, c # t)" using L [of c] by (simp add: drop_sign_def)
  have hex: "\<not> (case c # t of z # x # _ # _ \<Rightarrow> z = CHR ''0'' \<and> lower_char x = CHR ''x'' | _ \<Rightarrow> False)"
    using L by (auto split: list.splits)
  show ?thesis
    unfolding read_float_def s sign using read_mant_decimal [OF assms, unfolded s] hex by simp
qed

lemma special_decimal: "decimal_ok ds fs \<Longrightarrow> special (decimal ds fs) = None"
proof -
  assume ok: "decimal_ok ds fs"
  obtain c t where s: "decimal ds fs = c # t" by (rule decimal_head [OF ok])
  note L = decimal_letter [OF ok, of c, unfolded s]
  have sign: "drop_sign (c # t) = (False, c # t)" using L by (simp add: drop_sign_def)
  show ?thesis unfolding special_def s sign using L by simp
qed

lemma lit_value_decimal:
  "lit_value \<lparr>l_neg = False, l_hex = False, l_val = num (ds @ fs), l_frac = length fs, l_exp = 0\<rparr> = decimal_value ds fs"
  by (simp add: lit_value_def rat_pow_def decimal_value_def)

lemma parse_float_decimal:
  assumes "decimal_ok ds fs" and "round64 (decimal_value ds fs) = Fin x"
  shows "parse_float (decimal ds fs) = Inr (Fin x)"
  using assms by (simp add: parse_float_def special_decimal read_float_decimal lit_value_decimal)

end
