(* ===== verification/GoNet.thy ===== *)
theory GoNet
  imports GoParse Errors
begin

text \<open>
  The parts of package net that decide where a driver listens: \<open>SplitHostPort\<close>,
  \<open>ParseIP\<close> for both address families, and \<open>IP.IsLoopback\<close>. An address is its list of
  sixteen bytes, as \<open>net.IP\<close> holds it. The lemmas read the printed form of an IPv4
  address back and say which of them are loopback.
\<close>

section \<open>Splitting\<close>

text \<open>\<open>strings.Cut(s, sep)\<close> for a separator of one byte.\<close>

definition cut_at :: "char \<Rightarrow> bytestr \<Rightarrow> (bytestr \<times> bytestr) option" where
  "cut_at c s =
     (if c \<in> set s then Some (takeWhile (\<lambda>d. d \<noteq> c) s, tl (dropWhile (\<lambda>d. d \<noteq> c) s)) else None)"

lemma cut_at_Some: "cut_at c s = Some (k, v) \<longleftrightarrow> s = k @ c # v \<and> c \<notin> set k"
proof
  assume a: "cut_at c s = Some (k, v)"
  then have "c \<in> set s" by (auto simp: cut_at_def split: if_split_asm)
  then have "dropWhile (\<lambda>d. d \<noteq> c) s \<noteq> []" "hd (dropWhile (\<lambda>d. d \<noteq> c) s) = c"
    using hd_dropWhile [of "\<lambda>d. d \<noteq> c" s] by (auto simp: dropWhile_eq_Nil_conv)
  then have "dropWhile (\<lambda>d. d \<noteq> c) s = c # tl (dropWhile (\<lambda>d. d \<noteq> c) s)" by (metis list.collapse)
  with a show "s = k @ c # v \<and> c \<notin> set k"
    by (auto simp: cut_at_def split: if_split_asm dest: set_takeWhileD)
      (metis takeWhile_dropWhile_id)
next
  assume "s = k @ c # v \<and> c \<notin> set k"
  then show "cut_at c s = Some (k, v)"
    by (auto simp: cut_at_def takeWhile_append dropWhile_append)
qed

lemma cut_at_append [simp]: "c \<notin> set k \<Longrightarrow> cut_at c (k @ c # v) = Some (k, v)"
  by (simp add: cut_at_Some)

lemma cut_at_None: "cut_at c s = None \<longleftrightarrow> c \<notin> set s"
  by (simp add: cut_at_def)

text \<open>The last occurrence, from the cut of the reversed text.\<close>

definition cut_last :: "char \<Rightarrow> bytestr \<Rightarrow> (bytestr \<times> bytestr) option" where
  "cut_last c s = map_option (\<lambda>(k, v). (rev v, rev k)) (cut_at c (rev s))"

lemma cut_last_append [simp]: "c \<notin> set v \<Longrightarrow> cut_last c (k @ c # v) = Some (k, v)"
  using cut_at_append [of c "rev v" "rev k"] by (simp add: cut_last_def)

lemma cut_last_Some: "cut_last c s = Some (k, v) \<longleftrightarrow> s = k @ c # v \<and> c \<notin> set v"
proof
  assume "cut_last c s = Some (k, v)"
  then obtain k' v' where "cut_at c (rev s) = Some (k', v')" "k = rev v'" "v = rev k'"
    by (auto simp: cut_last_def)
  then have "rev s = rev v @ c # rev k" "c \<notin> set v" by (auto simp: cut_at_Some)
  then show "s = k @ c # v \<and> c \<notin> set v" by (simp add: rev_swap)
qed auto

text \<open>\<open>strings.Split(s, sep)\<close> for a separator of one byte.\<close>

fun split_on :: "char \<Rightarrow> bytestr \<Rightarrow> bytestr list" where
  "split_on c [] = [[]]"
| "split_on c (d # s) =
     (if d = c then [] # split_on c s
      else (case split_on c s of [] \<Rightarrow> [[d]] | p # ps \<Rightarrow> (d # p) # ps))"

lemma split_on_plain: "c \<notin> set s \<Longrightarrow> split_on c s = [s]"
  by (induction s) auto

lemma split_on_append: "c \<notin> set s \<Longrightarrow> split_on c (s @ c # t) = s # split_on c t"
  by (induction s) auto

section \<open>SplitHostPort\<close>

definition addr_err :: "bytestr \<Rightarrow> bytestr \<Rightarrow> goerr" where
  "addr_err addr why = ErrFmt ''address %s: %s'' [AStr addr, AStr why]"

text \<open>
  The host before the last colon; in brackets it may hold colons itself. The stray
  brackets are looked for where the code looks: after the opening bracket, and from the
  closing one on.
\<close>

definition split_host_port :: "bytestr \<Rightarrow> goerr + bytestr \<times> bytestr" where
  "split_host_port hostport =
     (case cut_last CHR '':'' hostport of
        None \<Rightarrow> Inl (addr_err hostport ''missing port in address'')
      | Some (head, port) \<Rightarrow>
          if hostport = [] \<or> hd hostport \<noteq> CHR ''[''
          then if CHR '':'' \<in> set head then Inl (addr_err hostport ''too many colons in address'')
               else if CHR ''['' \<in> set hostport then Inl (addr_err hostport ''unexpected '[' in address'')
               else if CHR '']'' \<in> set hostport then Inl (addr_err hostport ''unexpected ']' in address'')
               else Inr (head, port)
          else
            (case cut_at CHR '']'' hostport of
               None \<Rightarrow> Inl (addr_err hostport ''missing ']' in address'')
             | Some (pre, post) \<Rightarrow>
                 if post = [] then Inl (addr_err hostport ''missing port in address'')
                 else if pre @ [CHR '']''] = head
                 then if CHR ''['' \<in> set (tl hostport) then Inl (addr_err hostport ''unexpected '[' in address'')
                      else if CHR '']'' \<in> set post then Inl (addr_err hostport ''unexpected ']' in address'')
                      else Inr (tl pre, port)
                 else if hd post = CHR '':'' then Inl (addr_err hostport ''too many colons in address'')
                 else Inl (addr_err hostport ''missing port in address'')))"

section \<open>ParseIP\<close>

type_synonym ip = "nat list"

text \<open>One decimal field: digits, no leading zero, at most 255.\<close>

definition ipv4_field :: "bytestr \<Rightarrow> nat option" where
  "ipv4_field s =
     (if s \<noteq> [] \<and> list_all is_digit s \<and> (hd s = CHR ''0'' \<longrightarrow> tl s = []) \<and> num s \<le> 255
      then Some (num s) else None)"

definition ipv4_fields :: "bytestr \<Rightarrow> nat list option" where
  "ipv4_fields s =
     (case map ipv4_field (split_on CHR ''.'' s) of
        [Some a, Some b, Some c, Some d] \<Rightarrow> Some [a, b, c, d]
      | _ \<Rightarrow> None)"

text \<open>An IPv4 address is kept in its IPv6-mapped form.\<close>

definition v4_in_v6 :: "nat list \<Rightarrow> ip" where
  "v4_in_v6 a = replicate 10 0 @ [255, 255] @ a"

definition hex_val :: "char \<Rightarrow> nat" where
  "hex_val c = (if is_digit c then byte c - 48 else byte (lower_char c) - 87)"

definition hex_digit :: "char \<Rightarrow> bool" where
  "hex_digit c \<longleftrightarrow> is_digit c \<or> is_hex c"

definition hex_num :: "bytestr \<Rightarrow> nat" where
  "hex_num s = foldl (\<lambda>a c. a * 16 + hex_val c) 0 s"

text \<open>
  The loop of \<open>parseIPv6\<close>: the bytes so far, where the ellipsis stands among them, the
  rest of the text. The result is the bytes, the ellipsis and the text that was not
  used. A group takes two bytes of the sixteen, so eight groups end the loop.
\<close>

function ipv6_loop :: "nat list \<Rightarrow> nat option \<Rightarrow> bytestr \<Rightarrow> (nat list \<times> nat option \<times> bytestr) option" where
  "ipv6_loop bs ell s =
     (if length bs \<ge> 16 then Some (bs, ell, s)
      else
        (let h = takeWhile hex_digit s; r = dropWhile hex_digit s in
         if length h > 4 \<or> h = [] then None
         else if r \<noteq> [] \<and> hd r = CHR ''.''
         then if ell = None \<and> length bs \<noteq> 12 then None
              else if length bs + 4 > 16 then None
              else map_option (\<lambda>a. (bs @ a, ell, [])) (ipv4_fields s)
         else
           (let bs' = bs @ [hex_num h div 256, hex_num h mod 256] in
            case r of
              [] \<Rightarrow> Some (bs', ell, [])
            | c # t \<Rightarrow>
                if c \<noteq> CHR '':'' \<or> t = [] then None
                else if hd t = CHR '':''
                then if ell \<noteq> None then None
                     else if tl t = [] then Some (bs', Some (length bs'), [])
                     else ipv6_loop bs' (Some (length bs')) (tl t)
                else ipv6_loop bs' ell t)))"
  by pat_completeness auto
termination by (relation "measure (\<lambda>(bs, _). 16 - length bs)") auto

declare ipv6_loop.simps [simp del]

text \<open>The ellipsis stands for at least one group of zeros.\<close>

definition ipv6_expand :: "nat list \<times> nat option \<times> bytestr \<Rightarrow> ip option" where
  "ipv6_expand = (\<lambda>(bs, ell, s).
     if s \<noteq> [] then None
     else if length bs < 16
     then (case ell of
             None \<Rightarrow> None
           | Some e \<Rightarrow> Some (take e bs @ replicate (16 - length bs) 0 @ drop e bs))
     else if ell \<noteq> None then None
     else Some bs)"

definition parse_ipv6 :: "bytestr \<Rightarrow> ip option" where
  "parse_ipv6 s =
     (if prefix ''::'' s
      then if drop 2 s = [] then Some (replicate 16 0)
           else Option.bind (ipv6_loop [] (Some 0) (drop 2 s)) ipv6_expand
      else Option.bind (ipv6_loop [] None s) ipv6_expand)"

text \<open>
  The first dot or colon picks the family. A zone is no part of a \<open>net.IP\<close>: a text with
  one is refused, wherever the percent sign stands.
\<close>

definition parse_ip :: "bytestr \<Rightarrow> ip option" where
  "parse_ip s =
     (case dropWhile (\<lambda>c. c \<noteq> CHR ''.'' \<and> c \<noteq> CHR '':'' \<and> c \<noteq> CHR ''%'') s of
        [] \<Rightarrow> None
      | c # _ \<Rightarrow>
          if c = CHR ''.'' then map_option v4_in_v6 (ipv4_fields s)
          else if c = CHR '':'' \<and> CHR ''%'' \<notin> set s then parse_ipv6 s
          else None)"

definition to4 :: "ip \<Rightarrow> nat list option" where
  "to4 a = (if take 12 a = replicate 10 0 @ [255, 255] then Some (drop 12 a) else None)"

definition is_loopback :: "ip \<Rightarrow> bool" where
  "is_loopback a =
     (case to4 a of Some b \<Rightarrow> hd b = 127 | None \<Rightarrow> a = replicate 15 0 @ [1])"

section \<open>Printed addresses\<close>

definition dotted :: "nat \<Rightarrow> nat \<Rightarrow> nat \<Rightarrow> nat \<Rightarrow> bytestr" where
  "dotted a b c d = dec a @ CHR ''.'' # dec b @ CHR ''.'' # dec c @ CHR ''.'' # dec d"

lemma dec_no [simp]: "\<not> is_digit c \<Longrightarrow> c \<notin> set (dec n)"
  using dec_digits by blast

lemma not_digits [simp]:
  "\<not> is_digit CHR ''.''" "\<not> is_digit CHR '':''" "\<not> is_digit CHR ''%''" "\<not> is_digit CHR ''[''"
  "\<not> is_digit CHR '']''"
  by (simp_all add: is_digit_def byte_def)

lemma dec_head: "hd (dec n) = CHR ''0'' \<Longrightarrow> tl (dec n) = []"
proof (induction n rule: dec.induct)
  case (1 n)
  show ?case
  proof (cases "n < 10")
    case False
    then have "n div 10 \<noteq> 0" by simp
    with False 1 show ?thesis
      using num_dec [of "n div 10"] by (cases "dec (n div 10)") (auto simp: dec.simps [of n] num_def digit_val_def byte_def)
  qed (simp add: dec.simps [of n])
qed

lemma ipv4_field_dec [simp]: "n < 256 \<Longrightarrow> ipv4_field (dec n) = Some n"
  using dec_digits [of n] dec_head [of n] by (simp add: ipv4_field_def list_all_iff)

lemma split_dotted: "split_on CHR ''.'' (dotted a b c d) = [dec a, dec b, dec c, dec d]"
  by (simp add: dotted_def split_on_append split_on_plain)

lemma parse_ip_dotted:
  assumes "a < 256" "b < 256" "c < 256" "d < 256"
  shows "parse_ip (dotted a b c d) = Some (v4_in_v6 [a, b, c, d])"
proof -
  have "\<And>x. x \<in> set (dec a) \<Longrightarrow> x \<noteq> CHR ''.'' \<and> x \<noteq> CHR '':'' \<and> x \<noteq> CHR ''%''"
    using dec_digits by fastforce
  then have "dropWhile (\<lambda>c. c \<noteq> CHR ''.'' \<and> c \<noteq> CHR '':'' \<and> c \<noteq> CHR ''%'') (dotted a b c d) =
      CHR ''.'' # dec b @ CHR ''.'' # dec c @ CHR ''.'' # dec d"
    by (simp add: dotted_def dropWhile_append)
  then show ?thesis
    using assms by (simp add: parse_ip_def ipv4_fields_def split_dotted)
qed

lemma is_loopback_v4 [simp]: "is_loopback (v4_in_v6 [a, b, c, d]) \<longleftrightarrow> a = 127"
  by (simp add: is_loopback_def to4_def v4_in_v6_def)

lemma dotted_no [simp]: "\<not> is_digit x \<Longrightarrow> x \<noteq> CHR ''.'' \<Longrightarrow> x \<notin> set (dotted a b c d)"
  by (simp add: dotted_def)

text \<open>A host without colons and brackets, a port without them.\<close>

lemma split_host_port_plain:
  assumes "set host \<inter> {CHR '':'', CHR ''['', CHR '']''} = {}"
    and "set port \<inter> {CHR '':'', CHR ''['', CHR '']''} = {}"
  shows "split_host_port (host @ CHR '':'' # port) = Inr (host, port)"
proof -
  have "cut_last CHR '':'' (host @ CHR '':'' # port) = Some (host, port)"
    using assms by (intro cut_last_append) auto
  moreover have "hd (host @ CHR '':'' # port) \<noteq> CHR ''[''"
    using assms by (cases host) auto
  moreover have "CHR ''['' \<notin> set (host @ CHR '':'' # port)" "CHR '']'' \<notin> set (host @ CHR '':'' # port)"
    "CHR '':'' \<notin> set host"
    using assms by auto
  ultimately show ?thesis by (simp add: split_host_port_def)
qed

lemma split_host_port_host:
  "split_host_port s = Inr (host, port) \<Longrightarrow> \<exists>k. cut_last CHR '':'' s = Some (k, port)"
  by (auto simp: split_host_port_def split: option.split_asm if_split_asm prod.split_asm)

lemma ipv6_loop_last:
  "length bs < 16 \<Longrightarrow> h \<noteq> [] \<Longrightarrow> length h \<le> 4 \<Longrightarrow> list_all hex_digit h \<Longrightarrow>
   ipv6_loop bs ell h = Some (bs @ [hex_num h div 256, hex_num h mod 256], ell, [])"
  by (subst ipv6_loop.simps)
    (simp add: Let_def list_all_iff takeWhile_eq_all_conv [THEN iffD2] dropWhile_eq_Nil_conv [THEN iffD2])

lemma parse_ip_v6_loopback: "parse_ip ''::1'' = Some (replicate 15 0 @ [1])"
proof -
  have "ipv6_loop [] (Some 0) ''1'' = Some ([0, 1], Some 0, [])"
    by (simp add: ipv6_loop_last hex_digit_def is_digit_def byte_def hex_num_def hex_val_def)
  then show ?thesis
    by (simp add: parse_ip_def parse_ipv6_def ipv6_expand_def numeral_nat)
qed

end
