(* ===== verification/Server.thy ===== *)
theory Server
  imports GoNet GoTime
begin

text \<open>
  pkg/server: the options and their defaults, the listener, the limit on concurrent
  unary calls, and Run, which reconciles, listens, serves, waits for the first thing to
  end and shuts down. The host is its files and the open listeners; which operation of
  the host fails, and with what, is the argument \<open>host_lib\<close>. The grpc server, the driver
  and the scheduler's choice in the select are the fields of \<open>server_env\<close>. Nothing
  else changes the host while Run works on it.
\<close>

section \<open>Options\<close>

record server_options =
  so_socket_path :: bytestr
  so_bind_address :: bytestr
  so_insecure :: bool
  so_shutdown_timeout :: duration
  so_max_recv :: int
  so_max_rpcs :: int

definition with_defaults :: "server_options \<Rightarrow> server_options" where
  "with_defaults opts =
     opts\<lparr>so_shutdown_timeout := (if so_shutdown_timeout opts \<le> 0 then 5 * second else so_shutdown_timeout opts),
          so_max_recv := (if so_max_recv opts \<le> 0 then 1048576 else so_max_recv opts),
          so_max_rpcs := (if so_max_rpcs opts \<le> 0 then 32 else so_max_rpcs opts)\<rparr>"

text \<open>What the grpc server is built with; the number of streams is cut to 32 bits.\<close>

record grpc_limits =
  gl_max_recv :: int
  gl_max_streams :: "32 word"

definition grpc_limits_of :: "server_options \<Rightarrow> grpc_limits" where
  "grpc_limits_of opts = \<lparr>gl_max_recv = so_max_recv opts, gl_max_streams = word_of_int (so_max_rpcs opts)\<rparr>"

section \<open>The host\<close>

datatype node = SocketNode nat | OtherNode

datatype listener = TCPListener bytestr | UnixListener bytestr

record host =
  ho_files :: "bytestr \<Rightarrow> node option"
  ho_listeners :: "listener list"

record host_lib =
  hl_lstat :: "host \<Rightarrow> bytestr \<Rightarrow> goerr option"
  hl_remove :: "host \<Rightarrow> bytestr \<Rightarrow> goerr option"
  hl_listen :: "host \<Rightarrow> bytestr \<Rightarrow> goerr option"
  hl_chmod :: "host \<Rightarrow> bytestr \<Rightarrow> goerr option"
  hl_socket_mode :: nat

definition err_not_exist :: goerr where "err_not_exist = ErrNew ''file does not exist''"

text \<open>\<open>os.Lstat\<close>: an error, nothing there, or the node.\<close>

definition os_lstat :: "host_lib \<Rightarrow> bytestr \<Rightarrow> host \<Rightarrow> goerr + node option" where
  "os_lstat lib p h = (case hl_lstat lib h p of Some e \<Rightarrow> Inl e | None \<Rightarrow> Inr (ho_files h p))"

definition os_remove :: "host_lib \<Rightarrow> bytestr \<Rightarrow> host \<Rightarrow> goerr option \<times> host" where
  "os_remove lib p h =
     (case hl_remove lib h p of
        Some e \<Rightarrow> (Some e, h)
      | None \<Rightarrow>
          if ho_files h p = None then (Some err_not_exist, h)
          else (None, h\<lparr>ho_files := (ho_files h)(p := None)\<rparr>))"

definition os_chmod :: "host_lib \<Rightarrow> bytestr \<Rightarrow> nat \<Rightarrow> host \<Rightarrow> goerr option \<times> host" where
  "os_chmod lib p mode h =
     (case hl_chmod lib h p of
        Some e \<Rightarrow> (Some e, h)
      | None \<Rightarrow>
          (case ho_files h p of
             None \<Rightarrow> (Some err_not_exist, h)
           | Some (SocketNode _) \<Rightarrow> (None, h\<lparr>ho_files := (ho_files h)(p \<mapsto> SocketNode mode)\<rparr>)
           | Some OtherNode \<Rightarrow> (None, h)))"

definition net_listen_tcp :: "host_lib \<Rightarrow> bytestr \<Rightarrow> host \<Rightarrow> (goerr + listener) \<times> host" where
  "net_listen_tcp lib a h =
     (case hl_listen lib h a of
        Some e \<Rightarrow> (Inl e, h)
      | None \<Rightarrow> (Inr (TCPListener a), h\<lparr>ho_listeners := TCPListener a # ho_listeners h\<rparr>))"

text \<open>
  A Unix socket: its file is created with the mode the umask leaves, unless the name is
  abstract, that is, starts with an at sign.
\<close>

definition abstract_name :: "bytestr \<Rightarrow> bool" where
  "abstract_name p \<longleftrightarrow> prefix ''@'' p"

definition net_listen_unix :: "host_lib \<Rightarrow> bytestr \<Rightarrow> host \<Rightarrow> (goerr + listener) \<times> host" where
  "net_listen_unix lib p h =
     (case hl_listen lib h p of
        Some e \<Rightarrow> (Inl e, h)
      | None \<Rightarrow>
          if abstract_name p
          then (Inr (UnixListener p), h\<lparr>ho_listeners := UnixListener p # ho_listeners h\<rparr>)
          else if ho_files h p \<noteq> None then (Inl (ErrNew ''bind: address already in use''), h)
          else (Inr (UnixListener p),
                h\<lparr>ho_files := (ho_files h)(p \<mapsto> SocketNode (hl_socket_mode lib)),
                  ho_listeners := UnixListener p # ho_listeners h\<rparr>))"

text \<open>Closing a Unix listener unlinks the file it listens on.\<close>

primrec close_listener :: "listener \<Rightarrow> host \<Rightarrow> host" where
  "close_listener (TCPListener a) h = h\<lparr>ho_listeners := remove1 (TCPListener a) (ho_listeners h)\<rparr>"
| "close_listener (UnixListener p) h =
     h\<lparr>ho_files := (if abstract_name p then ho_files h else (ho_files h)(p := None)),
       ho_listeners := remove1 (UnixListener p) (ho_listeners h)\<rparr>"

section \<open>listen\<close>

text \<open>The checks on a TCP address: only a loopback host.\<close>

definition bind_error :: "bytestr \<Rightarrow> goerr option" where
  "bind_error addr =
     (case split_host_port addr of
        Inl e \<Rightarrow> Some (ErrWrap ''parse TCP bind address %q: %w'' [AStr addr] e)
      | Inr (host, _) \<Rightarrow>
          if host \<noteq> ''localhost'' \<and> (case parse_ip host of None \<Rightarrow> True | Some ip \<Rightarrow> \<not> is_loopback ip)
          then Some (ErrFmt ''plaintext TCP bind address %q is not loopback; use a Unix socket'' [AStr addr])
          else None)"

text \<open>What is in the way of the socket: a stale one is removed, anything else refused.\<close>

definition clear_path :: "host_lib \<Rightarrow> bytestr \<Rightarrow> host \<Rightarrow> goerr option \<times> host" where
  "clear_path lib p h =
     (case os_lstat lib p h of
        Inl e \<Rightarrow> (Some (ErrWrap ''inspect Unix socket %q: %w'' [AStr p] e), h)
      | Inr None \<Rightarrow> (None, h)
      | Inr (Some OtherNode) \<Rightarrow> (Some (ErrFmt ''refusing to remove non-socket path %q'' [AStr p]), h)
      | Inr (Some (SocketNode _)) \<Rightarrow>
          (case os_remove lib p h of
             (Some e, h') \<Rightarrow> (Some (ErrWrap ''remove stale Unix socket %q: %w'' [AStr p] e), h')
           | (None, h') \<Rightarrow> (None, h')))"

definition listen_on :: "host_lib \<Rightarrow> server_options \<Rightarrow> host \<Rightarrow> (goerr + listener) \<times> host" where
  "listen_on lib opts h =
     (if so_bind_address opts \<noteq> []
      then
        (case bind_error (so_bind_address opts) of
           Some e \<Rightarrow> (Inl e, h)
         | None \<Rightarrow>
             (case net_listen_tcp lib (so_bind_address opts) h of
                (Inl e, h1) \<Rightarrow> (Inl (ErrWrap ''listen on TCP address %q: %w'' [AStr (so_bind_address opts)] e), h1)
              | (Inr lis, h1) \<Rightarrow> (Inr lis, h1)))
      else if so_socket_path opts = [] then (Inl (ErrNew ''unix socket path is required''), h)
      else
        (case clear_path lib (so_socket_path opts) h of
           (Some e, h1) \<Rightarrow> (Inl e, h1)
         | (None, h1) \<Rightarrow>
             (case net_listen_unix lib (so_socket_path opts) h1 of
                (Inl e, h2) \<Rightarrow> (Inl (ErrWrap ''listen on Unix socket %q: %w'' [AStr (so_socket_path opts)] e), h2)
              | (Inr lis, h2) \<Rightarrow>
                  (case os_chmod lib (so_socket_path opts) 0x180 h2 of
                     (Some e, h3) \<Rightarrow>
                       (Inl (ErrWrap ''set Unix socket permissions on %q: %w'' [AStr (so_socket_path opts)] e),
                        snd (os_remove lib (so_socket_path opts) (close_listener lis h3)))
                   | (None, h3) \<Rightarrow> (Inr lis, h3)))))"

lemma with_defaults_same [simp]:
  "so_socket_path (with_defaults opts) = so_socket_path opts"
  "so_bind_address (with_defaults opts) = so_bind_address opts"
  by (simp_all add: with_defaults_def)

lemma listen_on_with_defaults [simp]: "listen_on lib (with_defaults opts) h = listen_on lib opts h"
  unfolding listen_on_def by (simp only: with_defaults_same)

text \<open>The cleanup that goes with a listener.\<close>

primrec cleanup :: "host_lib \<Rightarrow> listener \<Rightarrow> host \<Rightarrow> host" where
  "cleanup lib (TCPListener a) h = close_listener (TCPListener a) h"
| "cleanup lib (UnixListener p) h = snd (os_remove lib p (close_listener (UnixListener p) h))"


section \<open>The limit on unary calls\<close>

text \<open>
  The semaphore is a channel of \<open>cap\<close> places, here the number of places taken. A call that
  finds no place is answered at once; one that found a place gives it back when its
  handler returns.
\<close>

definition unary_enter :: "nat \<Rightarrow> bytestr \<Rightarrow> nat \<Rightarrow> grpc_status + nat" where
  "unary_enter cap method n =
     (if n < cap then Inr (n + 1)
      else Inl (Status ResourceExhausted (ErrFmt ''too many concurrent RPCs for %s'' [AStr method])))"

definition unary_leave :: "nat \<Rightarrow> nat" where
  "unary_leave n = n - 1"

datatype 'r rpc = Arrived bytestr | Running | Answered "grpc_status + 'r"

inductive limiter_step :: "nat \<Rightarrow> nat \<times> 'r rpc list \<Rightarrow> nat \<times> 'r rpc list \<Rightarrow> bool" for cap where
  rpc_arrives: "limiter_step cap (n, rs) (n, rs @ [Arrived m])"
| rpc_enters: "i < length rs \<Longrightarrow> rs ! i = Arrived m \<Longrightarrow> unary_enter cap m n = Inr n' \<Longrightarrow>
    limiter_step cap (n, rs) (n', rs[i := Running])"
| rpc_refused: "i < length rs \<Longrightarrow> rs ! i = Arrived m \<Longrightarrow> unary_enter cap m n = Inl st \<Longrightarrow>
    limiter_step cap (n, rs) (n, rs[i := Answered (Inl st)])"
| rpc_returns: "i < length rs \<Longrightarrow> rs ! i = Running \<Longrightarrow>
    limiter_step cap (n, rs) (unary_leave n, rs[i := Answered r])"

inductive limiter_reach :: "nat \<Rightarrow> nat \<times> 'r rpc list \<Rightarrow> bool" for cap where
  limiter_start: "limiter_reach cap (0, [])"
| limiter_next: "limiter_reach cap c \<Longrightarrow> limiter_step cap c c' \<Longrightarrow> limiter_reach cap c'"

definition running :: "'r rpc list \<Rightarrow> nat" where
  "running rs = length (filter (\<lambda>r. r = Running) rs)"

lemma running_simps [simp]:
  "running [] = 0" "running (r # rs) = (if r = Running then Suc (running rs) else running rs)"
  "running (rs @ rs') = running rs + running rs'"
  by (simp_all add: running_def)

lemma running_update:
  "i < length rs \<Longrightarrow>
   running (rs[i := r]) + (if rs ! i = Running then 1 else 0) = running rs + (if r = Running then 1 else 0)"
proof (induction rs arbitrary: i)
  case (Cons a rs)
  show ?case
  proof (cases i)
    case (Suc j)
    with Cons.IH [of j] Cons.prems show ?thesis by auto
  qed simp
qed simp

text \<open>The places taken are the handlers running, and never more than there are.\<close>

lemma limiter_invariant: "limiter_reach cap c \<Longrightarrow> fst c = running (snd c) \<and> fst c \<le> cap"
proof (induction rule: limiter_reach.induct)
  case (limiter_next c c')
  obtain n rs where c: "c = (n, rs)" by (cases c)
  from limiter_next(2)[unfolded c] show ?case
  proof (cases rule: limiter_step.cases)
    case (rpc_enters i m n')
    with running_update [of i rs Running] limiter_next(3) c show ?thesis
      by (auto simp: unary_enter_def split: if_split_asm)
  next
    case (rpc_refused i m st)
    with running_update [of i rs "Answered (Inl st)"] limiter_next(3) c show ?thesis by auto
  next
    case (rpc_returns i r)
    with running_update [of i rs "Answered r"] limiter_next(3) c show ?thesis
      by (auto simp: unary_leave_def)
  qed (use limiter_next(3) c in auto)
qed simp

section \<open>Run\<close>

text \<open>
  What ends the wait of the select, with whether the run context is still live when Run
  looks at it: the context is done, with its cause; Serve returned; the watcher
  goroutine reported, because StartWatcher returned or because it panicked.
\<close>

datatype watcher_end = WatcherReturned "goerr option" | WatcherPanicked bytestr bytestr

datatype wakeup =
  ContextDone goerr | ServeReturned "goerr option" bool | WatchReported watcher_end bool

record 'w server_env =
  sv_host :: host_lib
  sv_initialize :: "(duration \<Rightarrow> 'w \<Rightarrow> goerr option \<times> 'w) option"
  sv_serve :: "grpc_limits \<Rightarrow> listener \<Rightarrow> 'w \<Rightarrow> 'w"
  sv_start_watcher :: "('w \<Rightarrow> 'w) option"
  sv_select :: "'w \<Rightarrow> wakeup \<times> 'w"
  sv_cancel_workers :: "'w \<Rightarrow> 'w"
  sv_graceful_stop :: "duration \<Rightarrow> 'w \<Rightarrow> bool \<times> 'w"
  sv_stop :: "'w \<Rightarrow> 'w"

definition err_server_stopped :: goerr where
  "err_server_stopped = ErrNew ''grpc: the server has been stopped''"

primrec watcher_error :: "watcher_end \<Rightarrow> goerr option" where
  "watcher_error (WatcherReturned e) = e"
| "watcher_error (WatcherPanicked v stack) = Some (ErrFmt (''watcher panic: %v'' @ [CHR 0x0A] @ ''%s'') [AStr v, AStr stack])"

definition run_error :: "wakeup \<Rightarrow> goerr option" where
  "run_error ev =
     (case ev of
        ContextDone cause \<Rightarrow> Some cause
      | ServeReturned err live \<Rightarrow>
          (case err of
             Some e \<Rightarrow>
               if \<not> errors_is e err_server_stopped then Some (ErrWrap ''serve gRPC: %w'' [] e)
               else if live then Some (ErrNew ''gRPC server exited unexpectedly'') else None
           | None \<Rightarrow> if live then Some (ErrNew ''gRPC server exited unexpectedly'') else None)
      | WatchReported e live \<Rightarrow>
          if live
          then (case watcher_error e of
                  None \<Rightarrow> Some (ErrNew ''watcher exited unexpectedly'') | Some err \<Rightarrow> Some err)
          else None)"

text \<open>The end of Run: cancellation counts as success.\<close>

definition exit_error :: "goerr option \<Rightarrow> goerr option" where
  "exit_error err =
     (case err of None \<Rightarrow> None | Some e \<Rightarrow> if errors_is e ErrCanceled then None else Some e)"

text \<open>A graceful stop, forced when it does not end in time.\<close>

definition shutdown :: "'w server_env \<Rightarrow> duration \<Rightarrow> 'w \<Rightarrow> 'w" where
  "shutdown env timeout w =
     (case sv_graceful_stop env timeout w of (ended, w') \<Rightarrow> if ended then w' else sv_stop env w')"

definition initialize_driver :: "'w server_env \<Rightarrow> 'w \<Rightarrow> goerr option \<times> 'w" where
  "initialize_driver env w =
     (case sv_initialize env of
        None \<Rightarrow> (None, w)
      | Some initialize \<Rightarrow>
          (case initialize (2 * minute) w of
             (Some e, w') \<Rightarrow> (Some (ErrWrap ''initial driver reconciliation: %w'' [] e), w')
           | (None, w') \<Rightarrow> (None, w')))"

text \<open>From the listener on: serve, wait, shut down.\<close>

definition serve_until :: "'w server_env \<Rightarrow> server_options \<Rightarrow> listener \<Rightarrow> 'w \<Rightarrow> goerr option \<times> 'w" where
  "serve_until env opts lis w =
     (let w1 = sv_serve env (grpc_limits_of opts) lis w;
          w2 = (case sv_start_watcher env of None \<Rightarrow> w1 | Some start \<Rightarrow> start w1)
      in case sv_select env w2 of
           (ev, w3) \<Rightarrow>
             (exit_error (run_error ev), shutdown env (so_shutdown_timeout opts) (sv_cancel_workers env w3)))"

definition run_server ::
  "'w server_env \<Rightarrow> server_options \<Rightarrow> host \<Rightarrow> 'w \<Rightarrow> goerr option \<times> host \<times> 'w" where
  "run_server env opts0 h w =
     (let opts = with_defaults opts0 in
      case initialize_driver env w of
        (Some e, w1) \<Rightarrow> (Some e, h, w1)
      | (None, w1) \<Rightarrow>
          (case listen_on (sv_host env) opts h of
             (Inl e, h1) \<Rightarrow> (Some e, h1, w1)
           | (Inr lis, h1) \<Rightarrow>
               (case serve_until env opts lis w1 of
                  (err, w2) \<Rightarrow> (err, cleanup (sv_host env) lis h1, w2))))"

section \<open>What the host looks like afterwards\<close>

text \<open>Only the socket path may change, and only when no file of another kind is there.\<close>

definition spares :: "bytestr \<Rightarrow> host \<Rightarrow> host \<Rightarrow> bool" where
  "spares p h h' \<longleftrightarrow>
     (\<forall>q. q \<noteq> p \<longrightarrow> ho_files h' q = ho_files h q) \<and>
     (ho_files h p = Some OtherNode \<longrightarrow> ho_files h' p = Some OtherNode)"

lemma spares_refl [simp]: "spares p h h"
  by (simp add: spares_def)

lemma bind_error_None:
  "bind_error a = None \<longleftrightarrow>
     (\<exists>host port. split_host_port a = Inr (host, port) \<and>
        (host = ''localhost'' \<or> (\<exists>ip. parse_ip host = Some ip \<and> is_loopback ip)))"
  by (auto simp: bind_error_def split: sum.split option.split)

lemma clear_path_cases:
  "clear_path lib p h = (r, h') \<Longrightarrow>
     h' = h \<and> (r = None \<longrightarrow> ho_files h p = None) \<or>
     r = None \<and> (\<exists>m. ho_files h p = Some (SocketNode m)) \<and> h' = h\<lparr>ho_files := (ho_files h)(p := None)\<rparr>"
  by (auto simp: clear_path_def os_lstat_def os_remove_def
      split: option.split_asm sum.split_asm node.split_asm if_split_asm)

lemma net_listen_unix_cases:
  assumes "net_listen_unix lib p h = (r, h')" and "ho_files h p = None"
  shows "(\<exists>e. r = Inl e \<and> h' = h) \<or>
    r = Inr (UnixListener p) \<and> ho_listeners h' = UnixListener p # ho_listeners h \<and>
    ho_files h' = (if abstract_name p then ho_files h
                   else (ho_files h)(p \<mapsto> SocketNode (hl_socket_mode lib)))"
  using assms by (auto simp: net_listen_unix_def split: option.split_asm if_split_asm)

text \<open>The second half of \<open>listen\<close>, once the path is clear.\<close>

lemma unix_listener_cases:
  assumes free: "ho_files h p = None" and l: "net_listen_unix lib p h = (Inr lis, h2)"
    and c: "os_chmod lib p m h2 = (r, h3)"
  shows "lis = UnixListener p \<and>
    (case r of
       Some e \<Rightarrow> ho_listeners (close_listener lis h3) = ho_listeners h \<and>
                 ho_files (close_listener lis h3) = ho_files h
     | None \<Rightarrow> \<not> abstract_name p \<and> ho_listeners h3 = lis # ho_listeners h \<and>
                 ho_files h3 = (ho_files h)(p \<mapsto> SocketNode m))"
proof (cases r)
  case (Some e)
  with c have "h3 = h2"
    by (auto simp: os_chmod_def split: option.split_asm node.split_asm)
  with Some net_listen_unix_cases [OF l free] free show ?thesis by (auto simp: fun_upd_idem)
next
  case None
  with net_listen_unix_cases [OF l free] c free show ?thesis
    by (auto simp: os_chmod_def split: option.split_asm node.split_asm if_split_asm)
qed

lemma os_remove_absent: "ho_files h p = None \<Longrightarrow> snd (os_remove lib p h) = h"
  by (simp add: os_remove_def split: option.split)

lemma spares_eq: "ho_files h' = ho_files h'' \<Longrightarrow> spares p h h' = spares p h h''"
  by (simp add: spares_def)

lemma clear_path_spares:
  assumes "clear_path lib p h = (r, h')"
  shows "spares p h h'" "ho_listeners h' = ho_listeners h" "r = None \<Longrightarrow> ho_files h' p = None"
    "r = None \<Longrightarrow> ho_files h p \<noteq> Some OtherNode"
  using clear_path_cases [OF assms] by (auto simp: spares_def)

text \<open>What \<open>listen\<close> promises its caller, both ways.\<close>

lemma listen_on_core:
  "case listen_on lib opts h of
     (Inl e, h') \<Rightarrow> ho_listeners h' = ho_listeners h \<and> spares (so_socket_path opts) h h'
   | (Inr lis, h') \<Rightarrow>
       ho_listeners h' = lis # ho_listeners h \<and> spares (so_socket_path opts) h h' \<and>
       (case lis of
          TCPListener a \<Rightarrow> a = so_bind_address opts \<and> a \<noteq> [] \<and> bind_error a = None \<and> h' = h\<lparr>ho_listeners := lis # ho_listeners h\<rparr>
        | UnixListener p \<Rightarrow>
            p = so_socket_path opts \<and> \<not> abstract_name p \<and> ho_files h' p = Some (SocketNode 0x180) \<and>
            ho_files h p \<noteq> Some OtherNode)"
proof (cases "so_bind_address opts = []")
  case False
  then show ?thesis
    by (auto simp: listen_on_def net_listen_tcp_def spares_def split: option.split)
next
  case tcp: True
  show ?thesis
  proof (cases "so_socket_path opts = []")
    case True
    with tcp show ?thesis by (simp add: listen_on_def)
  next
    case sock: False
    let ?p = "so_socket_path opts"
    obtain r h1 where cp: "clear_path lib ?p h = (r, h1)" by (cases "clear_path lib ?p h")
    note cps = clear_path_spares [OF cp]
    show ?thesis
    proof (cases r)
      case (Some e)
      with tcp sock cp cps show ?thesis by (simp add: listen_on_def)
    next
      case r: None
      obtain l h2 where nl: "net_listen_unix lib ?p h1 = (l, h2)" by (cases "net_listen_unix lib ?p h1")
      show ?thesis
      proof (cases l)
        case (Inl e)
        with tcp sock cp cps r nl net_listen_unix_cases [OF nl cps(3)] show ?thesis
          by (simp add: listen_on_def)
      next
        case (Inr lis)
        obtain c h3 where ch: "os_chmod lib ?p 0x180 h2 = (c, h3)" by (cases "os_chmod lib ?p 0x180 h2")
        note u = unix_listener_cases [OF cps(3) [OF r] nl [unfolded Inr] ch]
        show ?thesis
        proof (cases c)
          case (Some e)
          have f: "ho_files (close_listener lis h3) = ho_files h1"
              "ho_listeners (close_listener lis h3) = ho_listeners h1"
            using u unfolding Some option.case by blast+
          have "snd (os_remove lib ?p (close_listener lis h3)) = close_listener lis h3"
            by (intro os_remove_absent) (simp only: f cps(3) [OF r])
          with Some tcp sock cp r nl Inr ch
          have "\<exists>e'. listen_on lib opts h = (Inl e', close_listener lis h3)"
            by (simp add: listen_on_def del: close_listener.simps)
          moreover have "spares ?p h (close_listener lis h3)"
            using cps(1) by (simp only: spares_def f(1))
          ultimately show ?thesis using f(2) cps(2) by auto
        next
          case None
          with u have "ho_files h3 = (ho_files h1)(?p \<mapsto> SocketNode 0x180)" "lis = UnixListener ?p"
            "\<not> abstract_name ?p" "ho_listeners h3 = lis # ho_listeners h" using cps by auto
          with None tcp sock cp cps r nl Inr ch show ?thesis
            by (auto simp: listen_on_def spares_def)
        qed
      qed
    qed
  qed
qed

lemma cleanup_undoes:
  "ho_listeners h = lis # ls \<Longrightarrow>
   ho_listeners (cleanup lib lis h) = ls \<and>
   (case lis of
      TCPListener a \<Rightarrow> ho_files (cleanup lib lis h) = ho_files h
    | UnixListener p \<Rightarrow> \<not> abstract_name p \<longrightarrow> ho_files (cleanup lib lis h) = (ho_files h)(p := None))"
  by (cases lis) (auto simp: os_remove_def split: option.split)

lemma exit_error_None:
  "exit_error (run_error ev) = None \<longleftrightarrow>
    (case ev of
       ContextDone cause \<Rightarrow> errors_is cause ErrCanceled
     | ServeReturned err live \<Rightarrow>
         (case err of
            None \<Rightarrow> \<not> live
          | Some e \<Rightarrow> if errors_is e err_server_stopped then \<not> live else errors_is e ErrCanceled)
     | WatchReported r live \<Rightarrow>
         live \<longrightarrow> (\<exists>e. watcher_error r = Some e \<and> errors_is e ErrCanceled))"
  by (auto simp: run_error_def exit_error_def split: wakeup.split option.split)

lemma initialize_driver_set:
  "initialize_driver (env\<lparr>sv_initialize := Some initialize\<rparr>) w =
     (case initialize (2 * minute) w of
        (Some e, w') \<Rightarrow> (Some (ErrWrap ''initial driver reconciliation: %w'' [] e), w')
      | (None, w') \<Rightarrow> (None, w'))"
  by (simp add: initialize_driver_def)

lemma run_server_initialize:
  "run_server (env\<lparr>sv_initialize := Some initialize\<rparr>) opts h w =
     (case initialize (2 * minute) w of
        (Some e, w') \<Rightarrow> (Some (ErrWrap ''initial driver reconciliation: %w'' [] e), h, w')
      | (None, w') \<Rightarrow> run_server (env\<lparr>sv_initialize := None\<rparr>) opts h w')"
proof -
  have "shutdown (env\<lparr>sv_initialize := i\<rparr>) = shutdown env" for i
    by (intro ext) (simp add: shutdown_def split: prod.split)
  then have s: "serve_until (env\<lparr>sv_initialize := i\<rparr>) = serve_until env" for i
    by (intro ext) (simp add: serve_until_def Let_def split: prod.split option.split)
  show ?thesis
    by (cases "initialize (2 * minute) w")
      (auto simp: run_server_def initialize_driver_def s split: option.split sum.split prod.split)
qed

end
