(* ===== verification/Prog.thy ===== *)
theory Prog
  imports Prelude
begin

text \<open>
  Programs whose atomic steps can interleave. A request handler or a poll is a program:
  a sequence of atomic actions on the shared state (one section under the registry's
  mutex, one call of the provider, one reading of the clock), each chosen by the
  results of the earlier ones. \<open>run\<close> executes a program alone; the relation
  \<open>reach\<close> lets any number of programs and the environment take turns. A shared-state
  predicate that every atomic action keeps (\<open>preserves\<close>) is an invariant of every
  interleaving.
\<close>

section \<open>Programs\<close>

datatype (dead 's, 'a) prog = Ret 'a | Step "'s \<Rightarrow> ('s, 'a) prog \<times> 's"

text \<open>An atomic action and what follows it.\<close>

definition act :: "('s \<Rightarrow> 'b \<times> 's) \<Rightarrow> ('b \<Rightarrow> ('s, 'a) prog) \<Rightarrow> ('s, 'a) prog" where
  "act f k = Step (\<lambda>s. case f s of (b, s') \<Rightarrow> (k b, s'))"

text \<open>Calling a subroutine.\<close>

primrec call :: "('s, 'b) prog \<Rightarrow> ('b \<Rightarrow> ('s, 'a) prog) \<Rightarrow> ('s, 'a) prog" where
  "call (Ret b) = (\<lambda>k. k b)"
| "call (Step f) = (\<lambda>k. Step (\<lambda>s. map_prod (\<lambda>c. c k) id ((map_prod call id \<circ> f) s)))"

text \<open>Running a program alone.\<close>

primrec run :: "('s, 'a) prog \<Rightarrow> 's \<Rightarrow> 'a \<times> 's" where
  "run (Ret a) = (\<lambda>s. (a, s))"
| "run (Step f) = (\<lambda>s. case (map_prod run id \<circ> f) s of (g, s') \<Rightarrow> g s')"

lemma run_Ret [exec, simp]: "run (Ret a) s = (a, s)"
  by simp

lemma run_act: "run (act f k) s = (case f s of (b, s') \<Rightarrow> run (k b) s')"
  by (simp add: act_def split: prod.split)

lemma call_Ret [exec, simp]: "call (Ret b) k = k b"
  by simp

lemma call_act [exec]: "call (act f k) h = act f (\<lambda>b. call (k b) h)"
  by (simp add: act_def split_def)

lemma run_call [exec]: "run (call p k) s = (case run p s of (b, s') \<Rightarrow> run (k b) s')"
proof (induction p arbitrary: s)
  case (Ret b)
  then show ?case by simp
next
  case (Step f)
  then have "run (call (fst (f s)) k) (snd (f s)) =
      (case run (fst (f s)) (snd (f s)) of (b, s') \<Rightarrow> run (k b) s')"
    by (metis UNIV_I prod.collapse range_eqI fsts.intros)
  then show ?case by (simp add: split_def)
qed

declare run.simps [simp del] call.simps [simp del]

text \<open>
  A range loop with early return: the body answers \<open>Inl\<close> to return from the
  enclosing function, \<open>Inr\<close> with the loop's accumulator to go on (a
  \<open>continue\<close> included).
\<close>

primrec for_each :: "'x list \<Rightarrow> ('x \<Rightarrow> 'acc \<Rightarrow> ('s, 'e + 'acc) prog) \<Rightarrow> 'acc \<Rightarrow> ('s, 'e + 'acc) prog" where
  "for_each [] body acc = Ret (Inr acc)"
| "for_each (x # xs) body acc =
     call (body x acc) (\<lambda>r. case r of Inl e \<Rightarrow> Ret (Inl e) | Inr acc' \<Rightarrow> for_each xs body acc')"

section \<open>Predicates kept by every atomic action\<close>

inductive preserves :: "('s \<Rightarrow> bool) \<Rightarrow> ('s, 'a) prog \<Rightarrow> bool" for I where
  preserves_Ret [intro, simp, inv_intro]: "preserves I (Ret a)"
| preserves_Step: "(\<And>s. I s \<Longrightarrow> I (snd (f s)) \<and> preserves I (fst (f s))) \<Longrightarrow> preserves I (Step f)"

inductive_cases preserves_StepE: "preserves I (Step f)"

lemma preserves_act:
  assumes "\<And>s. I s \<Longrightarrow> I (snd (f s))" and "\<And>b. preserves I (k b)"
  shows "preserves I (act f k)"
  unfolding act_def by (rule preserves_Step) (simp add: split_def assms)

text \<open>The same when what follows needs to know how the action's result arose.\<close>

lemma preserves_act_dep:
  assumes "\<And>s. I s \<Longrightarrow> I (snd (f s)) \<and> preserves I (k (fst (f s)))"
  shows "preserves I (act f k)"
  unfolding act_def by (rule preserves_Step) (simp add: split_def assms)

lemma preserves_call [inv_intro]:
  assumes "preserves I p" and "\<And>b. preserves I (k b)"
  shows "preserves I (call p k)"
  using assms(1)
proof (induction rule: preserves.induct)
  case (preserves_Ret a)
  then show ?case by (simp add: assms(2))
next
  case (preserves_Step f)
  show ?case unfolding call.simps
    by (rule preserves.preserves_Step) (use preserves_Step in \<open>auto simp: split_def\<close>)
qed

lemma preserves_for_each [inv_intro]:
  "(\<And>x acc. preserves I (body x acc)) \<Longrightarrow> preserves I (for_each xs body acc)"
  by (induction xs arbitrary: acc) (auto intro!: preserves_call split: sum.split)

lemma preserves_run: "preserves I p \<Longrightarrow> I s \<Longrightarrow> I (snd (run p s))"
proof (induction arbitrary: s rule: preserves.induct)
  case (preserves_Ret a)
  then show ?case by simp
next
  case (preserves_Step f)
  then show ?case by (simp add: run.simps split_def)
qed

section \<open>Interleaving\<close>

text \<open>
  A configuration is a pool of programs and the shared state. A program of the pool
  takes one atomic step; an arriving request adds a program; the environment changes
  the state by one of its own moves (the cloud's progress, the clock).
\<close>

type_synonym ('s, 'a) config = "('s, 'a) prog list \<times> 's"

inductive reach ::
  "(('s, 'a) prog \<Rightarrow> bool) \<Rightarrow> ('s \<Rightarrow> 's \<Rightarrow> bool) \<Rightarrow> ('s \<Rightarrow> bool) \<Rightarrow> ('s, 'a) config \<Rightarrow> bool"
  for client env init where
  reach_init: "init s \<Longrightarrow> reach client env init ([], s)"
| reach_spawn: "reach client env init (ps, s) \<Longrightarrow> client p \<Longrightarrow> reach client env init (p # ps, s)"
| reach_env: "reach client env init (ps, s) \<Longrightarrow> env s s' \<Longrightarrow> reach client env init (ps, s')"
| reach_step: "reach client env init (ps, s) \<Longrightarrow> i < length ps \<Longrightarrow> ps ! i = Step f \<Longrightarrow>
    reach client env init (ps[i := fst (f s)], snd (f s))"

text \<open>Invariants hold in every interleaving when every client and the environment keep them.\<close>

theorem reach_preserves:
  assumes "reach client env init c"
    and "\<And>s. init s \<Longrightarrow> I s"
    and "\<And>p. client p \<Longrightarrow> preserves I p"
    and "\<And>s s'. env s s' \<Longrightarrow> I s \<Longrightarrow> I s'"
  shows "I (snd c) \<and> (\<forall>p \<in> set (fst c). preserves I p)"
  using assms(1)
proof (induction rule: reach.induct)
  case (reach_init s)
  then show ?case by (simp add: assms(2))
next
  case (reach_spawn ps s p)
  then show ?case by (auto intro: assms(3))
next
  case (reach_env ps s s')
  then show ?case by (auto intro: assms(4))
next
  case (reach_step ps s i f)
  then have "preserves I (Step f)" "I s" by (metis fst_conv nth_mem, simp)
  then have "I (snd (f s)) \<and> preserves I (fst (f s))" by (auto elim: preserves_StepE)
  with reach_step show ?case by (auto dest!: set_update_subset_insert [THEN subsetD])
qed

text \<open>A program run alone is one of the interleavings.\<close>

lemma reach_run_alone:
  assumes "reach client env init (p # ps, s)"
  shows "reach client env init (Ret (fst (run p s)) # ps, snd (run p s))"
  using assms
proof (induction p arbitrary: s)
  case (Ret a)
  then show ?case by simp
next
  case (Step f)
  have "reach client env init (fst (f s) # ps, snd (f s))"
    using reach_step [OF Step.prems, of 0 f] by simp
  from Step.IH [OF _ _ this] have
    "reach client env init (Ret (fst (run (fst (f s)) (snd (f s)))) # ps, snd (run (fst (f s)) (snd (f s))))"
    by (metis UNIV_I prod.collapse range_eqI fsts.intros)
  then show ?case by (simp add: run.simps split_def)
qed

end
