(* ===== verification/Proto.thy ===== *)
theory Proto
  imports GoTime
begin

text \<open>
  The messages of proto/compute_driver.proto, as the generated Go structs hold them. A
  pointer field is an option (nil is \<open>None\<close>); a getter on nil gives the zero value.
  \<open>proto.Clone\<close> makes an equal message, so on these values it is the identity.
\<close>

text \<open>google.protobuf.Struct, of which the code only looks whether it is there.\<close>

datatype pb_value =
  PbNull | PbNumber int | PbString bytestr | PbBool bool
| PbList "pb_value list" | PbStruct "(bytestr \<times> pb_value) list"

type_synonym pb_struct = "(bytestr \<times> pb_value) list"

record driver_condition =
  c_type :: bytestr
  c_status :: bytestr
  c_reason :: bytestr
  c_message :: bytestr
  c_last_transition_time :: bytestr

record driver_status =
  st_sandbox_name :: bytestr
  st_instance_id :: bytestr
  st_agent_fd :: bytestr
  st_sandbox_fd :: bytestr
  st_conditions :: "driver_condition list"
  st_deleting :: bool

record resource_quantities =
  cpu_request :: bytestr
  cpu_limit :: bytestr
  memory_request :: bytestr
  memory_limit :: bytestr

text \<open>ResourceRequirements holds an optional GPU request, that an optional count.\<close>

record gpu_requirements =
  gpu_count :: "nat option"

record resource_requirements =
  req_gpu :: "gpu_requirements option"

record driver_template =
  tm_image :: bytestr
  tm_agent_socket_path :: bytestr
  tm_labels :: "(bytestr \<times> bytestr) list"
  tm_environment :: "(bytestr \<times> bytestr) list"
  tm_resources :: "resource_quantities option"
  tm_platform_config :: "pb_struct option"
  tm_driver_config :: "pb_struct option"

record driver_spec =
  sp_log_level :: bytestr
  sp_environment :: "(bytestr \<times> bytestr) list"
  sp_template :: "driver_template option"
  sp_resource_requirements :: "resource_requirements option"
  sp_sandbox_token :: bytestr

record driver_sandbox =
  sb_id :: bytestr
  sb_name :: bytestr
  sb_namespace :: bytestr
  sb_spec :: "driver_spec option"
  sb_status :: "driver_status option"
  sb_workspace :: bytestr

record platform_event =
  pe_timestamp_ms :: int
  pe_source :: bytestr
  pe_type :: bytestr
  pe_reason :: bytestr
  pe_message :: bytestr
  pe_metadata :: "(bytestr \<times> bytestr) list"

text \<open>The payload of a WatchSandboxesEvent.\<close>

datatype watch_event =
  EvSandbox driver_sandbox
| EvDeleted bytestr
| EvPlatform bytestr platform_event

text \<open>Get, Stop and Delete requests carry an id and a name.\<close>

record sandbox_ref =
  ref_id :: bytestr
  ref_name :: bytestr

record capabilities =
  cap_driver_name :: bytestr
  cap_driver_version :: bytestr
  cap_default_image :: bytestr

text \<open>The secret of a message: the sandbox token of its spec.\<close>

definition spec_redacted :: "driver_spec option \<Rightarrow> bool" where
  "spec_redacted s \<longleftrightarrow> (case s of None \<Rightarrow> True | Some sp \<Rightarrow> sp_sandbox_token sp = [])"

definition event_redacted :: "watch_event \<Rightarrow> bool" where
  "event_redacted e \<longleftrightarrow> (case e of EvSandbox sb \<Rightarrow> spec_redacted (sb_spec sb) | _ \<Rightarrow> True)"

lemma spec_redacted_None [simp]: "spec_redacted None"
  by (simp add: spec_redacted_def)

lemma event_redacted_simps [simp]:
  "event_redacted (EvDeleted i)"
  "event_redacted (EvSandbox sb) \<longleftrightarrow> spec_redacted (sb_spec sb)"
  by (simp_all add: event_redacted_def)

end
