(* ===== verification/Safeguards.thy ===== *)
theory Safeguards
  imports Proto Errors
begin

text \<open>
  pkg/safeguards: the registry of sandboxes. Its state is the record map, the watcher
  channels and two counters; every exported operation runs under one mutex, so each is
  one atomic definition on the state. What the operations promise is in the theories
  RegistryLaws (the contract of the drivers), RegistryInv (the invariant of the records
  and channels), Watchers (what a subscriber sees) and RegistryRefinement (the registry
  as an implementation of a partial map).
\<close>

section \<open>State\<close>

record limits =
  max_instances :: int
  max_instance_age :: duration

definition default_max_instances :: int where
  "default_max_instances = 10"

definition default_max_instance_age :: duration where
  "default_max_instance_age = 8 * hour"

definition watch_buffer_size :: nat where
  "watch_buffer_size = 64"

definition effective_max_instances :: "limits \<Rightarrow> int" where
  "effective_max_instances l =
     (if max_instances l > 0 then max_instances l else default_max_instances)"

definition effective_max_age :: "limits \<Rightarrow> duration" where
  "effective_max_age l =
     (if max_instance_age l > 0 then max_instance_age l else default_max_instance_age)"

record srecord =
  r_sandbox_id :: bytestr
  r_name :: bytestr
  r_namespace :: bytestr
  r_workspace :: bytestr
  r_instance_id :: bytestr
  r_state :: bytestr
  r_created_at :: time
  r_missing_polls :: int
  r_spec :: "driver_spec option"
  r_last_status :: "driver_status option"
  r_lease :: "64 word"

definition zero_record :: srecord where
  "zero_record =
     \<lparr>r_sandbox_id = [], r_name = [], r_namespace = [], r_workspace = [], r_instance_id = [],
      r_state = [], r_created_at = zero_time, r_missing_polls = 0, r_spec = None,
      r_last_status = None, r_lease = 0\<rparr>"

text \<open>
  A watcher channel: what is buffered in it, and whether it is closed. The registry's
  set of watchers holds the indices of the channels it still serves. A send on a closed
  channel or a second close panics in Go; the model notes it in \<open>reg_panic\<close>.
\<close>

record chan =
  ch_buf :: "watch_event list"
  ch_closed :: bool

record registry =
  reg_records :: "(bytestr \<times> srecord) list"
  reg_limits :: limits
  reg_watchers :: "nat list"
  reg_chans :: "chan list"
  reg_overflow :: "64 word"
  reg_next_lease :: "64 word"
  reg_panic :: bool

definition new_registry :: "limits \<Rightarrow> registry" where
  "new_registry l =
     \<lparr>reg_records = [], reg_limits = l, reg_watchers = [], reg_chans = [],
      reg_overflow = 0, reg_next_lease = 0, reg_panic = False\<rparr>"

section \<open>Copies\<close>

definition clone_redacted_spec :: "driver_spec option \<Rightarrow> driver_spec option" where
  "clone_redacted_spec spec = map_option (\<lambda>s. s\<lparr>sp_sandbox_token := []\<rparr>) spec"

definition clone_status :: "driver_status option \<Rightarrow> driver_status option" where
  "clone_status st = st"

definition clone_record :: "srecord \<Rightarrow> srecord" where
  "clone_record rc =
     rc\<lparr>r_spec := clone_redacted_spec (r_spec rc), r_last_status := clone_status (r_last_status rc)\<rparr>"

definition to_driver_sandbox :: "srecord \<Rightarrow> driver_sandbox" where
  "to_driver_sandbox rc =
     \<lparr>sb_id = r_sandbox_id rc, sb_name = r_name rc, sb_namespace = r_namespace rc,
      sb_spec = clone_redacted_spec (r_spec rc), sb_status = clone_status (r_last_status rc),
      sb_workspace = r_workspace rc\<rparr>"

section \<open>Records\<close>

definition reg_lookup :: "registry \<Rightarrow> bytestr \<Rightarrow> srecord option" where
  "reg_lookup r = map_of (reg_records r)"

definition reserve_with_lease :: "srecord \<Rightarrow> registry \<Rightarrow> (goerr + 64 word) \<times> registry" where
  "reserve_with_lease rc r =
     (if reg_lookup r (r_sandbox_id rc) \<noteq> None
      then (Inl (ErrWrap ''%w: %q'' [AStr (r_sandbox_id rc)] ErrExists), r)
      else if int (length (reg_records r)) \<ge> effective_max_instances (reg_limits r)
      then (Inl (ErrWrap ''%w (%d/%d)'' [AInt (int (length (reg_records r))),
                   AInt (effective_max_instances (reg_limits r))] ErrCapacity), r)
      else
        (let lease = reg_next_lease r + 1
         in (Inr lease,
             r\<lparr>reg_next_lease := lease,
               reg_records := AList.update (r_sandbox_id rc)
                 (clone_record (rc\<lparr>r_lease := lease\<rparr>)) (reg_records r)\<rparr>)))"

definition reserve :: "srecord \<Rightarrow> registry \<Rightarrow> goerr option \<times> registry" where
  "reserve rc r =
     (case reserve_with_lease rc r of (Inl e, r') \<Rightarrow> (Some e, r') | (Inr _, r') \<Rightarrow> (None, r'))"

definition add_record :: "srecord option \<Rightarrow> registry \<Rightarrow> goerr option \<times> registry" where
  "add_record rco r =
     (case rco of
        None \<Rightarrow> (Some (ErrNew ''record is nil''), r)
      | Some rc \<Rightarrow>
          if reg_lookup r (r_sandbox_id rc) \<noteq> None
          then (Some (ErrWrap ''%w: %q'' [AStr (r_sandbox_id rc)] ErrExists), r)
          else
            (let next = (if r_lease rc = 0 then reg_next_lease r + 1 else reg_next_lease r);
                 stored = (if r_lease rc = 0 then rc\<lparr>r_lease := next\<rparr> else rc)
             in (None,
                 r\<lparr>reg_next_lease := next,
                   reg_records := AList.update (r_sandbox_id rc) (clone_record stored)
                     (reg_records r)\<rparr>)))"

text \<open>Get, Delete and Update give the zero record when there is none, and say so.\<close>

definition get_record :: "bytestr \<Rightarrow> registry \<Rightarrow> srecord \<times> bool" where
  "get_record i r =
     (case reg_lookup r i of None \<Rightarrow> (zero_record, False) | Some rc \<Rightarrow> (clone_record rc, True))"

definition delete_record :: "bytestr \<Rightarrow> registry \<Rightarrow> (srecord \<times> bool) \<times> registry" where
  "delete_record i r =
     (get_record i r, r\<lparr>reg_records := AList.delete i (reg_records r)\<rparr>)"

definition rollback :: "bytestr \<Rightarrow> registry \<Rightarrow> registry" where
  "rollback i r =
     (case reg_lookup r i of
        None \<Rightarrow> r
      | Some rc \<Rightarrow>
          if r_instance_id rc = [] then r\<lparr>reg_records := AList.delete i (reg_records r)\<rparr> else r)"

definition update_if ::
  "bytestr \<Rightarrow> (srecord \<Rightarrow> bool) \<Rightarrow> (srecord \<Rightarrow> srecord) \<Rightarrow> registry \<Rightarrow> (srecord \<times> bool) \<times> registry" where
  "update_if i p fn r =
     (case reg_lookup r i of
        None \<Rightarrow> ((zero_record, False), r)
      | Some rc \<Rightarrow>
          if \<not> p (clone_record rc) then ((zero_record, False), r)
          else
            (let rc' = clone_record (fn rc)
             in ((clone_record rc', True), r\<lparr>reg_records := AList.update i rc' (reg_records r)\<rparr>)))"

definition update_record ::
  "bytestr \<Rightarrow> (srecord \<Rightarrow> srecord) \<Rightarrow> registry \<Rightarrow> (srecord \<times> bool) \<times> registry" where
  "update_record i fn r = update_if i (\<lambda>_. True) fn r"

definition delete_if :: "bytestr \<Rightarrow> (srecord \<Rightarrow> bool) \<Rightarrow> registry \<Rightarrow> (srecord \<times> bool) \<times> registry" where
  "delete_if i p r =
     (case reg_lookup r i of
        None \<Rightarrow> ((zero_record, False), r)
      | Some rc \<Rightarrow>
          if \<not> p (clone_record rc) then ((zero_record, False), r)
          else ((clone_record rc, True), r\<lparr>reg_records := AList.delete i (reg_records r)\<rparr>))"

text \<open>
  All and Expired range over the map: the order \<open>ks\<close> in which the runtime visits the
  keys is an argument.
\<close>

definition all_records :: "bytestr list \<Rightarrow> registry \<Rightarrow> srecord list" where
  "all_records ks r = map clone_record (map_pick ks (reg_records r))"

definition count_records :: "registry \<Rightarrow> int" where
  "count_records r = int (length (reg_records r))"

definition is_expired :: "duration \<Rightarrow> time \<Rightarrow> srecord \<Rightarrow> bool" where
  "is_expired max_age now rc \<longleftrightarrow>
     \<not> is_zero (r_created_at rc) \<and> time_sub now (r_created_at rc) > max_age \<and>
     r_state rc \<noteq> ''terminated''"

definition expired_records :: "time \<Rightarrow> bytestr list \<Rightarrow> registry \<Rightarrow> srecord list" where
  "expired_records now ks r =
     map clone_record
       (filter (is_expired (effective_max_age (reg_limits r)) now) (map_pick ks (reg_records r)))"

section \<open>Watchers\<close>

text \<open>make(chan), registration and snapshot in one section under the lock.\<close>

definition subscribe :: "bytestr list \<Rightarrow> registry \<Rightarrow> (nat \<times> srecord list) \<times> registry" where
  "subscribe ks r =
     ((length (reg_chans r), all_records ks r),
      r\<lparr>reg_watchers := reg_watchers r @ [length (reg_chans r)],
        reg_chans := reg_chans r @ [\<lparr>ch_buf = [], ch_closed = False\<rparr>]\<rparr>)"

definition add_watcher :: "bytestr list \<Rightarrow> registry \<Rightarrow> nat \<times> registry" where
  "add_watcher ks r = (case subscribe ks r of ((ch, _), r') \<Rightarrow> (ch, r'))"

definition close_chan :: "nat \<Rightarrow> registry \<Rightarrow> registry" where
  "close_chan ch r =
     (if ch_closed (reg_chans r ! ch) then r\<lparr>reg_panic := True\<rparr>
      else r\<lparr>reg_chans := (reg_chans r)[ch := (reg_chans r ! ch)\<lparr>ch_closed := True\<rparr>]\<rparr>)"

definition remove_watcher :: "nat \<Rightarrow> registry \<Rightarrow> registry" where
  "remove_watcher ch r =
     (if ch \<in> set (reg_watchers r)
      then close_chan ch (r\<lparr>reg_watchers := remove1 ch (reg_watchers r)\<rparr>)
      else r)"

text \<open>
  One watcher of Broadcast: the non-blocking send, or the disconnection of a watcher
  whose buffer is full.
\<close>

definition send_or_drop :: "watch_event \<Rightarrow> nat \<Rightarrow> registry \<Rightarrow> registry" where
  "send_or_drop ev ch r =
     (let c = reg_chans r ! ch
      in if ch_closed c then r\<lparr>reg_panic := True\<rparr>
         else if length (ch_buf c) < watch_buffer_size
         then r\<lparr>reg_chans := (reg_chans r)[ch := c\<lparr>ch_buf := ch_buf c @ [ev]\<rparr>]\<rparr>
         else
           (let r' = close_chan ch (r\<lparr>reg_overflow := reg_overflow r + 1\<rparr>)
            in r'\<lparr>reg_watchers := remove1 ch (reg_watchers r')\<rparr>))"

definition broadcast :: "watch_event \<Rightarrow> registry \<Rightarrow> registry" where
  "broadcast ev r = fold (send_or_drop ev) (reg_watchers r) r"

definition broadcast_sandbox :: "srecord \<Rightarrow> registry \<Rightarrow> registry" where
  "broadcast_sandbox rc r = broadcast (EvSandbox (to_driver_sandbox rc)) r"

definition broadcast_deleted :: "bytestr \<Rightarrow> registry \<Rightarrow> registry" where
  "broadcast_deleted i r = broadcast (EvDeleted i) r"

definition watch_overflow_disconnects :: "registry \<Rightarrow> 64 word" where
  "watch_overflow_disconnects r = reg_overflow r"

definition max_lifetime_string :: "registry \<Rightarrow> bytestr" where
  "max_lifetime_string r = duration_string (effective_max_age (reg_limits r))"

text \<open>
  The receiving end of a channel: a buffered event, the news that the channel is closed
  and drained (\<open>Some None\<close>), or nothing yet (\<open>None\<close>: the receive blocks).
\<close>

definition receive :: "nat \<Rightarrow> registry \<Rightarrow> watch_event option option \<times> registry" where
  "receive ch r =
     (let c = reg_chans r ! ch
      in case ch_buf c of
           e # es \<Rightarrow> (Some (Some e), r\<lparr>reg_chans := (reg_chans r)[ch := c\<lparr>ch_buf := es\<rparr>]\<rparr>)
         | [] \<Rightarrow> if ch_closed c then (Some None, r) else (None, r))"

end
