(* ===== verification/RegistryLaws.thy ===== *)
theory RegistryLaws
  imports Safeguards
begin

text \<open>
  What the registry promises. First the effect of every operation on lookups, then the
  contract as a locale with the client lemmas both drivers use, interpreted on the
  registry's operations.
\<close>

section \<open>Lookups\<close>

lemma clone_redacted_idem [simp]: "clone_redacted_spec (clone_redacted_spec s) = clone_redacted_spec s"
  by (cases s) (simp_all add: clone_redacted_spec_def)

lemma clone_record_idem [simp]: "clone_record (clone_record rc) = clone_record rc"
  by (simp add: clone_record_def clone_status_def)

lemma clone_record_fields [simp]:
  "r_sandbox_id (clone_record rc) = r_sandbox_id rc"
  "r_name (clone_record rc) = r_name rc"
  "r_namespace (clone_record rc) = r_namespace rc"
  "r_workspace (clone_record rc) = r_workspace rc"
  "r_instance_id (clone_record rc) = r_instance_id rc"
  "r_state (clone_record rc) = r_state rc"
  "r_created_at (clone_record rc) = r_created_at rc"
  "r_missing_polls (clone_record rc) = r_missing_polls rc"
  "r_last_status (clone_record rc) = r_last_status rc"
  "r_lease (clone_record rc) = r_lease rc"
  "r_spec (clone_record rc) = clone_redacted_spec (r_spec rc)"
  by (simp_all add: clone_record_def clone_status_def)

lemma clone_redacted_redacted [simp]: "spec_redacted (clone_redacted_spec s)"
  by (cases s) (simp_all add: clone_redacted_spec_def spec_redacted_def)

lemma clone_redacted_id: "spec_redacted s \<Longrightarrow> clone_redacted_spec s = s"
  by (cases s) (simp_all add: clone_redacted_spec_def spec_redacted_def)

lemma clone_record_id: "spec_redacted (r_spec rc) \<Longrightarrow> clone_record rc = rc"
  by (simp add: clone_record_def clone_status_def clone_redacted_id)

lemma lookup_upd [simp]:
  "reg_lookup (r\<lparr>reg_records := AList.update k v (reg_records r)\<rparr>) = (reg_lookup r)(k \<mapsto> v)"
  "reg_lookup (r\<lparr>reg_records := AList.delete k (reg_records r)\<rparr>) = (reg_lookup r)(k := None)"
  "reg_lookup (r\<lparr>reg_next_lease := l, reg_records := AList.update k v (reg_records r)\<rparr>) =
     (reg_lookup r)(k \<mapsto> v)"
  "reg_lookup (r\<lparr>reg_watchers := ws\<rparr>) = reg_lookup r"
  "reg_lookup (r\<lparr>reg_chans := cs\<rparr>) = reg_lookup r"
  "reg_lookup (r\<lparr>reg_overflow := n\<rparr>) = reg_lookup r"
  "reg_lookup (r\<lparr>reg_panic := b\<rparr>) = reg_lookup r"
  by (simp_all add: reg_lookup_def)

lemma lookup_new [simp]: "reg_lookup (new_registry l) = Map.empty"
  by (simp add: reg_lookup_def new_registry_def)

lemma reserve_ok:
  "reserve_with_lease rc r = (Inr l, r') \<Longrightarrow>
   reg_lookup r (r_sandbox_id rc) = None \<and> l = reg_next_lease r + 1 \<and>
   reg_lookup r' = (reg_lookup r)(r_sandbox_id rc \<mapsto> clone_record (rc\<lparr>r_lease := l\<rparr>))"
  by (auto simp: reserve_with_lease_def Let_def split: if_splits)

lemma reserve_err: "reserve_with_lease rc r = (Inl e, r') \<Longrightarrow> r' = r"
  by (auto simp: reserve_with_lease_def Let_def split: if_splits)

lemma rollback_lookup:
  "reg_lookup (rollback i r) =
     (case reg_lookup r i of
        Some rc \<Rightarrow> if r_instance_id rc = [] then (reg_lookup r)(i := None) else reg_lookup r
      | None \<Rightarrow> reg_lookup r)"
  by (simp add: rollback_def split: option.split)

lemma update_if_hit:
  "reg_lookup r i = Some rc \<Longrightarrow> p (clone_record rc) \<Longrightarrow>
   fst (update_if i p fn r) = (clone_record (fn rc), True) \<and>
   reg_lookup (snd (update_if i p fn r)) = (reg_lookup r)(i \<mapsto> clone_record (fn rc))"
  by (simp add: update_if_def Let_def)

lemma update_if_miss:
  "(\<And>rc. reg_lookup r i = Some rc \<Longrightarrow> \<not> p (clone_record rc)) \<Longrightarrow>
   update_if i p fn r = ((zero_record, False), r)"
  by (auto simp: update_if_def split: option.split)

lemma delete_if_hit:
  "reg_lookup r i = Some rc \<Longrightarrow> p (clone_record rc) \<Longrightarrow>
   fst (delete_if i p r) = (clone_record rc, True) \<and>
   reg_lookup (snd (delete_if i p r)) = (reg_lookup r)(i := None)"
  by (simp add: delete_if_def)

lemma delete_if_miss:
  "(\<And>rc. reg_lookup r i = Some rc \<Longrightarrow> \<not> p (clone_record rc)) \<Longrightarrow>
   delete_if i p r = ((zero_record, False), r)"
  by (auto simp: delete_if_def split: option.split)

lemma delete_record_lookup [simp]:
  "reg_lookup (snd (delete_record i r)) = (reg_lookup r)(i := None)"
  by (simp add: delete_record_def)

section \<open>The contract of the registry\<close>

text \<open>
  What a driver relies on: a reservation is created under a fresh lease or refused
  without effect; rollback removes exactly a reservation without an instance; a guarded
  update or delete changes the record it names when the guard accepts it, and nothing
  else ever.
\<close>

locale lease_store =
  fixes lookup :: "'r \<Rightarrow> bytestr \<Rightarrow> srecord option"
    and issued :: "'r \<Rightarrow> 64 word \<Rightarrow> bool"
    and leases_left :: "'r \<Rightarrow> bool"
    and rsv :: "srecord \<Rightarrow> 'r \<Rightarrow> (goerr + 64 word) \<times> 'r"
    and rollb :: "bytestr \<Rightarrow> 'r \<Rightarrow> 'r"
    and updif :: "bytestr \<Rightarrow> (srecord \<Rightarrow> bool) \<Rightarrow> (srecord \<Rightarrow> srecord) \<Rightarrow> 'r \<Rightarrow> (srecord \<times> bool) \<times> 'r"
    and delif :: "bytestr \<Rightarrow> (srecord \<Rightarrow> bool) \<Rightarrow> 'r \<Rightarrow> (srecord \<times> bool) \<times> 'r"
  assumes rsv_ok: "rsv rc r = (Inr l, r') \<Longrightarrow>
      lookup r (r_sandbox_id rc) = None \<and>
      lookup r' = (lookup r)(r_sandbox_id rc \<mapsto> clone_record (rc\<lparr>r_lease := l\<rparr>))"
    and rsv_err: "rsv rc r = (Inl e, r') \<Longrightarrow> r' = r"
    and rsv_fresh: "leases_left r \<Longrightarrow> rsv rc r = (Inr l, r') \<Longrightarrow> \<not> issued r l \<and> issued r' l"
    and rsv_issued: "leases_left r \<Longrightarrow> rsv rc r = (Inr l, r') \<Longrightarrow> issued r l' \<Longrightarrow> issued r' l'"
    and rollb_lookup: "lookup (rollb i r) =
      (case lookup r i of
         Some rc \<Rightarrow> if r_instance_id rc = [] then (lookup r)(i := None) else lookup r
       | None \<Rightarrow> lookup r)"
    and upd_hit: "lookup r i = Some rc \<Longrightarrow> p (clone_record rc) \<Longrightarrow>
      fst (updif i p fn r) = (clone_record (fn rc), True) \<and>
      lookup (snd (updif i p fn r)) = (lookup r)(i \<mapsto> clone_record (fn rc))"
    and upd_miss: "(\<And>rc. lookup r i = Some rc \<Longrightarrow> \<not> p (clone_record rc)) \<Longrightarrow>
      updif i p fn r = ((zero_record, False), r)"
    and del_hit: "lookup r i = Some rc \<Longrightarrow> p (clone_record rc) \<Longrightarrow>
      fst (delif i p r) = (clone_record rc, True) \<and>
      lookup (snd (delif i p r)) = (lookup r)(i := None)"
    and del_miss: "(\<And>rc. lookup r i = Some rc \<Longrightarrow> \<not> p (clone_record rc)) \<Longrightarrow>
      delif i p r = ((zero_record, False), r)"
begin

text \<open>A failed launch leaves no trace: reserve, then rollback.\<close>

lemma reserve_rollback:
  assumes "rsv rc r = (Inr l, r')" and "r_instance_id rc = []"
  shows "lookup (rollb (r_sandbox_id rc) r') = lookup r"
proof -
  from rsv_ok [OF assms(1)] have
    "lookup r (r_sandbox_id rc) = None"
    "lookup r' = (lookup r)(r_sandbox_id rc \<mapsto> clone_record (rc\<lparr>r_lease := l\<rparr>))" by auto
  then show ?thesis by (simp add: rollb_lookup assms(2) fun_upd_idem)
qed

text \<open>Operations that name a sandbox leave the others alone.\<close>

lemma upd_other: "k \<noteq> i \<Longrightarrow> lookup (snd (updif i p fn r)) k = lookup r k"
  by (cases "\<exists>rc. lookup r i = Some rc \<and> p (clone_record rc)") (auto simp: upd_hit upd_miss)

lemma del_other: "k \<noteq> i \<Longrightarrow> lookup (snd (delif i p r)) k = lookup r k"
  by (cases "\<exists>rc. lookup r i = Some rc \<and> p (clone_record rc)") (auto simp: del_hit del_miss)

lemma rollb_other: "k \<noteq> i \<Longrightarrow> lookup (rollb i r) k = lookup r k"
  by (auto simp: rollb_lookup split: option.split)

text \<open>
  A commit guarded by a lease cannot reach another generation of the same sandbox id:
  whatever happened since, if the record there carries another lease, nothing changes.
\<close>

lemma stale_commit:
  assumes "lookup r i = Some rc" and "r_lease rc \<noteq> l"
  shows "updif i (\<lambda>c. r_lease c = l \<and> q c) fn r = ((zero_record, False), r)"
  by (rule upd_miss) (use assms in auto)

lemma delayed_commit_rejected:
  assumes "issued r l" and "leases_left r" and "rsv rc r = (Inr l', r')"
  shows "updif (r_sandbox_id rc) (\<lambda>c. r_lease c = l \<and> q c) fn r' = ((zero_record, False), r')"
proof (rule stale_commit)
  show "lookup r' (r_sandbox_id rc) = Some (clone_record (rc\<lparr>r_lease := l'\<rparr>))"
    using rsv_ok [OF assms(3)] by simp
  show "r_lease (clone_record (rc\<lparr>r_lease := l'\<rparr>)) \<noteq> l"
    using rsv_fresh [OF assms(2,3)] assms(1) by auto
qed

lemma commit_current:
  assumes "fst (updif i (\<lambda>c. r_lease c = l \<and> q c) fn r) = (v, True)"
  shows "\<exists>rc. lookup r i = Some rc \<and> r_lease rc = l \<and> q (clone_record rc) \<and> v = clone_record (fn rc)"
proof (cases "\<exists>rc. lookup r i = Some rc \<and> r_lease rc = l \<and> q (clone_record rc)")
  case True
  then obtain rc where rc: "lookup r i = Some rc" "r_lease rc = l" "q (clone_record rc)" by blast
  then have "fst (updif i (\<lambda>c. r_lease c = l \<and> q c) fn r) = (clone_record (fn rc), True)"
    by (intro upd_hit [THEN conjunct1]) auto
  with assms rc show ?thesis by auto
next
  case False
  then have "updif i (\<lambda>c. r_lease c = l \<and> q c) fn r = ((zero_record, False), r)"
    by (intro upd_miss) auto
  with assms show ?thesis by simp
qed

end

definition lease_issued :: "registry \<Rightarrow> 64 word \<Rightarrow> bool" where
  "lease_issued r l \<longleftrightarrow> 0 < unat l \<and> unat l \<le> unat (reg_next_lease r)"

definition leases_left :: "registry \<Rightarrow> bool" where
  "leases_left r \<longleftrightarrow> unat (reg_next_lease r) + 1 < 2 ^ 64"

lemma unat_next_lease: "leases_left r \<Longrightarrow> unat (reg_next_lease r + 1) = unat (reg_next_lease r) + 1"
  by (simp add: leases_left_def unat_word_ariths)

lemma reserve_next:
  "reserve_with_lease rc r = (Inr l, r') \<Longrightarrow> reg_next_lease r' = reg_next_lease r + 1 \<and> l = reg_next_lease r + 1"
  by (auto simp: reserve_with_lease_def Let_def split: if_splits)

interpretation reg: lease_store reg_lookup lease_issued leases_left reserve_with_lease rollback
  update_if delete_if
proof unfold_locales
  fix rc r l r'
  assume left: "leases_left r" and ok: "reserve_with_lease rc r = (Inr l, r')"
  show "\<not> lease_issued r l \<and> lease_issued r' l"
    using reserve_next [OF ok] unat_next_lease [OF left] by (simp add: lease_issued_def)
  fix l'
  assume "lease_issued r l'"
  then show "lease_issued r' l'"
    using reserve_next [OF ok] unat_next_lease [OF left] by (simp add: lease_issued_def)
qed (auto simp: reserve_ok reserve_err rollback_lookup update_if_hit update_if_miss
       delete_if_hit delete_if_miss)

end
