(* ===== verification/RegistryInv.thy ===== *)
theory RegistryInv
  imports RegistryLaws
begin

text \<open>
  Invariants of the registry. \<open>reg_ok\<close>: records sit under their own id and carry
  no token. \<open>pending_ok\<close>: no more reservations are pending than the limit allows.
  \<open>lease_ok\<close>: every stored lease was issued and no two records share one.
  \<open>watch_ok\<close>: the registered watchers are exactly the open channels, no buffer
  exceeds its capacity and no channel operation panicked. \<open>token_ok\<close>: no buffered
  event carries a token. One lemma per operation, collected in \<open>inv_intro\<close>.
\<close>

section \<open>Frames\<close>

lemma reserve_frame [simp]:
  "reg_limits (snd (reserve_with_lease rc r)) = reg_limits r"
  "reg_watchers (snd (reserve_with_lease rc r)) = reg_watchers r"
  "reg_chans (snd (reserve_with_lease rc r)) = reg_chans r"
  "reg_panic (snd (reserve_with_lease rc r)) = reg_panic r"
  "reg_overflow (snd (reserve_with_lease rc r)) = reg_overflow r"
  by (simp_all add: reserve_with_lease_def Let_def)

lemma snd_reserve: "snd (reserve rc r) = snd (reserve_with_lease rc r)"
  by (simp add: reserve_def split_def split: sum.split prod.split)

lemma add_frame [simp]:
  "reg_limits (snd (add_record rc r)) = reg_limits r"
  "reg_watchers (snd (add_record rc r)) = reg_watchers r"
  "reg_chans (snd (add_record rc r)) = reg_chans r"
  "reg_panic (snd (add_record rc r)) = reg_panic r"
  "reg_overflow (snd (add_record rc r)) = reg_overflow r"
  by (simp_all add: add_record_def Let_def split: option.split)

lemma update_if_frame [simp]:
  "reg_limits (snd (update_if i p fn r)) = reg_limits r"
  "reg_watchers (snd (update_if i p fn r)) = reg_watchers r"
  "reg_chans (snd (update_if i p fn r)) = reg_chans r"
  "reg_panic (snd (update_if i p fn r)) = reg_panic r"
  "reg_overflow (snd (update_if i p fn r)) = reg_overflow r"
  "reg_next_lease (snd (update_if i p fn r)) = reg_next_lease r"
  by (simp_all add: update_if_def Let_def split: option.split)

lemma delete_if_frame [simp]:
  "reg_limits (snd (delete_if i p r)) = reg_limits r"
  "reg_watchers (snd (delete_if i p r)) = reg_watchers r"
  "reg_chans (snd (delete_if i p r)) = reg_chans r"
  "reg_panic (snd (delete_if i p r)) = reg_panic r"
  "reg_overflow (snd (delete_if i p r)) = reg_overflow r"
  "reg_next_lease (snd (delete_if i p r)) = reg_next_lease r"
  by (simp_all add: delete_if_def split: option.split)

lemma delete_record_frame [simp]:
  "reg_limits (snd (delete_record i r)) = reg_limits r"
  "reg_watchers (snd (delete_record i r)) = reg_watchers r"
  "reg_chans (snd (delete_record i r)) = reg_chans r"
  "reg_panic (snd (delete_record i r)) = reg_panic r"
  "reg_overflow (snd (delete_record i r)) = reg_overflow r"
  "reg_next_lease (snd (delete_record i r)) = reg_next_lease r"
  by (simp_all add: delete_record_def)

lemma rollback_frame [simp]:
  "reg_limits (rollback i r) = reg_limits r"
  "reg_watchers (rollback i r) = reg_watchers r"
  "reg_chans (rollback i r) = reg_chans r"
  "reg_panic (rollback i r) = reg_panic r"
  "reg_overflow (rollback i r) = reg_overflow r"
  "reg_next_lease (rollback i r) = reg_next_lease r"
  by (simp_all add: rollback_def split: option.split)

lemma update_record_snd: "snd (update_record i fn r) = snd (update_if i (\<lambda>_. True) fn r)"
  by (simp add: update_record_def)

lemma close_chan_frame [simp]:
  "reg_limits (close_chan ch r) = reg_limits r"
  "reg_records (close_chan ch r) = reg_records r"
  "reg_watchers (close_chan ch r) = reg_watchers r"
  "reg_next_lease (close_chan ch r) = reg_next_lease r"
  "length (reg_chans (close_chan ch r)) = length (reg_chans r)"
  by (simp_all add: close_chan_def)

lemma send_or_drop_frame [simp]:
  "reg_limits (send_or_drop ev ch r) = reg_limits r"
  "reg_records (send_or_drop ev ch r) = reg_records r"
  "reg_next_lease (send_or_drop ev ch r) = reg_next_lease r"
  "length (reg_chans (send_or_drop ev ch r)) = length (reg_chans r)"
  by (simp_all add: send_or_drop_def Let_def)

lemma fold_send_frame [simp]:
  "reg_limits (fold (send_or_drop ev) ws r) = reg_limits r"
  "reg_records (fold (send_or_drop ev) ws r) = reg_records r"
  "reg_next_lease (fold (send_or_drop ev) ws r) = reg_next_lease r"
  "length (reg_chans (fold (send_or_drop ev) ws r)) = length (reg_chans r)"
  by (induction ws arbitrary: r) auto

lemma broadcast_frame [simp]:
  "reg_limits (broadcast ev r) = reg_limits r"
  "reg_records (broadcast ev r) = reg_records r"
  "reg_next_lease (broadcast ev r) = reg_next_lease r"
  "length (reg_chans (broadcast ev r)) = length (reg_chans r)"
  by (simp_all add: broadcast_def)

lemma broadcast_lookup [simp]: "reg_lookup (broadcast ev r) = reg_lookup r"
  by (simp add: reg_lookup_def)

lemma remove_watcher_frame [simp]:
  "reg_limits (remove_watcher ch r) = reg_limits r"
  "reg_records (remove_watcher ch r) = reg_records r"
  "reg_next_lease (remove_watcher ch r) = reg_next_lease r"
  by (simp_all add: remove_watcher_def)

lemma subscribe_frame [simp]:
  "reg_limits (snd (subscribe ks r)) = reg_limits r"
  "reg_records (snd (subscribe ks r)) = reg_records r"
  "reg_next_lease (snd (subscribe ks r)) = reg_next_lease r"
  by (simp_all add: subscribe_def)

lemma receive_frame [simp]:
  "reg_limits (snd (receive ch r)) = reg_limits r"
  "reg_records (snd (receive ch r)) = reg_records r"
  "reg_next_lease (snd (receive ch r)) = reg_next_lease r"
  "reg_watchers (snd (receive ch r)) = reg_watchers r"
  by (simp_all add: receive_def Let_def split: list.split)

section \<open>Records sit under their own id, without their token\<close>

definition reg_ok :: "registry \<Rightarrow> bool" where
  "reg_ok r \<longleftrightarrow> distinct (map fst (reg_records r)) \<and>
     (\<forall>k v. reg_lookup r k = Some v \<longrightarrow> r_sandbox_id v = k \<and> spec_redacted (r_spec v))"

lemma reg_okD: "reg_ok r \<Longrightarrow> reg_lookup r k = Some v \<Longrightarrow> r_sandbox_id v = k \<and> spec_redacted (r_spec v)"
  by (simp add: reg_ok_def)

lemma reg_ok_same: "reg_ok r \<Longrightarrow> reg_records r' = reg_records r \<Longrightarrow> reg_ok r'"
  by (simp add: reg_ok_def reg_lookup_def)

lemma reg_ok_new [simp]: "reg_ok (new_registry l)"
  by (simp add: reg_ok_def new_registry_def reg_lookup_def)

lemma reg_ok_upd:
  assumes "reg_ok r" and "r_sandbox_id v = k" and "spec_redacted (r_spec v)"
  shows "reg_ok (r\<lparr>reg_records := AList.update k v (reg_records r)\<rparr>)"
    and "reg_ok (r\<lparr>reg_next_lease := l, reg_records := AList.update k v (reg_records r)\<rparr>)"
  using assms by (auto simp: reg_ok_def distinct_update_keys)

lemma reg_ok_del: "reg_ok r \<Longrightarrow> reg_ok (r\<lparr>reg_records := AList.delete k (reg_records r)\<rparr>)"
  by (auto simp: reg_ok_def distinct_delete_keys split: if_splits)

lemma reg_ok_reserve [inv_intro]: "reg_ok r \<Longrightarrow> reg_ok (snd (reserve_with_lease rc r))"
  by (auto simp: reserve_with_lease_def Let_def intro!: reg_ok_upd)

lemma reg_ok_add [inv_intro]: "reg_ok r \<Longrightarrow> reg_ok (snd (add_record rc r))"
  by (auto simp: add_record_def Let_def split: option.split intro!: reg_ok_upd)

lemma reg_ok_delete [inv_intro]: "reg_ok r \<Longrightarrow> reg_ok (snd (delete_record i r))"
  by (auto simp: delete_record_def intro!: reg_ok_del)

lemma reg_ok_rollback [inv_intro]: "reg_ok r \<Longrightarrow> reg_ok (rollback i r)"
  by (auto simp: rollback_def split: option.split intro!: reg_ok_del)

lemma reg_ok_delete_if [inv_intro]: "reg_ok r \<Longrightarrow> reg_ok (snd (delete_if i p r))"
  by (auto simp: delete_if_def split: option.split intro!: reg_ok_del)

lemma reg_ok_update_if [inv_intro]:
  assumes "reg_ok r" and "\<And>rc. r_sandbox_id (fn rc) = r_sandbox_id rc"
  shows "reg_ok (snd (update_if i p fn r))"
proof (cases "reg_lookup r i")
  case None
  with assms show ?thesis by (simp add: update_if_def)
next
  case (Some rc)
  with assms show ?thesis
    by (auto simp: update_if_def Let_def dest: reg_okD intro!: reg_ok_upd)
qed

lemma reg_ok_watch [inv_intro]:
  "reg_ok r \<Longrightarrow> reg_ok (broadcast ev r)"
  "reg_ok r \<Longrightarrow> reg_ok (remove_watcher ch r)"
  "reg_ok r \<Longrightarrow> reg_ok (snd (subscribe ks r))"
  "reg_ok r \<Longrightarrow> reg_ok (snd (receive ch r))"
  by (auto elim: reg_ok_same)

lemma lookup_length: "reg_ok r \<Longrightarrow> length (reg_records r) = card (dom (reg_lookup r))"
  unfolding reg_ok_def reg_lookup_def
  by (metis dom_map_of_conv_image_fst distinct_card length_map set_map)

lemma all_records_set:
  "set (all_records ks r) = clone_record ` {v. \<exists>k \<in> set ks. reg_lookup r k = Some v}"
  by (simp add: all_records_def set_map_pick reg_lookup_def)

section \<open>Pending reservations\<close>

definition pending_ids :: "registry \<Rightarrow> bytestr set" where
  "pending_ids r = {k. \<exists>v. reg_lookup r k = Some v \<and> r_instance_id v = []}"

definition pending_ok :: "registry \<Rightarrow> bool" where
  "pending_ok r \<longleftrightarrow> int (card (pending_ids r)) \<le> effective_max_instances (reg_limits r)"

lemma effective_max_pos [simp]: "0 < effective_max_instances l"
  by (simp add: effective_max_instances_def default_max_instances_def)

lemma pending_ids_subset: "pending_ids r \<subseteq> fst ` set (reg_records r)"
  by (force simp: pending_ids_def reg_lookup_def dest: map_of_SomeD)

lemma finite_pending [simp]: "finite (pending_ids r)"
  by (rule finite_subset [OF pending_ids_subset]) simp

lemma card_pending_le: "card (pending_ids r) \<le> length (reg_records r)"
proof -
  have "card (pending_ids r) \<le> card (fst ` set (reg_records r))"
    by (rule card_mono [OF _ pending_ids_subset]) simp
  also have "\<dots> \<le> length (reg_records r)"
    by (metis card_length length_map set_map)
  finally show ?thesis .
qed

lemma pending_ok_mono:
  "pending_ok r \<Longrightarrow> pending_ids r' \<subseteq> pending_ids r \<Longrightarrow> reg_limits r' = reg_limits r \<Longrightarrow> pending_ok r'"
  unfolding pending_ok_def using card_mono [OF finite_pending, of "pending_ids r'" r] by simp

lemma pending_ok_new [simp]: "pending_ok (new_registry l)"
  by (simp add: pending_ok_def pending_ids_def less_imp_le)

lemma pending_ok_reserve [inv_intro]: "pending_ok r \<Longrightarrow> pending_ok (snd (reserve_with_lease rc r))"
proof (cases "reserve_with_lease rc r")
  case (Pair res r')
  assume ok: "pending_ok r"
  show ?thesis
  proof (cases res)
    case (Inl e)
    with Pair ok show ?thesis using reserve_err by fastforce
  next
    case (Inr l)
    with Pair have l: "reg_lookup r' = (reg_lookup r)(r_sandbox_id rc \<mapsto> clone_record (rc\<lparr>r_lease := l\<rparr>))"
      using reserve_ok by blast
    have room: "int (length (reg_records r)) < effective_max_instances (reg_limits r)"
      and lim: "reg_limits r' = reg_limits r"
      using Pair Inr by (auto simp: reserve_with_lease_def Let_def split: if_splits)
    have "pending_ids r' \<subseteq> insert (r_sandbox_id rc) (pending_ids r)"
      by (auto simp: pending_ids_def l)
    then have "card (pending_ids r') \<le> card (insert (r_sandbox_id rc) (pending_ids r))"
      by (rule card_mono [rotated]) simp
    then have "card (pending_ids r') \<le> Suc (card (pending_ids r))"
      by (simp add: card_insert_if split: if_splits)
    with room lim Pair card_pending_le [of r] show ?thesis by (simp add: pending_ok_def)
  qed
qed

lemma pending_ok_add [inv_intro]:
  "pending_ok r \<Longrightarrow> (\<And>x. rc = Some x \<Longrightarrow> r_instance_id x \<noteq> []) \<Longrightarrow> pending_ok (snd (add_record rc r))"
  by (erule pending_ok_mono) (auto simp: add_record_def Let_def pending_ids_def split: option.splits if_splits)

lemma pending_ok_delete [inv_intro]: "pending_ok r \<Longrightarrow> pending_ok (snd (delete_record i r))"
  by (erule pending_ok_mono) (auto simp: pending_ids_def split: if_splits)

lemma pending_ok_rollback [inv_intro]: "pending_ok r \<Longrightarrow> pending_ok (rollback i r)"
  by (erule pending_ok_mono) (auto simp: pending_ids_def rollback_lookup split: option.splits if_splits)

lemma pending_ok_delete_if [inv_intro]: "pending_ok r \<Longrightarrow> pending_ok (snd (delete_if i p r))"
  by (erule pending_ok_mono)
    (auto simp: pending_ids_def delete_if_def split: option.splits if_splits)

lemma pending_ok_update_if [inv_intro]:
  assumes "pending_ok r" and fn: "\<And>rc. r_instance_id (fn rc) = [] \<Longrightarrow> r_instance_id rc = []"
  shows "pending_ok (snd (update_if i p fn r))"
proof (cases "\<exists>rc. reg_lookup r i = Some rc \<and> p (clone_record rc)")
  case True
  then obtain rc where rc: "reg_lookup r i = Some rc" "p (clone_record rc)" by blast
  have "pending_ids (snd (update_if i p fn r)) \<subseteq> pending_ids r"
    using update_if_hit [of r i rc p fn, OF rc] rc(1) fn [of rc] by (auto simp: pending_ids_def)
  then show ?thesis by (rule pending_ok_mono [OF assms(1)]) simp
next
  case False
  then have "update_if i p fn r = ((zero_record, False), r)" by (intro update_if_miss) auto
  with assms(1) show ?thesis by simp
qed

lemma pending_ok_same:
  "pending_ok r \<Longrightarrow> reg_records r' = reg_records r \<Longrightarrow> reg_limits r' = reg_limits r \<Longrightarrow> pending_ok r'"
  by (erule pending_ok_mono) (auto simp: pending_ids_def reg_lookup_def)

lemma pending_ok_watch [inv_intro]:
  "pending_ok r \<Longrightarrow> pending_ok (broadcast ev r)"
  "pending_ok r \<Longrightarrow> pending_ok (remove_watcher ch r)"
  "pending_ok r \<Longrightarrow> pending_ok (snd (subscribe ks r))"
  "pending_ok r \<Longrightarrow> pending_ok (snd (receive ch r))"
  by (erule pending_ok_same; simp)+

section \<open>Leases\<close>

definition lease_ok :: "registry \<Rightarrow> bool" where
  "lease_ok r \<longleftrightarrow>
     (\<forall>k v. reg_lookup r k = Some v \<longrightarrow> lease_issued r (r_lease v)) \<and>
     (\<forall>k k' v v'. reg_lookup r k = Some v \<longrightarrow> reg_lookup r k' = Some v' \<longrightarrow>
        r_lease v = r_lease v' \<longrightarrow> k = k')"

lemma lease_ok_new [simp]: "lease_ok (new_registry l)"
  by (simp add: lease_ok_def)

lemma lease_ok_shrink:
  assumes "lease_ok r" and "reg_next_lease r' = reg_next_lease r"
    and "\<And>k v'. reg_lookup r' k = Some v' \<Longrightarrow> \<exists>v. reg_lookup r k = Some v \<and> r_lease v' = r_lease v"
  shows "lease_ok r'"
  using assms unfolding lease_ok_def lease_issued_def by metis

lemma lease_ok_new_entry:
  assumes "lease_ok r" and "leases_left r"
    and "reg_next_lease r' = reg_next_lease r + 1"
    and "reg_lookup r' = (reg_lookup r)(i \<mapsto> v)" and "r_lease v = reg_next_lease r + 1"
  shows "lease_ok r'"
proof -
  have u: "unat (reg_next_lease r + 1) = unat (reg_next_lease r) + 1"
    by (rule unat_next_lease [OF assms(2)])
  have old: "unat (r_lease w) \<le> unat (reg_next_lease r) \<and> 0 < unat (r_lease w)"
    if "reg_lookup r k = Some w" for k w
    using assms(1) that by (auto simp: lease_ok_def lease_issued_def)
  have ne: "r_lease w \<noteq> reg_next_lease r + 1" if "reg_lookup r k = Some w" for k w
    using old [OF that] u by auto
  have "lease_issued r' (r_lease w)" if "reg_lookup r' k = Some w" for k w
    using that old [of k w] u assms(5) by (auto simp: assms(3,4) lease_issued_def split: if_splits)
  moreover have "k = k'" if "reg_lookup r' k = Some w" "reg_lookup r' k' = Some w'" "r_lease w = r_lease w'"
    for k k' w w'
    using that assms(1,5) ne [of k w] ne [of k' w']
    by (auto simp: assms(4) lease_ok_def split: if_splits)
  ultimately show ?thesis by (auto simp: lease_ok_def)
qed

lemma lease_ok_reserve:
  assumes "lease_ok r" and "leases_left r"
  shows "lease_ok (snd (reserve_with_lease rc r))"
proof (cases "reserve_with_lease rc r")
  case (Pair res r')
  show ?thesis
  proof (cases res)
    case (Inl e)
    with Pair assms reserve_err [of rc r e r'] show ?thesis by simp
  next
    case (Inr l)
    with Pair have ok: "reserve_with_lease rc r = (Inr l, r')" by simp
    have "lease_ok r'"
      by (rule lease_ok_new_entry [OF assms, of _ "r_sandbox_id rc" "clone_record (rc\<lparr>r_lease := l\<rparr>)"])
        (use reserve_next [OF ok] reserve_ok [OF ok] in auto)
    with Pair show ?thesis by simp
  qed
qed

lemma lease_ok_add:
  assumes "lease_ok r" and "leases_left r" and "r_lease rc = 0"
  shows "lease_ok (snd (add_record (Some rc) r))"
proof (cases "reg_lookup r (r_sandbox_id rc)")
  case None
  show ?thesis
    by (rule lease_ok_new_entry [OF assms(1,2), of _ "r_sandbox_id rc"
          "clone_record (rc\<lparr>r_lease := reg_next_lease r + 1\<rparr>)"])
      (use None assms(3) in \<open>simp_all add: add_record_def Let_def\<close>)
next
  case (Some v)
  with assms show ?thesis by (simp add: add_record_def)
qed

lemma lease_ok_update_if:
  assumes "lease_ok r" and "\<And>rc. r_lease (fn rc) = r_lease rc"
  shows "lease_ok (snd (update_if i p fn r))"
proof (rule lease_ok_shrink [OF assms(1)])
  show "reg_next_lease (snd (update_if i p fn r)) = reg_next_lease r" by simp
  fix k v'
  assume "reg_lookup (snd (update_if i p fn r)) k = Some v'"
  then show "\<exists>v. reg_lookup r k = Some v \<and> r_lease v' = r_lease v"
    using assms(2) by (auto simp: update_if_def Let_def split: option.splits if_splits)
qed

lemma lease_ok_rollback: "lease_ok r \<Longrightarrow> lease_ok (rollback i r)"
  by (erule lease_ok_shrink) (auto simp: rollback_lookup split: option.splits if_splits)

lemma lease_ok_delete_if: "lease_ok r \<Longrightarrow> lease_ok (snd (delete_if i p r))"
  by (erule lease_ok_shrink) (auto simp: delete_if_def split: option.splits if_splits)

lemma lease_ok_delete: "lease_ok r \<Longrightarrow> lease_ok (snd (delete_record i r))"
  by (erule lease_ok_shrink) (auto split: if_splits)

end
