(* ===== verification/Watchers.thy ===== *)
theory Watchers
  imports RegistryInv "HOL-Library.Sublist"
begin

text \<open>
  The event fan-out. The watcher channels keep an invariant (the registered watchers are
  the open channels, no buffer exceeds its capacity, nothing panicked), a broadcast
  either appends the event to a watcher's buffer or disconnects that watcher, and over
  any run of operations a subscriber receives a prefix of the broadcasts since its
  subscription, all of them as long as it is connected.
\<close>

definition watch_ok :: "registry \<Rightarrow> bool" where
  "watch_ok r \<longleftrightarrow>
     distinct (reg_watchers r) \<and>
     set (reg_watchers r) = {ch. ch < length (reg_chans r) \<and> \<not> ch_closed (reg_chans r ! ch)} \<and>
     (\<forall>c \<in> set (reg_chans r). length (ch_buf c) \<le> watch_buffer_size) \<and>
     \<not> reg_panic r"

definition token_ok :: "registry \<Rightarrow> bool" where
  "token_ok r \<longleftrightarrow> (\<forall>c \<in> set (reg_chans r). \<forall>e \<in> set (ch_buf c). event_redacted e)"

lemma watch_ok_new [simp]: "watch_ok (new_registry l)"
  by (simp add: watch_ok_def new_registry_def)

lemma token_ok_new [simp]: "token_ok (new_registry l)"
  by (simp add: token_ok_def new_registry_def)

lemma watch_ok_same:
  "watch_ok r \<Longrightarrow> reg_watchers r' = reg_watchers r \<Longrightarrow> reg_chans r' = reg_chans r \<Longrightarrow>
   reg_panic r' = reg_panic r \<Longrightarrow> watch_ok r'"
  by (simp add: watch_ok_def)

lemma token_ok_same: "token_ok r \<Longrightarrow> reg_chans r' = reg_chans r \<Longrightarrow> token_ok r'"
  by (simp add: token_ok_def)

lemma watch_ok_records [inv_intro]:
  "watch_ok r \<Longrightarrow> watch_ok (snd (reserve_with_lease rc r))"
  "watch_ok r \<Longrightarrow> watch_ok (snd (add_record rco r))"
  "watch_ok r \<Longrightarrow> watch_ok (snd (update_if i p fn r))"
  "watch_ok r \<Longrightarrow> watch_ok (snd (delete_if i p r))"
  "watch_ok r \<Longrightarrow> watch_ok (snd (delete_record i r))"
  "watch_ok r \<Longrightarrow> watch_ok (rollback i r)"
  by (erule watch_ok_same; simp)+

lemma token_ok_records [inv_intro]:
  "token_ok r \<Longrightarrow> token_ok (snd (reserve_with_lease rc r))"
  "token_ok r \<Longrightarrow> token_ok (snd (add_record rco r))"
  "token_ok r \<Longrightarrow> token_ok (snd (update_if i p fn r))"
  "token_ok r \<Longrightarrow> token_ok (snd (delete_if i p r))"
  "token_ok r \<Longrightarrow> token_ok (snd (delete_record i r))"
  "token_ok r \<Longrightarrow> token_ok (rollback i r)"
  by (erule token_ok_same; simp)+

section \<open>One watcher\<close>

definition full :: "registry \<Rightarrow> nat \<Rightarrow> bool" where
  "full r ch \<longleftrightarrow> length (ch_buf (reg_chans r ! ch)) \<ge> watch_buffer_size"

lemma send_or_drop_open:
  assumes "\<not> ch_closed (reg_chans r ! ch)" and "ch < length (reg_chans r)"
  shows "reg_chans (send_or_drop ev ch r) =
      (if full r ch then (reg_chans r)[ch := (reg_chans r ! ch)\<lparr>ch_closed := True\<rparr>]
       else (reg_chans r)[ch := (reg_chans r ! ch)\<lparr>ch_buf := ch_buf (reg_chans r ! ch) @ [ev]\<rparr>])"
    and "reg_watchers (send_or_drop ev ch r) =
      (if full r ch then remove1 ch (reg_watchers r) else reg_watchers r)"
    and "reg_panic (send_or_drop ev ch r) = reg_panic r"
    and "reg_overflow (send_or_drop ev ch r) = reg_overflow r + (if full r ch then 1 else 0)"
  using assms by (simp_all add: send_or_drop_def close_chan_def full_def Let_def)

text \<open>The whole broadcast, watcher by watcher: the order of the watchers does not matter.\<close>

definition after_broadcast :: "watch_event \<Rightarrow> registry \<Rightarrow> nat \<Rightarrow> chan" where
  "after_broadcast ev r ch =
     (let c = reg_chans r ! ch
      in if ch \<notin> set (reg_watchers r) then c
         else if full r ch then c\<lparr>ch_closed := True\<rparr>
         else c\<lparr>ch_buf := ch_buf c @ [ev]\<rparr>)"

lemma fold_send_spec:
  assumes "distinct ws"
    and "\<forall>ch \<in> set ws. ch < length (reg_chans r) \<and> \<not> ch_closed (reg_chans r ! ch)"
  shows "reg_panic (fold (send_or_drop ev) ws r) = reg_panic r \<and>
    (\<forall>ch < length (reg_chans r). reg_chans (fold (send_or_drop ev) ws r) ! ch =
      (if ch \<notin> set ws then reg_chans r ! ch
       else if full r ch then (reg_chans r ! ch)\<lparr>ch_closed := True\<rparr>
       else (reg_chans r ! ch)\<lparr>ch_buf := ch_buf (reg_chans r ! ch) @ [ev]\<rparr>)) \<and>
    reg_watchers (fold (send_or_drop ev) ws r) = fold remove1 (filter (full r) ws) (reg_watchers r) \<and>
    reg_overflow (fold (send_or_drop ev) ws r) =
      reg_overflow r + of_nat (length (filter (full r) ws))"
  using assms
proof (induction ws arbitrary: r)
  case Nil
  then show ?case by simp
next
  case (Cons w ws)
  let ?r = "send_or_drop ev w r"
  have w: "\<not> ch_closed (reg_chans r ! w)" "w < length (reg_chans r)" "w \<notin> set ws" "distinct ws"
    using Cons.prems by auto
  note s = send_or_drop_open [OF w(1,2), of ev]
  have same: "reg_chans ?r ! ch = reg_chans r ! ch" if "ch \<noteq> w" for ch
    using that by (simp add: s(1) nth_list_update)
  have pre: "\<forall>ch \<in> set ws. ch < length (reg_chans ?r) \<and> \<not> ch_closed (reg_chans ?r ! ch)"
  proof (intro ballI)
    fix ch assume a: "ch \<in> set ws"
    then have "ch \<noteq> w" using w(3) by auto
    then have "reg_chans ?r ! ch = reg_chans r ! ch" by (rule same)
    with a Cons.prems(2) show "ch < length (reg_chans ?r) \<and> \<not> ch_closed (reg_chans ?r ! ch)"
      by simp
  qed
  have full: "full ?r ch = full r ch" if "ch \<noteq> w" for ch
    using that by (simp add: full_def same)
  have ff: "filter (full ?r) ws = filter (full r) ws"
    using w(3) by (intro filter_cong refl full) auto
  note IH = Cons.IH [OF w(4) pre, unfolded ff]
  have "reg_chans (fold (send_or_drop ev) (w # ws) r) ! ch =
      (if ch \<notin> set (w # ws) then reg_chans r ! ch
       else if full r ch then (reg_chans r ! ch)\<lparr>ch_closed := True\<rparr>
       else (reg_chans r ! ch)\<lparr>ch_buf := ch_buf (reg_chans r ! ch) @ [ev]\<rparr>)"
    if "ch < length (reg_chans r)" for ch
  proof (cases "ch = w")
    case True
    then have "reg_chans (fold (send_or_drop ev) (w # ws) r) ! ch = reg_chans ?r ! w"
      using IH that w(3) by simp
    with True w(2) show ?thesis by (simp add: s(1))
  next
    case False
    then show ?thesis using IH that by (simp add: same full)
  qed
  then show ?case using IH by (simp add: s)
qed

lemma watch_ok_pre:
  "watch_ok r \<Longrightarrow> \<forall>ch \<in> set (reg_watchers r). ch < length (reg_chans r) \<and> \<not> ch_closed (reg_chans r ! ch)"
  by (auto simp: watch_ok_def)

lemma watch_ok_distinct: "watch_ok r \<Longrightarrow> distinct (reg_watchers r)"
  by (simp add: watch_ok_def)

lemma broadcast_chan:
  "watch_ok r \<Longrightarrow> ch < length (reg_chans r) \<Longrightarrow>
   reg_chans (broadcast ev r) ! ch = after_broadcast ev r ch"
  using fold_send_spec [OF watch_ok_distinct watch_ok_pre, of r ev]
  by (simp add: broadcast_def after_broadcast_def Let_def)

lemma set_fold_remove1:
  "distinct xs \<Longrightarrow> set (fold remove1 ys xs) = set xs - set ys \<and> distinct (fold remove1 ys xs)"
  by (induction ys arbitrary: xs) auto

lemma broadcast_watchers:
  assumes "watch_ok r"
  shows "set (reg_watchers (broadcast ev r)) = {ch \<in> set (reg_watchers r). \<not> full r ch}"
    and "distinct (reg_watchers (broadcast ev r))"
    and "reg_panic (broadcast ev r) = reg_panic r"
    and "reg_overflow (broadcast ev r) =
      reg_overflow r + of_nat (card {ch \<in> set (reg_watchers r). full r ch})"
proof -
  have d: "distinct (reg_watchers r)" using assms by (rule watch_ok_distinct)
  note f = fold_send_spec [OF d watch_ok_pre [OF assms], of ev, folded broadcast_def]
  note g = set_fold_remove1 [OF d, of "filter (full r) (reg_watchers r)"]
  show "set (reg_watchers (broadcast ev r)) = {ch \<in> set (reg_watchers r). \<not> full r ch}"
    "distinct (reg_watchers (broadcast ev r))" "reg_panic (broadcast ev r) = reg_panic r"
    using f g by auto
  have "length (filter (full r) (reg_watchers r)) = card {ch \<in> set (reg_watchers r). full r ch}"
    using distinct_card [of "filter (full r) (reg_watchers r)"] d by simp
  with f show "reg_overflow (broadcast ev r) =
      reg_overflow r + of_nat (card {ch \<in> set (reg_watchers r). full r ch})" by simp
qed

lemma watch_ok_broadcast [inv_intro]:
  assumes "watch_ok r" shows "watch_ok (broadcast ev r)"
proof -
  note b = broadcast_watchers [OF assms, of ev] and c = broadcast_chan [OF assms, of _ ev]
  have "length (ch_buf c) \<le> watch_buffer_size" if "c \<in> set (reg_chans (broadcast ev r))" for c
  proof -
    from that obtain ch where ch: "ch < length (reg_chans r)" "c = after_broadcast ev r ch"
      using c by (auto simp: in_set_conv_nth)
    have "length (ch_buf (reg_chans r ! ch)) \<le> watch_buffer_size"
      using assms ch(1) by (auto simp: watch_ok_def)
    with ch(2) show ?thesis by (auto simp: after_broadcast_def full_def Let_def)
  qed
  moreover have "set (reg_watchers (broadcast ev r)) =
      {ch. ch < length (reg_chans (broadcast ev r)) \<and> \<not> ch_closed (reg_chans (broadcast ev r) ! ch)}"
  proof (intro equalityI subsetI)
    fix ch assume "ch \<in> set (reg_watchers (broadcast ev r))"
    then have "ch \<in> set (reg_watchers r)" "\<not> full r ch" by (auto simp: b)
    with watch_ok_pre [OF assms] show "ch \<in> {ch. ch < length (reg_chans (broadcast ev r)) \<and>
        \<not> ch_closed (reg_chans (broadcast ev r) ! ch)}"
      by (auto simp: c after_broadcast_def Let_def)
  next
    fix ch assume "ch \<in> {ch. ch < length (reg_chans (broadcast ev r)) \<and>
        \<not> ch_closed (reg_chans (broadcast ev r) ! ch)}"
    then have ch: "ch < length (reg_chans r)" "\<not> ch_closed (after_broadcast ev r ch)"
      by (auto simp: c)
    then have "\<not> ch_closed (reg_chans r ! ch)" and f: "ch \<in> set (reg_watchers r) \<Longrightarrow> \<not> full r ch"
      by (auto simp: after_broadcast_def Let_def split: if_splits)
    with ch(1) assms have "ch \<in> set (reg_watchers r)" by (simp add: watch_ok_def)
    with f show "ch \<in> set (reg_watchers (broadcast ev r))" by (simp add: b)
  qed
  ultimately show ?thesis using b assms by (simp add: watch_ok_def)
qed

lemma token_ok_broadcast [inv_intro]:
  assumes "watch_ok r" and "token_ok r" and "event_redacted ev"
  shows "token_ok (broadcast ev r)"
  unfolding token_ok_def
proof (intro ballI)
  fix c e
  assume "c \<in> set (reg_chans (broadcast ev r))" and e: "e \<in> set (ch_buf c)"
  then obtain ch where ch: "ch < length (reg_chans r)" "c = after_broadcast ev r ch"
    using broadcast_chan [OF assms(1), of _ ev] by (auto simp: in_set_conv_nth)
  with e have "e \<in> set (ch_buf (reg_chans r ! ch)) \<or> e = ev"
    by (auto simp: after_broadcast_def Let_def split: if_splits)
  with ch(1) assms(2,3) show "event_redacted e" by (auto simp: token_ok_def)
qed

lemma sandbox_event_redacted [simp]: "event_redacted (EvSandbox (to_driver_sandbox rc))"
  by (simp add: to_driver_sandbox_def)

section \<open>Subscribing, leaving and receiving\<close>

lemma watch_ok_subscribe [inv_intro]: "watch_ok r \<Longrightarrow> watch_ok (snd (subscribe ks r))"
  by (auto simp: watch_ok_def subscribe_def nth_append less_Suc_eq)

lemma token_ok_subscribe [inv_intro]: "token_ok r \<Longrightarrow> token_ok (snd (subscribe ks r))"
  by (auto simp: token_ok_def subscribe_def)

lemma watch_ok_remove [inv_intro]: "watch_ok r \<Longrightarrow> watch_ok (remove_watcher ch r)"
  by (auto simp: watch_ok_def remove_watcher_def close_chan_def nth_list_update
      dest!: set_update_subset_insert [THEN subsetD] split: if_splits)

lemma token_ok_remove [inv_intro]:
  assumes "watch_ok r" and "token_ok r" shows "token_ok (remove_watcher ch r)"
proof (cases "ch \<in> set (reg_watchers r)")
  case True
  then have "ch < length (reg_chans r)" using watch_ok_pre [OF assms(1)] by auto
  then have "reg_chans r ! ch \<in> set (reg_chans r)" by simp
  then show ?thesis using assms(2) True
    by (auto simp: token_ok_def remove_watcher_def close_chan_def dest!: set_update_subset_insert [THEN subsetD])
next
  case False
  with assms show ?thesis by (simp add: remove_watcher_def)
qed

lemma receive_cases:
  obtains (event) e es where "ch_buf (reg_chans r ! ch) = e # es"
      "receive ch r = (Some (Some e), r\<lparr>reg_chans := (reg_chans r)[ch := (reg_chans r ! ch)\<lparr>ch_buf := es\<rparr>]\<rparr>)"
  | (closed) "ch_buf (reg_chans r ! ch) = []" "ch_closed (reg_chans r ! ch)" "receive ch r = (Some None, r)"
  | (blocked) "ch_buf (reg_chans r ! ch) = []" "\<not> ch_closed (reg_chans r ! ch)" "receive ch r = (None, r)"
  by (cases "ch_buf (reg_chans r ! ch)"; cases "ch_closed (reg_chans r ! ch)")
    (auto simp: receive_def Let_def)

lemma watch_ok_receive [inv_intro]:
  assumes "watch_ok r" and "ch < length (reg_chans r)" shows "watch_ok (snd (receive ch r))"
proof (cases rule: receive_cases [of r ch])
  case (event e es)
  have "length (ch_buf (reg_chans r ! ch)) \<le> watch_buffer_size"
    using assms by (auto simp: watch_ok_def)
  with event assms show ?thesis
    by (auto simp: watch_ok_def nth_list_update dest!: set_update_subset_insert [THEN subsetD])
qed (use assms in simp_all)

lemma token_ok_receive [inv_intro]:
  assumes "token_ok r" and "ch < length (reg_chans r)" shows "token_ok (snd (receive ch r))"
proof (cases rule: receive_cases [of r ch])
  case (event e es)
  have "reg_chans r ! ch \<in> set (reg_chans r)" using assms(2) by simp
  with event assms(1) have "\<forall>x \<in> set es. event_redacted x" by (fastforce simp: token_ok_def)
  with event assms show ?thesis
    by (auto simp: token_ok_def dest!: set_update_subset_insert [THEN subsetD])
qed (use assms in simp_all)

section \<open>What a subscriber sees\<close>

text \<open>
  The operations on the channels in the order of the mutex. \<open>watch_run ch\<close> collects
  what the subscriber of channel \<open>ch\<close> received and what was broadcast meanwhile.
\<close>

datatype watch_op =
  OpBroadcast watch_event
| OpReceive nat
| OpSubscribe "bytestr list"
| OpRemove nat

fun watch_step ::
  "nat \<Rightarrow> watch_op \<Rightarrow> watch_event list \<times> watch_event list \<times> registry \<Rightarrow>
   watch_event list \<times> watch_event list \<times> registry" where
  "watch_step ch (OpBroadcast ev) (got, sent, r) = (got, sent @ [ev], broadcast ev r)"
| "watch_step ch (OpReceive c) (got, sent, r) =
     (if c < length (reg_chans r) then
        (case receive c r of
           (Some (Some e), r') \<Rightarrow> (if c = ch then got @ [e] else got, sent, r')
         | (_, r') \<Rightarrow> (got, sent, r'))
      else (got, sent, r))"
| "watch_step ch (OpSubscribe ks) (got, sent, r) = (got, sent, snd (subscribe ks r))"
| "watch_step ch (OpRemove c) (got, sent, r) = (got, sent, remove_watcher c r)"

definition watch_run ::
  "nat \<Rightarrow> watch_op list \<Rightarrow> registry \<Rightarrow> watch_event list \<times> watch_event list \<times> registry" where
  "watch_run ch ops r = fold (watch_step ch) ops ([], [], r)"

definition in_step :: "nat \<Rightarrow> watch_event list \<times> watch_event list \<times> registry \<Rightarrow> bool" where
  "in_step ch = (\<lambda>(got, sent, r).
     watch_ok r \<and> ch < length (reg_chans r) \<and>
     prefix (got @ ch_buf (reg_chans r ! ch)) sent \<and>
     (\<not> ch_closed (reg_chans r ! ch) \<longrightarrow> got @ ch_buf (reg_chans r ! ch) = sent))"

lemma remove_watcher_chan:
  "ch < length (reg_chans r) \<Longrightarrow>
   ch_buf (reg_chans (remove_watcher c r) ! ch) = ch_buf (reg_chans r ! ch) \<and>
   (ch_closed (reg_chans r ! ch) \<longrightarrow> ch_closed (reg_chans (remove_watcher c r) ! ch)) \<and>
   length (reg_chans (remove_watcher c r)) = length (reg_chans r)"
  by (cases "c = ch") (auto simp: remove_watcher_def close_chan_def)

lemma in_step_broadcast:
  assumes "in_step ch (got, sent, r)"
  shows "in_step ch (got, sent @ [ev], broadcast ev r)"
proof -
  have a: "watch_ok r" "ch < length (reg_chans r)" "prefix (got @ ch_buf (reg_chans r ! ch)) sent"
    "\<not> ch_closed (reg_chans r ! ch) \<Longrightarrow> got @ ch_buf (reg_chans r ! ch) = sent"
    using assms by (auto simp: in_step_def)
  have "ch \<in> set (reg_watchers r) \<longleftrightarrow> \<not> ch_closed (reg_chans r ! ch)"
    using a(1,2) by (simp add: watch_ok_def)
  then show ?thesis
    using a watch_ok_broadcast [OF a(1), of ev] broadcast_chan [OF a(1,2), of ev]
    by (auto simp: in_step_def after_broadcast_def Let_def append.assoc [symmetric]
        simp del: append.assoc)
qed

lemma in_step_receive:
  assumes "in_step ch (got, sent, r)"
  shows "in_step ch (watch_step ch (OpReceive c) (got, sent, r))"
proof (cases "c < length (reg_chans r)")
  case True
  then have w: "watch_ok (snd (receive c r))" using assms watch_ok_receive by (simp add: in_step_def)
  show ?thesis
  proof (cases rule: receive_cases [of r c])
    case (event e es)
    with w True assms show ?thesis by (auto simp: in_step_def nth_list_update)
  qed (use True assms in \<open>simp_all add: in_step_def\<close>)
qed (use assms in simp)

lemma in_step_step: "in_step ch st \<Longrightarrow> in_step ch (watch_step ch op st)"
proof (cases st)
  case (fields got sent r)
  assume a: "in_step ch st"
  show ?thesis
  proof (cases op)
    case (OpBroadcast ev)
    with a fields show ?thesis by (simp add: in_step_broadcast)
  next
    case (OpReceive c)
    with a fields show ?thesis using in_step_receive by blast
  next
    case (OpSubscribe ks)
    with a fields show ?thesis
      using watch_ok_subscribe [of r ks] by (auto simp: in_step_def subscribe_def nth_append)
  next
    case (OpRemove c)
    with a fields show ?thesis
      using watch_ok_remove [of r c] remove_watcher_chan [of ch r c] by (auto simp: in_step_def)
  qed
qed

lemma in_step_fold: "in_step ch st \<Longrightarrow> in_step ch (fold (watch_step ch) ops st)"
proof (induction ops arbitrary: st)
  case Nil
  then show ?case by simp
next
  case (Cons op ops)
  from Cons.IH [OF in_step_step [OF Cons.prems]] show ?case by simp
qed

lemma in_step_subscribe:
  "watch_ok r \<Longrightarrow> in_step (fst (fst (subscribe ks r))) ([], [], snd (subscribe ks r))"
  using watch_ok_subscribe [of r ks] by (simp add: in_step_def subscribe_def)

lemma subscriber_sees:
  assumes "watch_ok r" and "subscribe ks r = ((ch, recs), r1)"
    and "watch_run ch ops r1 = (got, sent, r2)"
  shows "prefix (got @ ch_buf (reg_chans r2 ! ch)) sent"
    and "\<not> ch_closed (reg_chans r2 ! ch) \<Longrightarrow> got @ ch_buf (reg_chans r2 ! ch) = sent"
    and "\<not> reg_panic r2"
  using in_step_fold [OF in_step_subscribe [OF assms(1)], of ks ops] assms(2,3)
  by (auto simp: watch_run_def in_step_def watch_ok_def)

end
