(* ===== verification/Sys.thy ===== *)
theory Sys
  imports Prog Watchers
begin

text \<open>
  What a driver's handlers act on: the registry and the world around the process (the
  provider, the clock, the order in which the runtime visits a map, the state of
  contexts and streams). \<open>runtime\<close> holds the world's operations both drivers use.
  An operation of the registry is one atomic action because it runs under the
  registry's mutex; a call of the world is one too. The second half lifts the
  registry's invariants to programs: \<open>core_inv\<close> is kept by every operation.
\<close>

record 'w sys =
  sy_reg :: registry
  sy_world :: 'w

text \<open>
  \<open>time.Now\<close>, the order of a range over the given keys, \<open>ctx.Err\<close>, SHA-256, a send on
  a stream, and the scheduler's choice in the select of a watch handler: the context is
  done with an error, or the channel is polled.
\<close>

record 'w runtime =
  rt_now :: "'w \<Rightarrow> time \<times> 'w"
  rt_order :: "bytestr list \<Rightarrow> 'w \<Rightarrow> bytestr list \<times> 'w"
  rt_ctx_err :: "'w \<Rightarrow> ctx_err option \<times> 'w"
  rt_sha256 :: "bytestr \<Rightarrow> bytestr"
  rt_send :: "watch_event \<Rightarrow> 'w \<Rightarrow> goerr option \<times> 'w"
  rt_done :: "'w \<Rightarrow> ctx_err option \<times> 'w"

section \<open>Atomic actions\<close>

definition on_reg :: "(registry \<Rightarrow> 'b \<times> registry) \<Rightarrow> 'w sys \<Rightarrow> 'b \<times> 'w sys" where
  "on_reg f s = (case f (sy_reg s) of (b, r) \<Rightarrow> (b, s\<lparr>sy_reg := r\<rparr>))"

definition on_world :: "('w \<Rightarrow> 'b \<times> 'w) \<Rightarrow> 'w sys \<Rightarrow> 'b \<times> 'w sys" where
  "on_world f s = (case f (sy_world s) of (b, w) \<Rightarrow> (b, s\<lparr>sy_world := w\<rparr>))"

text \<open>
  Operations of the registry that ask the runtime for something while they hold the
  lock: the visiting order of its map, the time a closure reads.
\<close>

definition with_keys ::
  "'w runtime \<Rightarrow> (bytestr list \<Rightarrow> registry \<Rightarrow> 'b \<times> registry) \<Rightarrow> 'w sys \<Rightarrow> 'b \<times> 'w sys" where
  "with_keys rt f s =
     (case rt_order rt (map_keys (reg_records (sy_reg s))) (sy_world s) of (ks, w) \<Rightarrow>
        on_reg (f ks) (s\<lparr>sy_world := w\<rparr>))"

definition with_now ::
  "'w runtime \<Rightarrow> (time \<Rightarrow> registry \<Rightarrow> 'b \<times> registry) \<Rightarrow> 'w sys \<Rightarrow> 'b \<times> 'w sys" where
  "with_now rt f s =
     (case rt_now rt (sy_world s) of (now, w) \<Rightarrow> on_reg (f now) (s\<lparr>sy_world := w\<rparr>))"

definition unit_op :: "(registry \<Rightarrow> registry) \<Rightarrow> registry \<Rightarrow> unit \<times> registry" where
  "unit_op f r = ((), f r)"

definition read_op :: "(registry \<Rightarrow> 'b) \<Rightarrow> registry \<Rightarrow> 'b \<times> registry" where
  "read_op f r = (f r, r)"

lemma run_on_reg [exec]:
  "run (act (on_reg f) k) s = run (k (fst (f (sy_reg s)))) (s\<lparr>sy_reg := snd (f (sy_reg s))\<rparr>)"
  by (simp add: run_act on_reg_def split_def)

lemma run_on_world [exec]:
  "run (act (on_world f) k) s = run (k (fst (f (sy_world s)))) (s\<lparr>sy_world := snd (f (sy_world s))\<rparr>)"
  by (simp add: run_act on_world_def split_def)

lemma run_with_keys [exec]:
  "run (act (with_keys rt f) k) s =
     (let kw = rt_order rt (map_keys (reg_records (sy_reg s))) (sy_world s);
          rr = f (fst kw) (sy_reg s)
      in run (k (fst rr)) (s\<lparr>sy_world := snd kw, sy_reg := snd rr\<rparr>))"
  by (simp add: run_act with_keys_def on_reg_def split_def Let_def)

lemma run_with_now [exec]:
  "run (act (with_now rt f) k) s =
     (let nw = rt_now rt (sy_world s); rr = f (fst nw) (sy_reg s)
      in run (k (fst rr)) (s\<lparr>sy_world := snd nw, sy_reg := snd rr\<rparr>))"
  by (simp add: run_act with_now_def on_reg_def split_def Let_def)

lemmas op_defs [exec] = unit_op_def read_op_def

section \<open>Lifting invariants\<close>

definition in_reg :: "(registry \<Rightarrow> bool) \<Rightarrow> 'w sys \<Rightarrow> bool" where
  "in_reg I s \<longleftrightarrow> I (sy_reg s)"

lemma in_reg_simps [simp]:
  "in_reg I (s\<lparr>sy_world := w\<rparr>) \<longleftrightarrow> in_reg I s"
  "in_reg I (s\<lparr>sy_reg := r\<rparr>) \<longleftrightarrow> I r"
  "in_reg I \<lparr>sy_reg = r, sy_world = w\<rparr> \<longleftrightarrow> I r"
  by (simp_all add: in_reg_def)

lemma preserves_on_reg [inv_intro]:
  "(\<And>r. I r \<Longrightarrow> I (snd (f r))) \<Longrightarrow> (\<And>b. preserves (in_reg I) (k b)) \<Longrightarrow>
   preserves (in_reg I) (act (on_reg f) k)"
  by (rule preserves_act) (auto simp: on_reg_def in_reg_def split_def)

lemma preserves_on_world [inv_intro]:
  "(\<And>b. preserves (in_reg I) (k b)) \<Longrightarrow> preserves (in_reg I) (act (on_world f) k)"
  by (rule preserves_act) (auto simp: on_world_def in_reg_def split_def)

lemma preserves_with_keys [inv_intro]:
  "(\<And>ks r. I r \<Longrightarrow> I (snd (f ks r))) \<Longrightarrow> (\<And>b. preserves (in_reg I) (k b)) \<Longrightarrow>
   preserves (in_reg I) (act (with_keys rt f) k)"
  by (rule preserves_act) (auto simp: with_keys_def on_reg_def in_reg_def split_def)

lemma preserves_with_now [inv_intro]:
  "(\<And>now r. I r \<Longrightarrow> I (snd (f now r))) \<Longrightarrow> (\<And>b. preserves (in_reg I) (k b)) \<Longrightarrow>
   preserves (in_reg I) (act (with_now rt f) k)"
  by (rule preserves_act) (auto simp: with_now_def on_reg_def in_reg_def split_def)

text \<open>When what follows depends on what the world can answer.\<close>

lemma preserves_on_world_dep:
  "(\<And>w. preserves (in_reg I) (k (fst (f w)))) \<Longrightarrow> preserves (in_reg I) (act (on_world f) k)"
  by (rule preserves_act_dep) (auto simp: on_world_def in_reg_def split_def)

lemma preserves_if [inv_intro]:
  "(b \<Longrightarrow> preserves I p) \<Longrightarrow> (\<not> b \<Longrightarrow> preserves I q) \<Longrightarrow> preserves I (if b then p else q)"
  by simp

lemma preserves_option [inv_intro]:
  "(x = None \<Longrightarrow> preserves I p) \<Longrightarrow> (\<And>y. x = Some y \<Longrightarrow> preserves I (f y)) \<Longrightarrow>
   preserves I (case x of None \<Rightarrow> p | Some y \<Rightarrow> f y)"
  by (cases x) simp_all

lemma preserves_sum [inv_intro]:
  "(\<And>a. x = Inl a \<Longrightarrow> preserves I (f a)) \<Longrightarrow> (\<And>b. x = Inr b \<Longrightarrow> preserves I (g b)) \<Longrightarrow>
   preserves I (case x of Inl a \<Rightarrow> f a | Inr b \<Rightarrow> g b)"
  by (cases x) simp_all

lemma preserves_prod [inv_intro]:
  "(\<And>a b. x = (a, b) \<Longrightarrow> preserves I (f a b)) \<Longrightarrow> preserves I (case x of (a, b) \<Rightarrow> f a b)"
  by (cases x) simp

lemma preserves_list [inv_intro]:
  "(x = [] \<Longrightarrow> preserves I p) \<Longrightarrow> (\<And>y ys. x = y # ys \<Longrightarrow> preserves I (f y ys)) \<Longrightarrow>
   preserves I (case x of [] \<Rightarrow> p | y # ys \<Rightarrow> f y ys)"
  by (cases x) simp_all

lemma preserves_let [inv_intro]: "preserves I (f x) \<Longrightarrow> preserves I (let y = x in f y)"
  by simp

section \<open>The invariant every operation keeps\<close>

definition core_inv :: "registry \<Rightarrow> bool" where
  "core_inv r \<longleftrightarrow> reg_ok r \<and> watch_ok r \<and> token_ok r"

lemma core_inv_new [simp]: "core_inv (new_registry l)"
  by (simp add: core_inv_def)

lemma core_reserve_lease [inv_intro]: "core_inv r \<Longrightarrow> core_inv (snd (reserve_with_lease rc r))"
  unfolding core_inv_def by (intro conjI inv_intro; elim conjE; assumption)

lemma core_reserve [inv_intro]: "core_inv r \<Longrightarrow> core_inv (snd (reserve rc r))"
  unfolding snd_reserve by (rule core_reserve_lease)

lemma core_add [inv_intro]: "core_inv r \<Longrightarrow> core_inv (snd (add_record rco r))"
  unfolding core_inv_def by (intro conjI inv_intro; elim conjE; assumption)

lemma core_delete [inv_intro]: "core_inv r \<Longrightarrow> core_inv (snd (delete_record i r))"
  unfolding core_inv_def by (intro conjI inv_intro; elim conjE; assumption)

lemma core_delete_if [inv_intro]: "core_inv r \<Longrightarrow> core_inv (snd (delete_if i p r))"
  unfolding core_inv_def by (intro conjI inv_intro; elim conjE; assumption)

lemma core_rollback [inv_intro]: "core_inv r \<Longrightarrow> core_inv (rollback i r)"
  unfolding core_inv_def by (intro conjI inv_intro; elim conjE; assumption)

lemma core_update_if [inv_intro]:
  "core_inv r \<Longrightarrow> (\<And>rc. r_sandbox_id (fn rc) = r_sandbox_id rc) \<Longrightarrow> core_inv (snd (update_if i p fn r))"
  unfolding core_inv_def by (auto intro: reg_ok_update_if watch_ok_records token_ok_records)

lemma core_update [inv_intro]:
  "core_inv r \<Longrightarrow> (\<And>rc. r_sandbox_id (fn rc) = r_sandbox_id rc) \<Longrightarrow> core_inv (snd (update_record i fn r))"
  unfolding update_record_def by (rule core_update_if)

lemma core_broadcast [inv_intro]:
  "core_inv r \<Longrightarrow> event_redacted ev \<Longrightarrow> core_inv (broadcast ev r)"
  unfolding core_inv_def by (intro conjI inv_intro; elim conjE; assumption)

lemma core_broadcast_sandbox [inv_intro]: "core_inv r \<Longrightarrow> core_inv (broadcast_sandbox rc r)"
  unfolding broadcast_sandbox_def by (rule core_broadcast [OF _ sandbox_event_redacted])

lemma core_broadcast_deleted [inv_intro]: "core_inv r \<Longrightarrow> core_inv (broadcast_deleted i r)"
  unfolding broadcast_deleted_def by (rule core_broadcast) simp_all

lemma core_subscribe [inv_intro]: "core_inv r \<Longrightarrow> core_inv (snd (subscribe ks r))"
  unfolding core_inv_def by (intro conjI inv_intro; elim conjE; assumption)

lemma core_remove_watcher [inv_intro]: "core_inv r \<Longrightarrow> core_inv (remove_watcher ch r)"
  unfolding core_inv_def by (intro conjI inv_intro; elim conjE; assumption)

lemma core_receive [inv_intro]:
  "core_inv r \<Longrightarrow> ch < length (reg_chans r) \<Longrightarrow> core_inv (snd (receive ch r))"
  unfolding core_inv_def by (intro conjI inv_intro; elim conjE; assumption)

lemma core_unit_op [inv_intro]: "core_inv (f r) \<Longrightarrow> core_inv (snd (unit_op f r))"
  by (simp add: unit_op_def)

lemma core_read_op [inv_intro]: "core_inv r \<Longrightarrow> core_inv (snd (read_op f r))"
  by (simp add: read_op_def)

section \<open>Watching\<close>

text \<open>
  WatchSandboxes of both drivers: subscribe, send the snapshot, then forward events
  until the context ends, a send fails, or the registry closed the channel on a watcher
  that fell behind. The loop has no bound, so it runs for \<open>fuel\<close> rounds and answers
  \<open>None\<close> while it is still serving; a round in which the channel is empty waits.
\<close>

datatype watch_result = WatchErr goerr | WatchCtx ctx_err | WatchStatus grpc_status

definition poll_chan :: "nat \<Rightarrow> registry \<Rightarrow> watch_event option option \<times> registry" where
  "poll_chan ch r = (if ch < length (reg_chans r) then receive ch r else (None, r))"

lemma core_poll_chan [inv_intro]: "core_inv r \<Longrightarrow> core_inv (snd (poll_chan ch r))"
  unfolding poll_chan_def by (auto intro: core_receive)

primrec watch_loop :: "'w runtime \<Rightarrow> nat \<Rightarrow> nat \<Rightarrow> ('w sys, watch_result option) prog" where
  "watch_loop rt ch 0 = Ret None"
| "watch_loop rt ch (Suc fuel) =
     act (on_world (rt_done rt)) (\<lambda>done.
       case done of
         Some e \<Rightarrow> Ret (Some (WatchCtx e))
       | None \<Rightarrow>
           act (on_reg (poll_chan ch)) (\<lambda>got.
             case got of
               None \<Rightarrow> watch_loop rt ch fuel
             | Some None \<Rightarrow>
                 Ret (Some (WatchStatus (Status Aborted
                   (ErrNew ''watcher fell behind; reconnect for a fresh snapshot''))))
             | Some (Some ev) \<Rightarrow>
                 act (on_world (rt_send rt ev)) (\<lambda>err.
                   case err of
                     Some e \<Rightarrow> Ret (Some (WatchErr e))
                   | None \<Rightarrow> watch_loop rt ch fuel)))"

definition watch_sandboxes :: "'w runtime \<Rightarrow> nat \<Rightarrow> ('w sys, watch_result option) prog" where
  "watch_sandboxes rt fuel =
     act (with_keys rt subscribe) (\<lambda>(ch, snapshot).
       call
         (call
            (for_each snapshot
               (\<lambda>rc _. act (on_world (rt_send rt (EvSandbox (to_driver_sandbox rc)))) (\<lambda>err.
                  case err of
                    Some e \<Rightarrow> Ret (Inl (WatchErr e))
                  | None \<Rightarrow> Ret (Inr ()))) ())
            (\<lambda>sent. case sent of Inl e \<Rightarrow> Ret (Some e) | Inr _ \<Rightarrow> watch_loop rt ch fuel))
         (\<lambda>res. case res of
            None \<Rightarrow> Ret None
          | Some e \<Rightarrow> act (on_reg (unit_op (remove_watcher ch))) (\<lambda>_. Ret (Some e))))"

lemma watch_loop_preserves [inv_intro]: "preserves (in_reg core_inv) (watch_loop rt ch fuel)"
  by (induction fuel) (auto intro!: inv_intro)

lemma watch_sandboxes_preserves [inv_intro]: "preserves (in_reg core_inv) (watch_sandboxes rt fuel)"
  unfolding watch_sandboxes_def by (intro inv_intro)

end
