(* ===== verification/GoEncode.thy ===== *)
theory GoEncode
  imports GoText
begin

text \<open>
  Text encodings of the standard library that the bootstrap renderer uses:
  \<open>base64.StdEncoding\<close>, with the decoder that inverts it, and \<open>strconv.Quote\<close>,
  whose output is printable text on one line whatever the input.
\<close>

section \<open>Lines\<close>

definition newline :: char where
  "newline = CHR 0x0A"

text \<open>Every line ended by a newline; \<open>strings.Join(ls, "\n") + "\n"\<close> for a nonempty list.\<close>

definition unlines :: "bytestr list \<Rightarrow> bytestr" where
  "unlines ls = concat (map (\<lambda>l. l @ [newline]) ls)"

definition dquote :: char where "dquote = CHR 0x22"
definition squote :: char where "squote = CHR 0x27"
definition backslash :: char where "backslash = CHR 0x5C"

text \<open>The lines of a text: what stands between its newlines.\<close>

fun split_lines :: "bytestr \<Rightarrow> bytestr list" where
  "split_lines [] = []"
| "split_lines (c # s) =
     (if c = newline then [] # split_lines s
      else (case split_lines s of [] \<Rightarrow> [[c]] | l # ls \<Rightarrow> (c # l) # ls))"

lemma split_line: "newline \<notin> set l \<Longrightarrow> split_lines (l @ newline # s) = l # split_lines s"
  by (induction l) auto

lemma split_unlines: "\<forall>l \<in> set ls. newline \<notin> set l \<Longrightarrow> split_lines (unlines ls) = ls"
  by (induction ls) (simp_all add: unlines_def split_line)

section \<open>Base64\<close>

definition b64_alphabet :: bytestr where
  "b64_alphabet =
     ''ABCDEFGHIJKLMNOPQRSTUVWXYZabcdefghijklmnopqrstuvwxyz0123456789+/''"

definition b64_char :: "nat \<Rightarrow> char" where
  "b64_char n = b64_alphabet ! n"

definition b64_val :: "char \<Rightarrow> nat" where
  "b64_val c = length (takeWhile (\<lambda>d. d \<noteq> c) b64_alphabet)"

fun b64_enc :: "nat list \<Rightarrow> bytestr" where
  "b64_enc [] = []"
| "b64_enc [a] = [b64_char (a div 4), b64_char (a mod 4 * 16), CHR ''='', CHR ''='']"
| "b64_enc [a, b] =
     [b64_char (a div 4), b64_char (a mod 4 * 16 + b div 16), b64_char (b mod 16 * 4), CHR ''='']"
| "b64_enc (a # b # c # bs) =
     [b64_char (a div 4), b64_char (a mod 4 * 16 + b div 16),
      b64_char (b mod 16 * 4 + c div 64), b64_char (c mod 64)] @ b64_enc bs"

definition base64_encode :: "bytestr \<Rightarrow> bytestr" where
  "base64_encode s = b64_enc (map byte s)"

text \<open>The decoder of the reader, on padded groups of four.\<close>

fun b64_dec :: "bytestr \<Rightarrow> nat list" where
  "b64_dec (w # x # y # z # cs) =
     (let a = b64_val w * 4 + b64_val x div 16;
          b = b64_val x mod 16 * 16 + b64_val y div 4;
          c = b64_val y mod 4 * 64 + b64_val z
      in if y = CHR ''='' then [a] else if z = CHR ''='' then [a, b] else a # b # c # b64_dec cs)"
| "b64_dec _ = []"

definition base64_decode :: "bytestr \<Rightarrow> bytestr" where
  "base64_decode s = map chr (b64_dec s)"

lemma b64_table:
  "\<forall>n \<in> set [0..<64]. b64_val (b64_char n) = n \<and> b64_char n \<noteq> CHR ''='' \<and> solid_char (b64_char n)"
  if "solid_char = (\<lambda>c. 32 < byte c \<and> byte c < 127)"
  unfolding that by code_simp

lemma b64_val_char [simp]: "n < 64 \<Longrightarrow> b64_val (b64_char n) = n"
  using b64_table [OF refl] by simp

lemma b64_char_pad [simp]: "n < 64 \<Longrightarrow> b64_char n \<noteq> CHR ''=''"
  using b64_table [OF refl] by simp

lemma sextets [simp]:
  fixes a b c :: nat
  shows "a < 256 \<Longrightarrow> a div 4 < 64" and "a mod 4 * 16 < 64"
    and "b < 256 \<Longrightarrow> a mod 4 * 16 + b div 16 < 64" and "b mod 16 * 4 < 64"
    and "c < 256 \<Longrightarrow> b mod 16 * 4 + c div 64 < 64"
proof -
  have "a mod 4 \<le> 3" "b mod 16 \<le> 15" by presburger+
  moreover have "b < 256 \<Longrightarrow> b div 16 \<le> 15" "c < 256 \<Longrightarrow> c div 64 \<le> 3" by auto
  ultimately show "a < 256 \<Longrightarrow> a div 4 < 64" "a mod 4 * 16 < 64"
    "b < 256 \<Longrightarrow> a mod 4 * 16 + b div 16 < 64" "b mod 16 * 4 < 64"
    "c < 256 \<Longrightarrow> b mod 16 * 4 + c div 64 < 64"
    by auto
qed

lemma regroup:
  fixes a b c :: nat
  shows "(a mod 4 * 16 + b) div 16 = a mod 4 + b div 16"
    and "(a mod 4 * 16) div 16 = a mod 4"
    and "b < 16 \<Longrightarrow> (a mod 4 * 16 + b) mod 16 = b"
    and "(b mod 16 * 4 + c) div 4 = b mod 16 + c div 4" and "(b mod 16 * 4) div 4 = b mod 16"
    and "c < 4 \<Longrightarrow> (b mod 16 * 4 + c) mod 4 = c"
    and "a div 4 * 4 + a mod 4 = a" and "b div 16 * 16 + b mod 16 = b" and "c div 64 * 64 + c mod 64 = c"
  by simp_all

lemma b64_dec_enc: "\<forall>b \<in> set bs. b < 256 \<Longrightarrow> b64_dec (b64_enc bs) = bs"
proof (induction bs rule: b64_enc.induct)
  case (2 a)
  then show ?case by (simp add: regroup)
next
  case (3 a b)
  then have "b div 16 < 16" by auto
  with 3 show ?case by (simp add: regroup)
next
  case (4 a b c bs)
  then have "b div 16 < 16" "c div 64 < 4" by auto
  with 4 show ?case by (simp add: regroup)
qed simp

lemma base64_roundtrip: "base64_decode (base64_encode s) = s"
  unfolding base64_decode_def base64_encode_def
  by (subst b64_dec_enc) (auto simp: byte_less o_def)

lemma b64_char_solid: "n < 64 \<Longrightarrow> 32 < byte (b64_char n) \<and> byte (b64_char n) < 127"
  using b64_table [OF refl] by simp

lemma b64_enc_solid: "\<forall>b \<in> set bs. b < 256 \<Longrightarrow> c \<in> set (b64_enc bs) \<Longrightarrow> 32 < byte c \<and> byte c < 127"
proof (induction bs rule: b64_enc.induct)
  case (2 a)
  then have "c = b64_char (a div 4) \<or> c = b64_char (a mod 4 * 16) \<or> c = CHR ''=''" "a < 256" by auto
  then show ?case using b64_char_solid by (auto simp: byte_def)
next
  case (3 a b)
  then have "c = b64_char (a div 4) \<or> c = b64_char (a mod 4 * 16 + b div 16) \<or>
      c = b64_char (b mod 16 * 4) \<or> c = CHR ''=''" "a < 256" "b < 256" by auto
  then show ?case using b64_char_solid by (auto simp: byte_def)
next
  case (4 a b x bs)
  then have "c = b64_char (a div 4) \<or> c = b64_char (a mod 4 * 16 + b div 16) \<or>
      c = b64_char (b mod 16 * 4 + x div 64) \<or> c = b64_char (x mod 64) \<or> c \<in> set (b64_enc bs)"
    "a < 256" "b < 256" "x < 256" by auto
  then show ?case using b64_char_solid 4 by (auto simp: byte_def)
qed simp

lemma base64_one_line: "newline \<notin> set (base64_encode s)"
  using b64_enc_solid [of "map byte s" newline]
  by (auto simp: base64_encode_def byte_less newline_def byte_def)

section \<open>strconv.Quote\<close>

text \<open>
  \<open>unicode.IsPrint\<close> of the runes above ASCII is a table of the library: it is the
  argument \<open>tbl\<close>.
\<close>

definition is_print :: "(nat \<Rightarrow> bool) \<Rightarrow> nat \<Rightarrow> bool" where
  "is_print tbl r = (if r < 128 then 32 \<le> r \<and> r < 127 else tbl r)"

definition hex_char :: "nat \<Rightarrow> char" where
  "hex_char d = ''0123456789abcdef'' ! d"

fun hex_digits :: "nat \<Rightarrow> nat \<Rightarrow> bytestr" where
  "hex_digits 0 n = []"
| "hex_digits (Suc w) n = hex_digits w (n div 16) @ [hex_char (n mod 16)]"

definition quote_rune :: "(nat \<Rightarrow> bool) \<Rightarrow> nat \<Rightarrow> nat list \<Rightarrow> bytestr" where
  "quote_rune tbl r raw =
     (if r = 34 \<or> r = 92 then [backslash, chr r]
      else if is_print tbl r then map chr raw
      else if r = 7 then [backslash, CHR ''a'']
      else if r = 8 then [backslash, CHR ''b'']
      else if r = 12 then [backslash, CHR ''f'']
      else if r = 10 then [backslash, CHR ''n'']
      else if r = 13 then [backslash, CHR ''r'']
      else if r = 9 then [backslash, CHR ''t'']
      else if r = 11 then [backslash, CHR ''v'']
      else if r < 32 \<or> r = 127 then [backslash, CHR ''x''] @ hex_digits 2 r
      else if r < 65536 then [backslash, CHR ''u''] @ hex_digits 4 r
      else [backslash, CHR ''U''] @ hex_digits 8 r)"

function quote_body :: "(nat \<Rightarrow> bool) \<Rightarrow> nat list \<Rightarrow> bytestr" where
  "quote_body tbl [] = []"
| "quote_body tbl (b # bs) =
     (case decode_rune (b # bs) of (r, n) \<Rightarrow>
        (if n = 1 \<and> r = rune_error then [backslash, CHR ''x''] @ hex_digits 2 b
         else quote_rune tbl r (take n (b # bs))) @
        quote_body tbl (drop n (b # bs)))"
  by pat_completeness auto
termination
proof (relation "measure (length \<circ> snd)")
  fix tbl :: "nat \<Rightarrow> bool" and b bs r n
  assume "(r, n) = decode_rune (b # bs)"
  then show "((tbl, drop n (b # bs)), tbl, b # bs) \<in> measure (length \<circ> snd)"
    using decode_rune_size [of "b # bs"] by (cases "decode_rune (b # bs)") auto
qed simp

definition quote :: "(nat \<Rightarrow> bool) \<Rightarrow> bytestr \<Rightarrow> bytestr" where
  "quote tbl s = [dquote] @ quote_body tbl (map byte s) @ [dquote]"

text \<open>Every byte of the output is graphic ASCII, a blank, or above ASCII.\<close>

definition graphic :: "char \<Rightarrow> bool" where
  "graphic c \<longleftrightarrow> 32 \<le> byte c \<and> byte c \<noteq> 127"

lemma graphic_chr [simp]: "n < 256 \<Longrightarrow> graphic (chr n) \<longleftrightarrow> 32 \<le> n \<and> n \<noteq> 127"
  by (simp add: graphic_def)

lemma graphic_lits [simp]:
  "graphic backslash" "graphic dquote" "graphic CHR ''a''" "graphic CHR ''b''" "graphic CHR ''f''"
  "graphic CHR ''n''" "graphic CHR ''r''" "graphic CHR ''t''" "graphic CHR ''v''"
  "graphic CHR ''x''" "graphic CHR ''u''" "graphic CHR ''U''" "\<not> graphic newline"
  by code_simp+

lemma hex_char_graphic: "d < 16 \<Longrightarrow> graphic (hex_char d)"
proof -
  have "\<forall>d \<in> set [0..<16]. graphic (hex_char d)" by code_simp
  then show "d < 16 \<Longrightarrow> graphic (hex_char d)" by simp
qed

lemma hex_digits_graphic: "\<forall>c \<in> set (hex_digits w n). graphic c"
  by (induction w n rule: hex_digits.induct) (auto simp: hex_char_graphic)

lemma decode_rune_raw:
  assumes "decode_rune (b # bs) = (r, n)" and "\<not> (n = 1 \<and> r = rune_error)"
  shows "b < 128 \<and> r = b \<and> n = 1 \<or> 128 \<le> r \<and> (\<forall>x \<in> set (take n (b # bs)). 128 \<le> x)"
proof (cases "b < 128")
  case True
  with assms show ?thesis by simp
next
  case False
  with assms show ?thesis
    by (auto simp: cont_def second_ok_def take_Cons' split: if_split_asm list.split_asm)
qed

lemma quote_rune_graphic:
  assumes "b < 128 \<and> r = b \<and> raw = [b] \<or> 128 \<le> r \<and> (\<forall>x \<in> set raw. 128 \<le> x)"
    and "\<forall>x \<in> set raw. x < 256"
  shows "\<forall>c \<in> set (quote_rune tbl r raw). graphic c"
  using assms hex_digits_graphic
  by (auto simp: quote_rune_def is_print_def)

lemma quote_body_graphic: "\<forall>b \<in> set bs. b < 256 \<Longrightarrow> \<forall>c \<in> set (quote_body tbl bs). graphic c"
proof (induction tbl bs rule: quote_body.induct)
  case (1 tbl)
  then show ?case by simp
next
  case (2 tbl b bs)
  obtain r n where rn: "decode_rune (b # bs) = (r, n)" by fastforce
  have d: "\<forall>x \<in> set (drop n (b # bs)). x < 256" and t: "\<forall>x \<in> set (take n (b # bs)). x < 256"
    using "2.prems" by (meson in_set_dropD, meson in_set_takeD)
  have IH: "\<forall>c \<in> set (quote_body tbl (drop n (b # bs))). graphic c"
    using "2.IH" rn d by simp
  have "\<forall>c \<in> set (quote_rune tbl r (take n (b # bs))). graphic c"
    if "\<not> (n = 1 \<and> r = rune_error)"
    using decode_rune_raw [OF rn that] t by (intro quote_rune_graphic) auto
  then show ?case using IH hex_digits_graphic [of 2 b]
    by (simp add: rn del: decode_rune.simps hex_digits.simps) (simp add: ball_Un)
qed

lemma quote_graphic: "\<forall>c \<in> set (quote tbl s). graphic c"
  using quote_body_graphic [of "map byte s" tbl]
  by (auto simp: quote_def byte_less)

lemma quote_one_line: "newline \<notin> set (quote tbl s)"
  using quote_graphic [of tbl s] graphic_lits(13) by blast

end
