(* ===== verification/Bootstrap.thy ===== *)
theory Bootstrap
  imports GoEncode GoTime Errors "HOL-Library.Sublist"
begin

text \<open>
  pkg/bootstrap: the transport configuration, its validation, and the cloud-init
  fragment rendered from it. The certificate checks of crypto/tls and crypto/x509 and
  the URL parser of net/url are the fields of \<open>transport_lib\<close>; a certificate is its
  DER text, a pool the PEM text it was built from. The lemmas say what a valid
  configuration is and that the fragment reads back as exactly the files meant,
  whatever bytes the parameters hold.
\<close>

section \<open>Configuration\<close>

definition tls_ca_path :: bytestr where "tls_ca_path = ''/etc/openshell/tls/client/ca.crt''"
definition tls_cert_path :: bytestr where "tls_cert_path = ''/etc/openshell/tls/client/tls.crt''"
definition tls_key_path :: bytestr where "tls_key_path = ''/etc/openshell/tls/client/tls.key''"
definition sandbox_token_path :: bytestr where "sandbox_token_path = ''/etc/openshell/auth/sandbox.jwt''"
definition environment_path :: bytestr where "environment_path = ''/etc/openshell/supervisor.env''"
definition max_tls_file_size :: nat where "max_tls_file_size = 262144"

record transport_config =
  t_gateway_endpoint :: bytestr
  t_ca_cert_pem :: bytestr
  t_client_cert_pem :: bytestr
  t_client_key_pem :: bytestr
  t_insecure :: bool

definition zero_transport :: transport_config where
  "zero_transport =
     \<lparr>t_gateway_endpoint = [], t_ca_cert_pem = [], t_client_cert_pem = [], t_client_key_pem = [],
      t_insecure = False\<rparr>"

record security_params =
  sec_sandbox_id :: bytestr
  sec_sandbox_token :: bytestr
  sec_log_level :: bytestr
  sec_max_lifetime :: bytestr

text \<open>The parts of a parsed URL that Validate reads.\<close>

record url =
  u_scheme :: bytestr
  u_has_user :: bool
  u_hostname :: bytestr
  u_port :: bytestr
  u_escaped_path :: bytestr
  u_raw_query :: bytestr
  u_fragment :: bytestr

record transport_lib =
  parse_request_uri :: "bytestr \<Rightarrow> url option"
  append_certs :: "bytestr \<Rightarrow> bool"
  x509_key_pair :: "bytestr \<Rightarrow> bytestr \<Rightarrow> goerr + bytestr list"
  parse_certificate :: "bytestr \<Rightarrow> goerr option"
  verify_client_cert :: "bytestr \<Rightarrow> bytestr \<Rightarrow> bytestr list \<Rightarrow> goerr option"

text \<open>\<open>strconv.Atoi\<close>: an optional sign, decimal digits, a value that fits 64 bits.\<close>

definition atoi :: "bytestr \<Rightarrow> int option" where
  "atoi s =
     (let (neg, t) = (case s of
            c # r \<Rightarrow> if c = CHR ''-'' then (True, r) else if c = CHR ''+'' then (False, r) else (False, s)
          | [] \<Rightarrow> (False, []));
          v = (if neg then - int (num t) else int (num t))
      in if t = [] \<or> (\<exists>c \<in> set t. \<not> is_digit c) then None
         else if min_int64 \<le> v \<and> v \<le> max_int64 then Some v else None)"

section \<open>Validate\<close>

text \<open>The endpoint part, up to the scheme.\<close>

definition validate_endpoint :: "transport_lib \<Rightarrow> transport_config \<Rightarrow> goerr option" where
  "validate_endpoint lib c =
     (case parse_request_uri lib (t_gateway_endpoint c) of
        None \<Rightarrow> Some (ErrNew ''gateway endpoint must be an absolute URL'')
      | Some u \<Rightarrow>
          if u_hostname u = [] then Some (ErrNew ''gateway endpoint must be an absolute URL'')
          else if u_has_user u \<or> (u_escaped_path u \<noteq> [] \<and> u_escaped_path u \<noteq> ''/'') \<or>
                  u_raw_query u \<noteq> [] \<or> u_fragment u \<noteq> []
          then Some (ErrNew ''gateway endpoint must not contain credentials, a path, query parameters, or a fragment'')
          else if u_port u \<noteq> [] \<and>
                  (case atoi (u_port u) of None \<Rightarrow> True | Some v \<Rightarrow> v < 1 \<or> v > 65535)
          then Some (ErrNew ''gateway endpoint port must be between 1 and 65535'')
          else if u_scheme u \<noteq> (if t_insecure c then ''http'' else ''https'')
          then Some (ErrFmt ''gateway endpoint must use %s when insecure=%t''
                 [AStr (if t_insecure c then ''http'' else ''https''),
                  AStr (if t_insecure c then ''true'' else ''false'')])
          else None)"

text \<open>
  The certificate part. X509KeyPair gives at least one certificate; indexing an empty
  chain would panic.
\<close>

definition validate_certs :: "transport_lib \<Rightarrow> transport_config \<Rightarrow> goerr option" where
  "validate_certs lib c =
     (if t_ca_cert_pem c = [] \<or> \<not> append_certs lib (t_ca_cert_pem c)
      then Some (ErrNew ''gateway CA certificate is missing or is not valid PEM'')
      else
        (case x509_key_pair lib (t_client_cert_pem c) (t_client_key_pem c) of
           Inl e \<Rightarrow> Some (ErrWrap ''gateway client certificate/key are invalid or do not match: %w'' [] e)
         | Inr [] \<Rightarrow> Some (ErrNew ''panic: index out of range'')
         | Inr (leaf # chain) \<Rightarrow>
             (case parse_certificate lib leaf of
                Some e \<Rightarrow> Some (ErrWrap ''parse gateway client certificate: %w'' [] e)
              | None \<Rightarrow>
                  (case first_some (map (parse_certificate lib) chain) of
                     Some e \<Rightarrow> Some (ErrWrap ''parse gateway client certificate chain: %w'' [] e)
                   | None \<Rightarrow>
                       (case verify_client_cert lib leaf (t_ca_cert_pem c) chain of
                          Some e \<Rightarrow> Some (ErrWrap
                            ''gateway client certificate is not valid for the configured CA: %w'' [] e)
                        | None \<Rightarrow> None)))))"

definition validate_transport :: "transport_lib \<Rightarrow> transport_config \<Rightarrow> goerr option" where
  "validate_transport lib c =
     (case validate_endpoint lib c of
        Some e \<Rightarrow> Some e
      | None \<Rightarrow> if t_insecure c then None else validate_certs lib c)"

section \<open>Loading\<close>

text \<open>\<open>os.ReadFile\<close> is the argument \<open>read_file\<close>. A failure gives nil contents.\<close>

definition read_required_file ::
  "(bytestr \<Rightarrow> goerr + bytestr) \<Rightarrow> bytestr \<Rightarrow> bytestr \<Rightarrow> goerr list \<Rightarrow> bytestr \<times> goerr list" where
  "read_required_file read_file nm path errs =
     (if path = []
      then ([], errs @ [ErrFmt ''%s path is required unless --insecure is set'' [AStr nm]])
      else
        (case read_file path of
           Inl e \<Rightarrow> ([], errs @ [ErrWrap ''read %s %q: %w'' [AStr nm, AStr path] e])
         | Inr contents \<Rightarrow>
             if length contents > max_tls_file_size
             then ([], errs @ [ErrFmt ''%s %q exceeds %d bytes''
                     [AStr nm, AStr path, AInt (int max_tls_file_size)]])
             else (contents, errs)))"

definition load_transport_config ::
  "transport_lib \<Rightarrow> (bytestr \<Rightarrow> goerr + bytestr) \<Rightarrow> bytestr \<Rightarrow> bytestr \<Rightarrow> bytestr \<Rightarrow> bytestr \<Rightarrow>
   bool \<Rightarrow> goerr + transport_config" where
  "load_transport_config lib read_file endpoint ca_path cert_path key_path insecure =
     (let cfg0 = zero_transport\<lparr>t_gateway_endpoint := endpoint, t_insecure := insecure\<rparr>;
          (cfg, errs) =
            (if insecure then (cfg0, [])
             else
               (let (ca, e1) = read_required_file read_file ''gateway CA certificate'' ca_path [];
                    (cert, e2) = read_required_file read_file ''gateway client certificate'' cert_path e1;
                    (key, e3) = read_required_file read_file ''gateway client key'' key_path e2
                in (cfg0\<lparr>t_ca_cert_pem := ca, t_client_cert_pem := cert, t_client_key_pem := key\<rparr>, e3)))
      in if errs \<noteq> [] then Inl (ErrJoin errs)
         else (case validate_transport lib cfg of Some e \<Rightarrow> Inl e | None \<Rightarrow> Inr cfg))"

section \<open>RenderSecurityBlock\<close>

text \<open>The checks of the parameter map, visited in the order \<open>ks\<close>; the first failure returns.\<close>

definition sec_fields :: "security_params \<Rightarrow> (bytestr \<times> bytestr) list" where
  "sec_fields p =
     [(''sandbox ID'', sec_sandbox_id p), (''sandbox token'', sec_sandbox_token p),
      (''log level'', sec_log_level p), (''max lifetime'', sec_max_lifetime p)]"

definition field_error :: "bytestr \<Rightarrow> bytestr \<Rightarrow> goerr option" where
  "field_error nm value =
     (if value = [] \<and> nm \<noteq> ''log level'' then Some (ErrFmt ''%s is required'' [AStr nm])
      else if has_control value
      then Some (ErrFmt ''%s contains a forbidden control character'' [AStr nm])
      else None)"

definition params_error :: "bytestr list \<Rightarrow> security_params \<Rightarrow> goerr option" where
  "params_error ks p =
     first_some
       (map (\<lambda>nm. case map_of (sec_fields p) nm of
                    None \<Rightarrow> None | Some value \<Rightarrow> field_error nm value) ks)"

definition env_lines :: "(nat \<Rightarrow> bool) \<Rightarrow> transport_config \<Rightarrow> security_params \<Rightarrow> bytestr list" where
  "env_lines tbl c p =
     [''OPENSHELL_SANDBOX_ID='' @ quote tbl (sec_sandbox_id p),
      ''OPENSHELL_SANDBOX_TOKEN_FILE='' @ quote tbl sandbox_token_path,
      ''OPENSHELL_GATEWAY_ENDPOINT='' @ quote tbl (t_gateway_endpoint c),
      ''OPENSHELL_ENDPOINT='' @ quote tbl (t_gateway_endpoint c),
      ''OPENSHELL_LOG_LEVEL='' @ quote tbl (sec_log_level p),
      ''HTTP_PROXY='' @ quote tbl (t_gateway_endpoint c),
      ''HTTPS_PROXY='' @ quote tbl (t_gateway_endpoint c)] @
     (if t_insecure c then []
      else [''OPENSHELL_TLS_CA='' @ quote tbl tls_ca_path,
            ''OPENSHELL_TLS_CERT='' @ quote tbl tls_cert_path,
            ''OPENSHELL_TLS_KEY='' @ quote tbl tls_key_path])"

record sec_file =
  f_path :: bytestr
  f_content :: bytestr
  f_permissions :: bytestr

definition file_of :: "bytestr \<Rightarrow> bytestr \<Rightarrow> bytestr \<Rightarrow> sec_file" where
  "file_of p c m = \<lparr>f_path = p, f_content = c, f_permissions = m\<rparr>"

definition security_files ::
  "(nat \<Rightarrow> bool) \<Rightarrow> transport_config \<Rightarrow> security_params \<Rightarrow> sec_file list" where
  "security_files tbl c p =
     [file_of environment_path (unlines (env_lines tbl c p)) ''0600'',
      file_of sandbox_token_path (sec_sandbox_token p @ [newline]) ''0600''] @
     (if t_insecure c then []
      else [file_of tls_ca_path (t_ca_cert_pem c) ''0644'',
            file_of tls_cert_path (t_client_cert_pem c) ''0600'',
            file_of tls_key_path (t_client_key_pem c) ''0600''])"

text \<open>One Fprintf of the loop: an entry of the YAML list and a blank line.\<close>

definition entry_lines :: "sec_file \<Rightarrow> bytestr list" where
  "entry_lines f =
     [''  - path: '' @ f_path f, ''    encoding: b64'',
      ''    content: '' @ base64_encode (f_content f), ''    owner: root:root'',
      ''    permissions: '' @ [squote] @ f_permissions f @ [squote], []]"

definition render_files :: "sec_file list \<Rightarrow> bytestr" where
  "render_files fs = trim_suffix (concat (map (\<lambda>f. unlines (entry_lines f)) fs)) [newline]"

definition render_security_block ::
  "transport_lib \<Rightarrow> (nat \<Rightarrow> bool) \<Rightarrow> bytestr list \<Rightarrow> transport_config \<Rightarrow> security_params \<Rightarrow>
   goerr + bytestr" where
  "render_security_block lib tbl ks c p =
     (case validate_transport lib c of
        Some e \<Rightarrow> Inl e
      | None \<Rightarrow>
          (case params_error ks p of
             Some e \<Rightarrow> Inl e
           | None \<Rightarrow> Inr (render_files (security_files tbl c p))))"

section \<open>Reading the fragment back\<close>

text \<open>A reader of the fragment's lines, as cloud-init's: six lines an entry.\<close>

fun read_entries :: "bytestr list \<Rightarrow> sec_file list option" where
  "read_entries (l1 # l2 # l3 # l4 # l5 # l6 # ls) =
     (if prefix ''  - path: '' l1 \<and> l2 = ''    encoding: b64'' \<and> prefix ''    content: '' l3 \<and>
         l4 = ''    owner: root:root'' \<and> prefix (''    permissions: '' @ [squote]) l5 \<and> l6 = []
      then map_option (Cons (file_of (drop 10 l1) (base64_decode (drop 13 l3)) (butlast (drop 18 l5))))
             (read_entries ls)
      else None)"
| "read_entries [] = Some []"
| "read_entries _ = None"

lemma read_entry: "read_entries (entry_lines f @ ls) = map_option (Cons f) (read_entries ls)"
  by (cases f) (simp add: entry_lines_def base64_roundtrip file_of_def)

lemma read_entries_all: "read_entries (concat (map entry_lines fs)) = Some fs"
  by (induction fs) (simp_all add: read_entry)

definition plain_file :: "sec_file \<Rightarrow> bool" where
  "plain_file f \<longleftrightarrow> newline \<notin> set (f_path f) \<and> newline \<notin> set (f_permissions f)"

lemma unlines_concat: "concat (map (\<lambda>f. unlines (g f)) fs) = unlines (concat (map g fs))"
  by (induction fs) (simp_all add: unlines_def)

lemma entry_plain: "plain_file f \<Longrightarrow> l \<in> set (entry_lines f) \<Longrightarrow> newline \<notin> set l"
  using base64_one_line [of "f_content f"]
  by (auto simp: entry_lines_def plain_file_def newline_def squote_def)

text \<open>The text reads back as the files, given the newline TrimSuffix removed.\<close>

lemma render_files_lines:
  "fs \<noteq> [] \<Longrightarrow> render_files fs @ [newline] = unlines (concat (map entry_lines fs))"
proof -
  assume "fs \<noteq> []"
  then obtain gs g where fs: "fs = gs @ [g]" by (metis rev_exhaust)
  have "unlines (concat (map entry_lines fs)) =
      unlines (concat (map entry_lines gs) @ butlast (entry_lines g)) @ [newline]"
    by (simp add: fs unlines_def entry_lines_def)
  then have "has_suffix (unlines (concat (map entry_lines fs))) [newline]" by simp
  then show ?thesis unfolding render_files_def unlines_concat by (rule trim_suffix_same)
qed

lemma render_files_reads:
  assumes "\<forall>f \<in> set fs. plain_file f" and "fs \<noteq> []"
  shows "read_entries (split_lines (render_files fs @ [newline])) = Some fs"
proof -
  have "\<forall>l \<in> set (concat (map entry_lines fs)). newline \<notin> set l" using assms(1) entry_plain by auto
  then show ?thesis by (simp add: render_files_lines [OF assms(2)] split_unlines read_entries_all)
qed

lemma security_files_plain: "\<forall>f \<in> set (security_files tbl c p). plain_file f"
  by (simp add: security_files_def file_of_def plain_file_def newline_def environment_path_def
      sandbox_token_path_def tls_ca_path_def tls_cert_path_def tls_key_path_def)

lemma security_files_not_Nil: "security_files tbl c p \<noteq> []"
  by (simp add: security_files_def)

lemma render_security_block_reads_core:
  "render_security_block lib tbl ks c p = Inr out \<Longrightarrow>
   read_entries (split_lines (out @ [newline])) = Some (security_files tbl c p)"
  using render_files_reads [OF security_files_plain security_files_not_Nil]
  by (auto simp: render_security_block_def split: option.splits)

section \<open>What the parameters cannot do\<close>

text \<open>Each variable of the environment file is one line, whatever the parameters.\<close>

lemma env_lines_one_line: "l \<in> set (env_lines tbl c p) \<Longrightarrow> newline \<notin> set l"
  using quote_one_line by (auto simp: env_lines_def newline_def split: if_splits)

lemma env_file_lines: "split_lines (unlines (env_lines tbl c p)) = env_lines tbl c p"
  using env_lines_one_line by (intro split_unlines) blast

lemma first_some_None: "first_some xs = None \<longleftrightarrow> (\<forall>x \<in> set xs. x = None)"
  by (induction xs rule: first_some.induct) auto

lemma params_error_None:
  assumes "set ks = fst ` set (sec_fields p)"
  shows "params_error ks p = None \<longleftrightarrow>
    sec_sandbox_id p \<noteq> [] \<and> sec_sandbox_token p \<noteq> [] \<and> sec_max_lifetime p \<noteq> [] \<and>
    \<not> has_control (sec_sandbox_id p) \<and> \<not> has_control (sec_sandbox_token p) \<and>
    \<not> has_control (sec_log_level p) \<and> \<not> has_control (sec_max_lifetime p)"
  unfolding params_error_def first_some_None
  by (auto simp: assms sec_fields_def field_error_def)

lemma render_ok_iff:
  assumes "set ks = fst ` set (sec_fields p)"
  shows "(\<exists>out. render_security_block lib tbl ks c p = Inr out) \<longleftrightarrow>
    validate_transport lib c = None \<and>
    sec_sandbox_id p \<noteq> [] \<and> sec_sandbox_token p \<noteq> [] \<and> sec_max_lifetime p \<noteq> [] \<and>
    \<not> has_control (sec_sandbox_id p) \<and> \<not> has_control (sec_sandbox_token p) \<and>
    \<not> has_control (sec_log_level p) \<and> \<not> has_control (sec_max_lifetime p)"
  using params_error_None [OF assms]
  by (auto simp: render_security_block_def split: option.splits)

text \<open>The token file holds the token on its only line.\<close>

lemma token_file_line: "\<not> has_control t \<Longrightarrow> split_lines (t @ [newline]) = [t]"
  using not_control_no_newline [of t] split_line [of t "[]"] by (simp add: newline_def)

section \<open>Plain text only where insecure is set\<close>

lemma validate_transport_scheme:
  assumes "validate_transport lib c = None"
  shows "\<exists>u. parse_request_uri lib (t_gateway_endpoint c) = Some u \<and> u_hostname u \<noteq> [] \<and>
    u_scheme u = (if t_insecure c then ''http'' else ''https'') \<and> \<not> u_has_user u \<and>
    u_raw_query u = [] \<and> u_fragment u = [] \<and> (u_escaped_path u = [] \<or> u_escaped_path u = ''/'') \<and>
    (u_port u \<noteq> [] \<longrightarrow> (\<exists>v. atoi (u_port u) = Some v \<and> 1 \<le> v \<and> v \<le> 65535))"
  using assms
  by (auto simp: validate_transport_def validate_endpoint_def
      split: option.split_asm if_split_asm)

lemma validate_transport_tls:
  assumes "validate_transport lib c = None" and "\<not> t_insecure c"
  shows "append_certs lib (t_ca_cert_pem c) \<and>
    (\<exists>leaf chain. x509_key_pair lib (t_client_cert_pem c) (t_client_key_pem c) = Inr (leaf # chain) \<and>
       verify_client_cert lib leaf (t_ca_cert_pem c) chain = None)"
  using assms
  by (auto simp: validate_transport_def validate_certs_def
      split: option.split_asm if_split_asm sum.split_asm list.split_asm)

lemma load_transport_valid:
  "load_transport_config lib rd ep ca cert key insecure = Inr c \<Longrightarrow>
   validate_transport lib c = None \<and> t_gateway_endpoint c = ep \<and> t_insecure c = insecure"
  by (auto simp: load_transport_config_def zero_transport_def Let_def split_def
      split: option.split_asm if_split_asm)

end
