(* ===== verification/UserData.thy ===== *)
theory UserData
  imports Bootstrap
begin

text \<open>
  drivers/ec2/userdata.go and drivers/kubevirt/cloudinit.go: the cloud-init documents.
  The templates are constants whose two actions substitute strings verbatim, so parsing
  and executing them cannot fail and execution is concatenation. A reader of the
  documents, independent of the templates, says when one powers its machine off by itself
  and which files it carries; the lemmas show that the rendered ones do, and bound their size.
\<close>

section \<open>EC2\<close>

definition max_ec2_user_data_size :: nat where
  "max_ec2_user_data_size = 16384"

record user_data_params =
  ud_transport :: transport_config
  ud_sandbox_id :: bytestr
  ud_sandbox_token :: bytestr
  ud_log_level :: bytestr
  ud_max_lifetime :: bytestr

definition shutdown_line :: bytestr where
  "shutdown_line =
     ''      ExecStart=/usr/sbin/shutdown -h now '' @ [dquote] @
     ''openshell: max instance lifetime reached'' @ [dquote]"

definition mode_line :: bytestr where
  "mode_line = ''    permissions: '' @ [squote] @ ''0644'' @ [squote]"

text \<open>The lines of the template before and after the timer's trigger line.\<close>

definition ec2_timer_head :: "bytestr list" where
  "ec2_timer_head =
     [[],
      ''  - path: /etc/systemd/system/openshell-self-destruct.timer'',
      ''    content: |'',
      ''      [Unit]'',
      ''      Description=Terminate instance after max lifetime'',
      ''      [Timer]'']"

definition ec2_timer_tail :: "bytestr list" where
  "ec2_timer_tail =
     [''      Unit=openshell-self-destruct.service'',
      ''      [Install]'',
      ''      WantedBy=timers.target'',
      ''    owner: root:root'',
      mode_line,
      [],
      ''  - path: /etc/systemd/system/openshell-self-destruct.service'',
      ''    content: |'',
      ''      [Unit]'',
      ''      Description=Self-terminate EC2 instance (max lifetime exceeded)'',
      ''      [Service]'',
      ''      Type=oneshot'',
      shutdown_line,
      ''    owner: root:root'',
      mode_line,
      [],
      ''runcmd:'',
      ''  - systemctl daemon-reload'',
      ''  - systemctl enable --now openshell-self-destruct.timer'',
      ''  - systemctl enable --now openshell-supervisor.service'']"

definition ec2_template :: "bytestr \<Rightarrow> bytestr \<Rightarrow> bytestr" where
  "ec2_template security_block max_lifetime =
     unlines [''#cloud-config'', ''write_files:''] @ security_block @
     unlines ([] # ec2_timer_head @ (''      OnBootSec='' @ max_lifetime) # ec2_timer_tail)"

definition render_user_data ::
  "transport_lib \<Rightarrow> (nat \<Rightarrow> bool) \<Rightarrow> bytestr list \<Rightarrow> user_data_params \<Rightarrow> goerr + bytestr" where
  "render_user_data lib tbl ks p =
     (case render_security_block lib tbl ks (ud_transport p)
             \<lparr>sec_sandbox_id = ud_sandbox_id p, sec_sandbox_token = ud_sandbox_token p,
              sec_log_level = ud_log_level p, sec_max_lifetime = ud_max_lifetime p\<rparr> of
        Inl e \<Rightarrow> Inl e
      | Inr block \<Rightarrow>
          (let buf = ec2_template block (ud_max_lifetime p)
           in if length buf > max_ec2_user_data_size
              then Inl (ErrFmt ''userdata is %d bytes; EC2 limit is %d bytes''
                     [AInt (int (length buf)), AInt (int max_ec2_user_data_size)])
              else Inr (base64_encode buf)))"

section \<open>KubeVirt\<close>

definition max_kubevirt_cloud_init_size :: nat where
  "max_kubevirt_cloud_init_size = 921600"

record cloud_init_params =
  ci_transport :: transport_config
  ci_sandbox_id :: bytestr
  ci_sandbox_token :: bytestr
  ci_log_level :: bytestr
  ci_max_lifetime :: bytestr
  ci_expires_at :: time

definition kv_timer_head :: "bytestr list" where
  "kv_timer_head =
     [[],
      ''  - path: /etc/systemd/system/openshell-self-destruct.timer'',
      ''    content: |'',
      ''      [Unit]'',
      ''      Description=Terminate VM after max lifetime'',
      ''      [Timer]'']"

definition kv_timer_tail :: "bytestr list" where
  "kv_timer_tail =
     [''      Persistent=true'',
      ''      Unit=openshell-self-destruct.service'',
      ''      [Install]'',
      ''      WantedBy=timers.target'',
      ''    owner: root:root'',
      mode_line,
      [],
      ''  - path: /etc/systemd/system/openshell-self-destruct.service'',
      ''    content: |'',
      ''      [Unit]'',
      ''      Description=Self-terminate VM (max lifetime exceeded)'',
      ''      [Service]'',
      ''      Type=oneshot'',
      shutdown_line,
      ''    owner: root:root'',
      mode_line,
      [],
      ''runcmd:'',
      ''  - systemctl daemon-reload'',
      ''  - systemctl enable --now openshell-self-destruct.timer'',
      ''  - systemctl enable --now openshell-supervisor.service'']"

definition kv_template :: "bytestr \<Rightarrow> bytestr \<Rightarrow> bytestr" where
  "kv_template security_block expires_at =
     unlines [''#cloud-config'', ''write_files:''] @ security_block @
     unlines ([] # kv_timer_head @ (''      OnCalendar='' @ expires_at) # kv_timer_tail)"

definition render_cloud_init ::
  "transport_lib \<Rightarrow> (nat \<Rightarrow> bool) \<Rightarrow> bytestr list \<Rightarrow> cloud_init_params \<Rightarrow> goerr + bytestr" where
  "render_cloud_init lib tbl ks p =
     (if is_zero (ci_expires_at p) then Inl (ErrFmt ''self-destruct expiry is required'' [])
      else
        (case render_security_block lib tbl ks (ci_transport p)
                \<lparr>sec_sandbox_id = ci_sandbox_id p, sec_sandbox_token = ci_sandbox_token p,
                 sec_log_level = ci_log_level p, sec_max_lifetime = ci_max_lifetime p\<rparr> of
           Inl e \<Rightarrow> Inl e
         | Inr block \<Rightarrow>
             (let buf = kv_template block (format_calendar (ci_expires_at p))
              in if length buf > max_kubevirt_cloud_init_size
                 then Inl (ErrFmt ''cloud-init is %d bytes; safe Kubernetes Secret limit is %d bytes''
                        [AInt (int (length buf)), AInt (int max_kubevirt_cloud_init_size)])
                 else Inr buf)))"

section \<open>A reader of the documents\<close>

text \<open>
  What cloud-init and systemd make of a document, independent of the templates. A file of
  the write_files list has its path on one line and, in these documents, either base64 or
  literal content; the lines of a literal block are those indented deeper than its key.
\<close>

primrec literal_files :: "bytestr list \<Rightarrow> (bytestr \<times> bytestr list) list" where
  "literal_files [] = []"
| "literal_files (l # ls) =
     (if prefix ''  - path: '' l \<and> ls \<noteq> [] \<and> hd ls = ''    content: |''
      then [(drop 10 l, map (drop 6) (takeWhile (prefix ''      '') (tl ls)))] else []) @
     literal_files ls"

definition written_paths :: "bytestr list \<Rightarrow> bytestr list" where
  "written_paths ls = map (drop 10) (filter (prefix ''  - path: '') ls)"

definition run_commands :: "bytestr list \<Rightarrow> bytestr list" where
  "run_commands ls = map (drop 4) (takeWhile (prefix ''  - '') (tl (dropWhile (\<lambda>l. l \<noteq> ''runcmd:'') ls)))"

text \<open>The values a unit file gives a key in a section: the lines \<open>key=value\<close> under its header.\<close>

fun unit_values :: "bytestr \<Rightarrow> bytestr \<Rightarrow> bytestr \<Rightarrow> bytestr list \<Rightarrow> bytestr list" where
  "unit_values sec key cur [] = []"
| "unit_values sec key cur (l # ls) =
     (if prefix ''['' l then unit_values sec key l ls
      else (if cur = sec \<and> prefix (key @ ''='') l then [drop (Suc (length key)) l] else []) @
        unit_values sec key cur ls)"

definition unit_dir :: bytestr where
  "unit_dir = ''/etc/systemd/system/''"

definition self_destruct_timer :: bytestr where
  "self_destruct_timer = ''openshell-self-destruct.timer''"

text \<open>
  The document powers the machine off by itself: it writes a timer with exactly the given
  trigger, the unit the timer starts is a service the document writes too, the service runs
  the shutdown, no other file is written over the two, and the boot commands make systemd
  read the units and start the timer.
\<close>

definition powers_off_at :: "bytestr \<Rightarrow> bytestr \<Rightarrow> bytestr \<Rightarrow> bool" where
  "powers_off_at trigger value doc \<longleftrightarrow>
     (let ls = split_lines doc in
      \<exists>timer unit service cmd.
        (unit_dir @ self_destruct_timer, timer) \<in> set (literal_files ls) \<and>
        unit_values ''[Timer]'' trigger [] timer = [value] \<and>
        unit_values ''[Timer]'' ''Unit'' [] timer = [unit] \<and>
        (unit_dir @ unit, service) \<in> set (literal_files ls) \<and>
        unit_values ''[Service]'' ''ExecStart'' [] service = [cmd] \<and>
        prefix ''/usr/sbin/shutdown -h now '' cmd \<and>
        distinct (written_paths ls) \<and>
        subseq [''systemctl daemon-reload'', ''systemctl enable --now '' @ self_destruct_timer] (run_commands ls))"

section \<open>The lines of the rendered documents\<close>

lemma unlines_Nil [simp]: "unlines [] = []"
  by (simp add: unlines_def)

lemma unlines_Cons [simp]: "unlines (l # ls) = l @ newline # unlines ls"
  by (simp add: unlines_def)

lemma unlines_append: "unlines (xs @ ys) = unlines xs @ unlines ys"
  by (simp add: unlines_def)

lemma digits_no_newline: "\<forall>c \<in> set s. is_digit c \<Longrightarrow> newline \<notin> set s"
  by (auto simp: is_digit_def newline_def byte_def)

lemma calendar_no_newline: "newline \<notin> set (format_calendar t)"
  using digits_no_newline [OF pad_digits]
  by (auto simp: format_calendar_def date_text_def clock_text_def Let_def newline_def split: prod.split)

lemma document_lines:
  assumes "\<forall>f \<in> set fs. plain_file f" and "fs \<noteq> []"
    and "\<forall>l \<in> set (hs @ ts). newline \<notin> set l"
  shows "split_lines (unlines hs @ render_files fs @ unlines ([] # ts)) =
    hs @ concat (map entry_lines fs) @ ts"
proof -
  have "unlines hs @ render_files fs @ unlines ([] # ts) =
      unlines hs @ (render_files fs @ [newline]) @ unlines ts" by simp
  also have "\<dots> = unlines (hs @ concat (map entry_lines fs) @ ts)"
    by (simp only: render_files_lines [OF assms(2)] unlines_append)
  finally have u: "unlines hs @ render_files fs @ unlines ([] # ts) =
      unlines (hs @ concat (map entry_lines fs) @ ts)" .
  have "newline \<notin> set l" if "l \<in> set (concat (map entry_lines fs))" for l
    using that assms(1) entry_plain by auto
  with assms(3) show ?thesis unfolding u by (intro split_unlines) auto
qed

lemma template_plain:
  "\<forall>l \<in> set [''#cloud-config'', ''write_files:'']. newline \<notin> set l"
  "\<forall>l \<in> set (ec2_timer_head @ ec2_timer_tail). newline \<notin> set l"
  "\<forall>l \<in> set (kv_timer_head @ kv_timer_tail). newline \<notin> set l"
  by (simp_all add: newline_def ec2_timer_head_def ec2_timer_tail_def kv_timer_head_def kv_timer_tail_def
      shutdown_line_def mode_line_def dquote_def squote_def)

lemma ec2_lines:
  assumes "fs \<noteq> []" and "\<forall>f \<in> set fs. plain_file f" and "newline \<notin> set lt"
  shows "split_lines (ec2_template (render_files fs) lt) =
    [''#cloud-config'', ''write_files:''] @ concat (map entry_lines fs) @
    ec2_timer_head @ (''      OnBootSec='' @ lt) # ec2_timer_tail"
  unfolding ec2_template_def
  by (rule document_lines [OF assms(2,1)]) (use template_plain assms(3) in \<open>auto simp: newline_def\<close>)

lemma kv_lines:
  assumes "fs \<noteq> []" and "\<forall>f \<in> set fs. plain_file f" and "newline \<notin> set ex"
  shows "split_lines (kv_template (render_files fs) ex) =
    [''#cloud-config'', ''write_files:''] @ concat (map entry_lines fs) @
    kv_timer_head @ (''      OnCalendar='' @ ex) # kv_timer_tail"
  unfolding kv_template_def
  by (rule document_lines [OF assms(2,1)]) (use template_plain assms(3) in \<open>auto simp: newline_def\<close>)

text \<open>The encoded entries are no literal files and no commands.\<close>

lemma literal_entries: "literal_files (concat (map entry_lines fs) @ [] # ls) = literal_files ls"
  by (induction fs) (simp_all add: entry_lines_def)

lemma written_entries: "written_paths (concat (map entry_lines fs) @ ls) = map f_path fs @ written_paths ls"
  by (induction fs) (simp_all add: written_paths_def entry_lines_def)

lemma commands_entries: "run_commands (concat (map entry_lines fs) @ ls) = run_commands ls"
  by (induction fs) (simp_all add: run_commands_def entry_lines_def)


section \<open>The timer is armed\<close>

definition service_name :: bytestr where
  "service_name = ''openshell-self-destruct.service''"

definition ec2_timer_unit :: "bytestr \<Rightarrow> bytestr list" where
  "ec2_timer_unit lt =
     [''[Unit]'', ''Description=Terminate instance after max lifetime'', ''[Timer]'', ''OnBootSec='' @ lt,
      ''Unit='' @ service_name, ''[Install]'', ''WantedBy=timers.target'']"

definition kv_timer_unit :: "bytestr \<Rightarrow> bytestr list" where
  "kv_timer_unit ex =
     [''[Unit]'', ''Description=Terminate VM after max lifetime'', ''[Timer]'', ''OnCalendar='' @ ex,
      ''Persistent=true'', ''Unit='' @ service_name, ''[Install]'', ''WantedBy=timers.target'']"

definition shutdown_service :: "bytestr \<Rightarrow> bytestr list" where
  "shutdown_service what =
     [''[Unit]'', ''Description=Self-terminate '' @ what @ '' (max lifetime exceeded)'', ''[Service]'',
      ''Type=oneshot'', drop 6 shutdown_line]"

lemma ec2_literal:
  "literal_files (ec2_timer_head @ (''      OnBootSec='' @ lt) # ec2_timer_tail) =
     [(unit_dir @ self_destruct_timer, ec2_timer_unit lt),
      (unit_dir @ service_name, shutdown_service ''EC2 instance'')]"
  by (simp add: ec2_timer_head_def ec2_timer_tail_def mode_line_def shutdown_line_def unit_dir_def
      self_destruct_timer_def ec2_timer_unit_def shutdown_service_def service_name_def)

lemma kv_literal:
  "literal_files (kv_timer_head @ (''      OnCalendar='' @ ex) # kv_timer_tail) =
     [(unit_dir @ self_destruct_timer, kv_timer_unit ex),
      (unit_dir @ service_name, shutdown_service ''VM'')]"
  by (simp add: kv_timer_head_def kv_timer_tail_def mode_line_def shutdown_line_def unit_dir_def
      self_destruct_timer_def kv_timer_unit_def shutdown_service_def service_name_def)

lemma timer_values:
  "unit_values ''[Timer]'' ''OnBootSec'' [] (ec2_timer_unit lt) = [lt]"
  "unit_values ''[Timer]'' ''Unit'' [] (ec2_timer_unit lt) = [service_name]"
  "unit_values ''[Timer]'' ''OnCalendar'' [] (kv_timer_unit ex) = [ex]"
  "unit_values ''[Timer]'' ''Unit'' [] (kv_timer_unit ex) = [service_name]"
  by (simp_all add: ec2_timer_unit_def kv_timer_unit_def)

lemma service_values:
  "unit_values ''[Service]'' ''ExecStart'' [] (shutdown_service what) = [drop 16 shutdown_line]"
  by (simp add: shutdown_service_def shutdown_line_def)

lemma shutdown_command: "prefix ''/usr/sbin/shutdown -h now '' (drop 16 shutdown_line)"
  by (simp add: shutdown_line_def)

lemma timer_commands:
  "run_commands (ec2_timer_head @ (''      OnBootSec='' @ lt) # ec2_timer_tail) =
     [''systemctl daemon-reload'', ''systemctl enable --now openshell-self-destruct.timer'',
      ''systemctl enable --now openshell-supervisor.service'']"
  "run_commands (kv_timer_head @ (''      OnCalendar='' @ lt) # kv_timer_tail) =
     [''systemctl daemon-reload'', ''systemctl enable --now openshell-self-destruct.timer'',
      ''systemctl enable --now openshell-supervisor.service'']"
  by (simp_all add: run_commands_def ec2_timer_head_def ec2_timer_tail_def kv_timer_head_def kv_timer_tail_def
      mode_line_def shutdown_line_def)

lemma timer_paths:
  "written_paths (ec2_timer_head @ (''      OnBootSec='' @ lt) # ec2_timer_tail) =
     [unit_dir @ self_destruct_timer, unit_dir @ service_name]"
  "written_paths (kv_timer_head @ (''      OnCalendar='' @ lt) # kv_timer_tail) =
     [unit_dir @ self_destruct_timer, unit_dir @ service_name]"
  by (simp_all add: written_paths_def ec2_timer_head_def ec2_timer_tail_def kv_timer_head_def kv_timer_tail_def
      mode_line_def shutdown_line_def unit_dir_def self_destruct_timer_def service_name_def)

lemma security_paths_distinct:
  "distinct (map f_path (security_files tbl c p) @
     [unit_dir @ self_destruct_timer, unit_dir @ service_name])"
  by (simp add: security_files_def file_of_def environment_path_def sandbox_token_path_def tls_ca_path_def
      tls_cert_path_def tls_key_path_def unit_dir_def self_destruct_timer_def service_name_def)

lemma timer_head_blank: "\<exists>t. ec2_timer_head @ ls = [] # t" "\<exists>t. kv_timer_head @ ls = [] # t"
  by (simp_all add: ec2_timer_head_def kv_timer_head_def)

lemma document_skips:
  "literal_files (concat (map entry_lines fs) @ ls) = literal_files ls" if "\<exists>t. ls = [] # t"
  using that literal_entries by auto

lemma doc_header:
  "literal_files ([''#cloud-config'', ''write_files:''] @ ls) = literal_files ls"
  "written_paths ([''#cloud-config'', ''write_files:''] @ ls) = written_paths ls"
  "run_commands ([''#cloud-config'', ''write_files:''] @ ls) = run_commands ls"
  by (simp_all add: written_paths_def run_commands_def)

lemma powers_offI:
  assumes "literal_files (split_lines doc) =
      [(unit_dir @ self_destruct_timer, timer), (unit_dir @ service_name, shutdown_service what)]"
    and "unit_values ''[Timer]'' trigger [] timer = [value]"
    and "unit_values ''[Timer]'' ''Unit'' [] timer = [service_name]"
    and "distinct (written_paths (split_lines doc))"
    and "run_commands (split_lines doc) = [''systemctl daemon-reload'',
      ''systemctl enable --now openshell-self-destruct.timer'', ''systemctl enable --now openshell-supervisor.service'']"
  shows "powers_off_at trigger value doc"
  unfolding powers_off_at_def Let_def
  using assms(1-4) service_values [of what] shutdown_command
  by (intro exI [of _ timer] exI [of _ service_name] exI [of _ "shutdown_service what"]
      exI [of _ "drop 16 shutdown_line"] conjI) (simp_all add: assms(5) self_destruct_timer_def)

lemma ec2_template_armed:
  assumes "newline \<notin> set lt"
  shows "powers_off_at ''OnBootSec'' lt (ec2_template (render_files (security_files tbl c p)) lt)"
proof -
  let ?fs = "security_files tbl c p"
  let ?ls = "ec2_timer_head @ (''      OnBootSec='' @ lt) # ec2_timer_tail"
  have "\<exists>t. ?ls = [] # t" by (rule timer_head_blank)
  note lit = document_skips [OF this, of ?fs]
  note lines = ec2_lines [OF security_files_not_Nil security_files_plain assms, of tbl c p]
  show ?thesis
    by (rule powers_offI [OF _ timer_values(1,2)])
      (simp_all only: lines doc_header lit written_entries commands_entries timer_commands timer_paths
        ec2_literal security_paths_distinct)
qed

lemma kv_template_armed:
  assumes "newline \<notin> set ex"
  shows "powers_off_at ''OnCalendar'' ex (kv_template (render_files (security_files tbl c p)) ex)"
proof -
  let ?fs = "security_files tbl c p"
  let ?ls = "kv_timer_head @ (''      OnCalendar='' @ ex) # kv_timer_tail"
  have "\<exists>t. ?ls = [] # t" by (rule timer_head_blank)
  note lit = document_skips [OF this, of ?fs]
  note lines = kv_lines [OF security_files_not_Nil security_files_plain assms, of tbl c p]
  show ?thesis
    by (rule powers_offI [OF _ timer_values(3,4)])
      (simp_all only: lines doc_header lit written_entries commands_entries timer_commands timer_paths
        kv_literal security_paths_distinct)
qed


section \<open>The encoded files\<close>

primrec encoded_files :: "bytestr list \<Rightarrow> sec_file list" where
  "encoded_files [] = []"
| "encoded_files (l # ls) =
     (if prefix ''  - path: '' l
      then (case ls of
              enc # content # owner # mode # _ \<Rightarrow>
                if enc = ''    encoding: b64'' \<and> prefix ''    content: '' content \<and>
                   owner = ''    owner: root:root'' \<and> prefix (''    permissions: '' @ [squote]) mode
                then [file_of (drop 10 l) (base64_decode (drop 13 content)) (butlast (drop 18 mode))]
                else []
            | _ \<Rightarrow> [])
      else []) @ encoded_files ls"

lemma encoded_entry: "encoded_files (entry_lines f @ ls) = f # encoded_files ls"
  by (cases f) (simp add: entry_lines_def base64_roundtrip file_of_def)

lemma encoded_entries: "encoded_files (concat (map entry_lines fs) @ ls) = fs @ encoded_files ls"
  by (induction fs) (simp_all add: encoded_entry)

lemma encoded_timer:
  "encoded_files (ec2_timer_head @ (''      OnBootSec='' @ lt) # ec2_timer_tail) = []"
  "encoded_files (kv_timer_head @ (''      OnCalendar='' @ lt) # kv_timer_tail) = []"
  by (simp_all add: ec2_timer_head_def ec2_timer_tail_def kv_timer_head_def kv_timer_tail_def mode_line_def
      shutdown_line_def)

lemma encoded_header: "encoded_files ([''#cloud-config'', ''write_files:''] @ ls) = encoded_files ls"
  by simp

lemma template_files:
  assumes "newline \<notin> set lt"
  shows "encoded_files (split_lines (ec2_template (render_files (security_files tbl c p)) lt)) = security_files tbl c p"
    and "encoded_files (split_lines (kv_template (render_files (security_files tbl c p)) lt)) = security_files tbl c p"
  using ec2_lines [OF security_files_not_Nil security_files_plain assms, of tbl c p]
    kv_lines [OF security_files_not_Nil security_files_plain assms, of tbl c p]
  by (simp_all only: encoded_header encoded_entries encoded_timer append_Nil2)

section \<open>Calendar text\<close>

text \<open>A calendar text of systemd in UTC, read as the RFC 3339 time it names.\<close>

definition calendar_time :: "bytestr \<Rightarrow> time option" where
  "calendar_time s =
     (if drop 19 s = '' UTC'' \<and> s ! 10 = CHR '' '' then parse_rfc3339 (take 10 s @ ''T'' @ take 8 (drop 11 s) @ ''Z'')
      else None)"

lemma text_lengths [simp]: "length (date_text t) = 10" "length (clock_text t) = 8"
  by (simp_all add: date_text_def clock_text_def Let_def split: prod.split)

lemma whole_second:
  fixes t :: time
  shows "date_text (t - t mod second) = date_text t" and "clock_text (t - t mod second) = clock_text t"
    and "format_rfc3339_nano (t - t mod second) = date_text t @ ''T'' @ clock_text t @ ''Z''"
proof -
  have s: "t - t mod second = t div second * second" by (simp add: minus_mod_eq_div_mult)
  have day: "day_ns = second * 86400" by (simp add: day_ns_def second_def)
  have pos: "0 < second" by (simp add: second_def)
  have split: "x div day_ns = x div second div 86400" "x mod day_ns div second = x div second mod 86400" for x
    using pos by (simp_all add: day zdiv_zmult2_eq zmod_zmult2_eq div_add1_eq [of _ "x mod second"])
  have q: "(t - t mod second) div second = t div second" unfolding s using pos by simp
  have d: "(t - t mod second) div day_ns = t div day_ns" by (simp only: split q)
  have m: "(t - t mod second) mod day_ns div second = t mod day_ns div second" by (simp only: split q)
  show date: "date_text (t - t mod second) = date_text t" by (simp only: date_text_def d)
  show clock: "clock_text (t - t mod second) = clock_text t" by (simp only: clock_text_def m)
  have "(t - t mod second) mod second = 0" unfolding s by simp
  then show "format_rfc3339_nano (t - t mod second) = date_text t @ ''T'' @ clock_text t @ ''Z''"
    by (simp only: format_rfc3339_nano_def date clock) (simp add: frac_text_def)
qed

lemma calendar_reads_back:
  assumes "printable_time t" shows "calendar_time (format_calendar t) = Some (t - t mod second)"
proof -
  have "0 \<le> t mod second" by (simp add: second_def)
  moreover have "0 \<le> t - t mod second"
    using assms by (simp add: printable_time_def second_def minus_mod_eq_div_mult pos_imp_zdiv_nonneg_iff)
  ultimately have "printable_time (t - t mod second)" using assms by (simp add: printable_time_def)
  from parse_format_rfc3339_nano_core [OF this] show ?thesis
    by (simp add: calendar_time_def format_calendar_def nth_append whole_second(3))
qed

section \<open>What is rendered\<close>

lemma render_user_data_core:
  assumes "render_user_data lib tbl ks p = Inr out"
  shows "length (base64_decode out) \<le> max_ec2_user_data_size \<and>
    (\<exists>block. render_security_block lib tbl ks (ud_transport p)
        \<lparr>sec_sandbox_id = ud_sandbox_id p, sec_sandbox_token = ud_sandbox_token p,
         sec_log_level = ud_log_level p, sec_max_lifetime = ud_max_lifetime p\<rparr> = Inr block \<and>
      base64_decode out = ec2_template block (ud_max_lifetime p))"
  using assms
  by (auto simp: render_user_data_def Let_def base64_roundtrip
      split: sum.split_asm if_split_asm)

lemma render_block_Inr:
  "render_security_block lib tbl ks c p = Inr block \<Longrightarrow> block = render_files (security_files tbl c p)"
  by (auto simp: render_security_block_def split: option.splits)

lemma render_user_data_armed:
  assumes "set ks = fst ` set (sec_fields q)" and "render_user_data lib tbl ks p = Inr out"
  shows "length (base64_decode out) \<le> max_ec2_user_data_size \<and>
    powers_off_at ''OnBootSec'' (ud_max_lifetime p) (base64_decode out) \<and>
    encoded_files (split_lines (base64_decode out)) =
      security_files tbl (ud_transport p)
        \<lparr>sec_sandbox_id = ud_sandbox_id p, sec_sandbox_token = ud_sandbox_token p,
         sec_log_level = ud_log_level p, sec_max_lifetime = ud_max_lifetime p\<rparr>"
proof -
  let ?p = "\<lparr>sec_sandbox_id = ud_sandbox_id p, sec_sandbox_token = ud_sandbox_token p,
         sec_log_level = ud_log_level p, sec_max_lifetime = ud_max_lifetime p\<rparr>"
  from render_user_data_core [OF assms(2)] obtain block where
    r: "render_security_block lib tbl ks (ud_transport p) ?p = Inr block"
    and d: "base64_decode out = ec2_template block (ud_max_lifetime p)"
    and l: "length (base64_decode out) \<le> max_ec2_user_data_size" by blast
  have "set ks = fst ` set (sec_fields ?p)" using assms(1) by (simp add: sec_fields_def)
  from render_ok_iff [OF this] r have "\<not> has_control (ud_max_lifetime p)" by auto
  then have n: "newline \<notin> set (ud_max_lifetime p)"
    using not_control_no_newline by (simp add: newline_def)
  show ?thesis
    using l unfolding d render_block_Inr [OF r] by (simp only: ec2_template_armed [OF n] template_files [OF n] simp_thms)
qed

lemma render_cloud_init_armed:
  assumes "render_cloud_init lib tbl ks p = Inr out"
  shows "length out \<le> max_kubevirt_cloud_init_size \<and> \<not> is_zero (ci_expires_at p) \<and>
    powers_off_at ''OnCalendar'' (format_calendar (ci_expires_at p)) out \<and>
    encoded_files (split_lines out) =
      security_files tbl (ci_transport p)
        \<lparr>sec_sandbox_id = ci_sandbox_id p, sec_sandbox_token = ci_sandbox_token p,
         sec_log_level = ci_log_level p, sec_max_lifetime = ci_max_lifetime p\<rparr>"
proof -
  from assms obtain block where
    r: "render_security_block lib tbl ks (ci_transport p)
        \<lparr>sec_sandbox_id = ci_sandbox_id p, sec_sandbox_token = ci_sandbox_token p,
         sec_log_level = ci_log_level p, sec_max_lifetime = ci_max_lifetime p\<rparr> = Inr block"
    and out: "out = kv_template block (format_calendar (ci_expires_at p))"
    and l: "length out \<le> max_kubevirt_cloud_init_size" "\<not> is_zero (ci_expires_at p)"
    by (auto simp: render_cloud_init_def Let_def split: sum.split_asm if_split_asm)
  show ?thesis
    using l unfolding out render_block_Inr [OF r]
    by (simp only: kv_template_armed [OF calendar_no_newline] template_files [OF calendar_no_newline] simp_thms)
qed

end
