(* ===== verification/Configs.thy ===== *)
theory Configs
  imports UserData Safeguards GoFloat
begin

text \<open>
  drivers/ec2/config.go and drivers/kubevirt/config.go: the configurations, their
  defaults and Validate, which collects every error before it joins them. The regular
  expressions are anchored and are written out as recognisers; the Kubernetes name and
  quantity checks of apimachinery are the fields of \<open>k8s_lib\<close>.
\<close>

section \<open>Recognisers\<close>

definition is_lower :: "char \<Rightarrow> bool" where
  "is_lower c \<longleftrightarrow> 97 \<le> byte c \<and> byte c \<le> 122"

definition is_alnum :: "char \<Rightarrow> bool" where
  "is_alnum c \<longleftrightarrow> is_lower c \<or> 65 \<le> byte c \<and> byte c \<le> 90 \<or> is_digit c"

text \<open>\<open>^<p>[A-Za-z0-9]+$\<close>.\<close>

definition id_pattern :: "bytestr \<Rightarrow> bytestr \<Rightarrow> bool" where
  "id_pattern p s \<longleftrightarrow> prefix p s \<and> drop (length p) s \<noteq> [] \<and> list_all is_alnum (drop (length p) s)"

text \<open>\<open>-[a-z]+-[0-9]+$\<close>, then \<open>^[a-z]{2}(-gov)?-[a-z]+-[0-9]+$\<close>.\<close>

definition region_tail :: "bytestr \<Rightarrow> bool" where
  "region_tail s \<longleftrightarrow>
     (case s of
        d # t \<Rightarrow>
          d = CHR ''-'' \<and> takeWhile is_lower t \<noteq> [] \<and>
          (case dropWhile is_lower t of
             d' # n \<Rightarrow> d' = CHR ''-'' \<and> n \<noteq> [] \<and> list_all is_digit n
           | [] \<Rightarrow> False)
      | [] \<Rightarrow> False)"

definition region_pattern :: "bytestr \<Rightarrow> bool" where
  "region_pattern s \<longleftrightarrow>
     (case s of
        a # b # t \<Rightarrow>
          is_lower a \<and> is_lower b \<and>
          (region_tail t \<or> prefix ''-gov'' t \<and> region_tail (drop 4 t))
      | _ \<Rightarrow> False)"

text \<open>\<open>^[a-z0-9][a-z0-9.-]+$\<close>.\<close>

definition instance_pattern :: "bytestr \<Rightarrow> bool" where
  "instance_pattern s \<longleftrightarrow>
     (case s of
        a # t \<Rightarrow>
          (is_lower a \<or> is_digit a) \<and> t \<noteq> [] \<and>
          list_all (\<lambda>c. is_lower c \<or> is_digit c \<or> c = CHR ''.'' \<or> c = CHR ''-'') t
      | [] \<Rightarrow> False)"

text \<open>\<open>strings.ContainsAny(value, "\x00\r\n")\<close> over the fields, in the order of the range.\<close>

definition line_break :: "bytestr \<Rightarrow> bool" where
  "line_break s \<longleftrightarrow> CHR 0x00 \<in> set s \<or> CHR 0x0D \<in> set s \<or> newline \<in> set s"

definition control_errors :: "bytestr list \<Rightarrow> (bytestr \<times> bytestr) list \<Rightarrow> goerr list" where
  "control_errors ks m =
     List.map_filter
       (\<lambda>field. case map_of m field of
          None \<Rightarrow> None
        | Some v \<Rightarrow>
            if line_break v then Some (ErrFmt ''%s must not contain control characters'' [AStr field])
            else None) ks"

text \<open>One check: an error or nothing.\<close>

definition err_if :: "bool \<Rightarrow> bytestr \<Rightarrow> goerr list" where
  "err_if b msg = (if b then [ErrFmt msg []] else [])"

definition required_field :: "bytestr \<Rightarrow> bytestr \<Rightarrow> bool \<Rightarrow> bytestr \<Rightarrow> goerr list" where
  "required_field v missing bad msg =
     (if v = [] then [ErrFmt missing []] else if bad then [ErrFmt msg []] else [])"

definition transport_errors :: "transport_lib \<Rightarrow> transport_config \<Rightarrow> goerr list" where
  "transport_errors lib c =
     (case validate_transport lib c of None \<Rightarrow> [] | Some e \<Rightarrow> [ErrWrap ''transport: %w'' [] e])"

section \<open>EC2\<close>

record ec2_config =
  e_ami_id :: bytestr
  e_default_instance :: bytestr
  e_subnet_id :: bytestr
  e_security_group_id :: bytestr
  e_key_name :: bytestr
  e_transport :: transport_config
  e_gateway_id :: bytestr
  e_region :: bytestr
  e_poll_interval :: duration
  e_use_spot :: bool
  e_disk_size_gb :: int
  e_max_instances :: int
  e_max_instance_age :: duration

definition ec2_default_config :: ec2_config where
  "ec2_default_config =
     \<lparr>e_ami_id = [], e_default_instance = ''c7i.4xlarge'', e_subnet_id = [],
      e_security_group_id = [], e_key_name = [], e_transport = zero_transport, e_gateway_id = [],
      e_region = ''us-east-1'', e_poll_interval = 15 * second, e_use_spot = False,
      e_disk_size_gb = 200, e_max_instances = 10, e_max_instance_age = 8 * hour\<rparr>"

definition ec2_config_fields :: "ec2_config \<Rightarrow> (bytestr \<times> bytestr) list" where
  "ec2_config_fields c =
     [(''AMIID'', e_ami_id c), (''SubnetID'', e_subnet_id c),
      (''SecurityGroupID'', e_security_group_id c), (''GatewayID'', e_gateway_id c),
      (''DefaultInstance'', e_default_instance c), (''Region'', e_region c),
      (''KeyName'', e_key_name c)]"

definition ec2_validate_config ::
  "transport_lib \<Rightarrow> bytestr list \<Rightarrow> ec2_config \<Rightarrow> goerr option" where
  "ec2_validate_config lib ks c =
     errors_join
       (required_field (e_ami_id c) ''amiID is required''
          (\<not> id_pattern ''ami-'' (e_ami_id c)) ''amiID must start with ami-'' @
        required_field (e_subnet_id c) ''subnetID is required''
          (\<not> id_pattern ''subnet-'' (e_subnet_id c)) ''subnetID must start with subnet-'' @
        required_field (e_security_group_id c) ''securityGroupID is required''
          (\<not> id_pattern ''sg-'' (e_security_group_id c)) ''securityGroupID must start with sg-'' @
        transport_errors lib (e_transport c) @
        required_field (e_default_instance c) ''defaultInstance is required''
          (\<not> instance_pattern (e_default_instance c)) ''defaultInstance contains invalid characters'' @
        required_field (e_gateway_id c) ''gatewayID is required''
          (length (e_gateway_id c) > 256) ''gatewayID must not exceed 256 bytes'' @
        required_field (e_region c) ''region is required''
          (\<not> region_pattern (e_region c)) ''region has invalid format'' @
        err_if (e_poll_interval c \<le> 0 \<or> e_poll_interval c > hour)
          ''pollInterval must be greater than zero and at most 1h'' @
        err_if (e_disk_size_gb c \<le> 0 \<or> e_disk_size_gb c > 16384)
          ''diskSizeGB must be between 1 and 16384'' @
        err_if (e_max_instances c \<le> 0 \<or> e_max_instances c > 1000)
          ''maxInstances must be between 1 and 1000'' @
        err_if (e_max_instance_age c \<le> 0 \<or> e_max_instance_age c > 30 * 24 * hour)
          ''maxInstanceAge must be greater than zero and at most 720h'' @
        control_errors ks (ec2_config_fields c))"

section \<open>KubeVirt\<close>

record kv_config =
  k_namespace :: bytestr
  k_boot_source :: bytestr
  k_boot_source_namespace :: bytestr
  k_default_instance_type :: bytestr
  k_default_preference :: bytestr
  k_storage_class :: bytestr
  k_storage_labels :: "(bytestr \<times> bytestr) list"
  k_storage_annotations :: "(bytestr \<times> bytestr) list"
  k_transport :: transport_config
  k_gateway_id :: bytestr
  k_disk_size :: bytestr
  k_poll_interval :: duration
  k_max_instances :: int
  k_max_instance_age :: duration

definition kv_default_config :: kv_config where
  "kv_default_config =
     \<lparr>k_namespace = ''openshell'', k_boot_source = ''fedora'',
      k_boot_source_namespace = ''openshift-virtualization-os-images'',
      k_default_instance_type = ''cx1.4xlarge'', k_default_preference = [], k_storage_class = [],
      k_storage_labels = [], k_storage_annotations = [], k_transport = zero_transport,
      k_gateway_id = [], k_disk_size = ''100Gi'', k_poll_interval = 15 * second,
      k_max_instances = 10, k_max_instance_age = 8 * hour\<rparr>"

text \<open>
  \<open>IsDNS1123Label\<close> and \<open>IsDNS1123Subdomain\<close> report no message, and the value of a
  resource quantity; \<open>Cmp\<close> compares values.
\<close>

record k8s_lib =
  dns1123_label :: "bytestr \<Rightarrow> bool"
  dns1123_subdomain :: "bytestr \<Rightarrow> bool"
  parse_quantity :: "bytestr \<Rightarrow> goerr + rat"

definition gib :: rat where "gib = 2 ^ 30"
definition tib :: rat where "tib = 2 ^ 40"

definition disk_size_errors :: "k8s_lib \<Rightarrow> bytestr \<Rightarrow> goerr list" where
  "disk_size_errors klib d =
     (if d = [] then [ErrFmt ''diskSize is required'' []]
      else
        (case parse_quantity klib d of
           Inl e \<Rightarrow> [ErrWrap ''diskSize must be a valid Kubernetes quantity: %w'' [] e]
         | Inr q \<Rightarrow>
             if q < gib \<or> q > 16 * tib then [ErrFmt ''diskSize must be between 1Gi and 16Ti'' []]
             else []))"

definition kv_config_fields :: "kv_config \<Rightarrow> (bytestr \<times> bytestr) list" where
  "kv_config_fields c =
     [(''Namespace'', k_namespace c), (''BootSource'', k_boot_source c),
      (''BootSourceNamespace'', k_boot_source_namespace c),
      (''DefaultInstanceType'', k_default_instance_type c),
      (''DefaultPreference'', k_default_preference c), (''StorageClass'', k_storage_class c),
      (''GatewayID'', k_gateway_id c), (''DiskSize'', k_disk_size c)]"

definition kv_validate_config ::
  "transport_lib \<Rightarrow> k8s_lib \<Rightarrow> bytestr list \<Rightarrow> kv_config \<Rightarrow> goerr option" where
  "kv_validate_config lib klib ks c =
     errors_join
       (required_field (k_namespace c) ''namespace is required''
          (\<not> dns1123_label klib (k_namespace c)) ''namespace must be a valid Kubernetes namespace name'' @
        required_field (k_boot_source c) ''bootSource is required''
          (\<not> dns1123_subdomain klib (k_boot_source c))
          ''bootSource must be a valid Kubernetes resource name'' @
        required_field (k_boot_source_namespace c) ''bootSourceNamespace is required''
          (\<not> dns1123_label klib (k_boot_source_namespace c))
          ''bootSourceNamespace must be a valid Kubernetes namespace name'' @
        required_field (k_default_instance_type c) ''defaultInstanceType is required''
          (\<not> dns1123_subdomain klib (k_default_instance_type c))
          ''defaultInstanceType contains invalid characters'' @
        err_if (k_default_preference c \<noteq> [] \<and> \<not> dns1123_subdomain klib (k_default_preference c))
          ''defaultPreference must be a valid Kubernetes resource name'' @
        required_field (k_storage_class c)
          ''storageClass is required and must provide encrypted disposable storage''
          (\<not> dns1123_subdomain klib (k_storage_class c))
          ''storageClass must be a valid Kubernetes resource name'' @
        transport_errors lib (k_transport c) @
        required_field (k_gateway_id c) ''gatewayID is required''
          (length (k_gateway_id c) > 256) ''gatewayID must not exceed 256 bytes'' @
        disk_size_errors klib (k_disk_size c) @
        err_if (k_poll_interval c \<le> 0 \<or> k_poll_interval c > hour)
          ''pollInterval must be greater than zero and at most 1h'' @
        err_if (k_max_instances c \<le> 0 \<or> k_max_instances c > 1000)
          ''maxInstances must be between 1 and 1000'' @
        err_if (k_max_instance_age c \<le> 0 \<or> k_max_instance_age c > 30 * 24 * hour)
          ''maxInstanceAge must be greater than zero and at most 720h'' @
        control_errors ks (kv_config_fields c))"

section \<open>What a valid configuration is\<close>

lemma required_field_Nil [simp]: "required_field v a b m = [] \<longleftrightarrow> v \<noteq> [] \<and> \<not> b"
  by (simp add: required_field_def)

lemma err_if_Nil [simp]: "err_if b m = [] \<longleftrightarrow> \<not> b"
  by (simp add: err_if_def)

lemma transport_errors_Nil [simp]: "transport_errors lib c = [] \<longleftrightarrow> validate_transport lib c = None"
  by (simp add: transport_errors_def split: option.split)

lemma control_errors_Nil:
  "control_errors ks m = [] \<longleftrightarrow> (\<forall>k \<in> set ks. \<forall>v. map_of m k = Some v \<longrightarrow> \<not> line_break v)"
  unfolding control_errors_def map_filter_Nil
  by (intro ball_cong refl) (simp split: option.split)

definition in_range :: "int \<Rightarrow> int \<Rightarrow> int \<Rightarrow> bool" where
  "in_range lo hi x \<longleftrightarrow> lo < x \<and> x \<le> hi"

text \<open>A character class without line breaks settles the last loop for its field.\<close>

lemma line_break_class:
  "(\<forall>c \<in> set s. 32 < byte c) \<Longrightarrow> \<not> line_break s"
  by (auto simp: line_break_def newline_def byte_def)

lemma id_pattern_no_break: "list_all (\<lambda>c. 32 < byte c) p \<Longrightarrow> id_pattern p s \<Longrightarrow> \<not> line_break s"
proof -
  assume a: "list_all (\<lambda>c. 32 < byte c) p" "id_pattern p s"
  then obtain t where s: "s = p @ t" "list_all is_alnum t"
    by (auto simp: id_pattern_def prefix_def)
  have "32 < byte c" if "c \<in> set t" for c
    using s(2) that by (auto simp: list_all_iff is_alnum_def is_lower_def is_digit_def)
  with a(1) s(1) show ?thesis by (intro line_break_class) (auto simp: list_all_iff)
qed

lemma instance_pattern_no_break: "instance_pattern s \<Longrightarrow> \<not> line_break s"
proof -
  assume a: "instance_pattern s"
  then obtain x t where "s = x # t" by (cases s) (auto simp: instance_pattern_def)
  with a show ?thesis
    by (intro line_break_class)
      (auto simp: instance_pattern_def list_all_iff is_lower_def is_digit_def byte_def)
qed

lemma ec2_validate_config_core:
  assumes "set ks = fst ` set (ec2_config_fields c)"
  shows "ec2_validate_config lib ks c = None \<longleftrightarrow>
    id_pattern ''ami-'' (e_ami_id c) \<and> id_pattern ''subnet-'' (e_subnet_id c) \<and>
    id_pattern ''sg-'' (e_security_group_id c) \<and> validate_transport lib (e_transport c) = None \<and>
    instance_pattern (e_default_instance c) \<and> region_pattern (e_region c) \<and>
    e_gateway_id c \<noteq> [] \<and> length (e_gateway_id c) \<le> 256 \<and> \<not> line_break (e_gateway_id c) \<and>
    \<not> line_break (e_region c) \<and> \<not> line_break (e_key_name c) \<and>
    in_range 0 hour (e_poll_interval c) \<and> in_range 0 16384 (e_disk_size_gb c) \<and>
    in_range 0 1000 (e_max_instances c) \<and> in_range 0 (30 * 24 * hour) (e_max_instance_age c)"
    (is "?l \<longleftrightarrow> ?r")
proof -
  have ne: "id_pattern p s \<Longrightarrow> p \<noteq> [] \<Longrightarrow> s \<noteq> []" "instance_pattern s \<Longrightarrow> s \<noteq> []"
    "region_pattern s \<Longrightarrow> s \<noteq> []" for p s
    by (auto simp: id_pattern_def instance_pattern_def region_pattern_def)
  have nb: "id_pattern ''ami-'' s \<Longrightarrow> \<not> line_break s" "id_pattern ''subnet-'' s \<Longrightarrow> \<not> line_break s"
    "id_pattern ''sg-'' s \<Longrightarrow> \<not> line_break s" for s
    by (erule id_pattern_no_break [rotated], code_simp)+
  have ctl: "control_errors ks (ec2_config_fields c) = [] \<longleftrightarrow>
      \<not> line_break (e_ami_id c) \<and> \<not> line_break (e_subnet_id c) \<and> \<not> line_break (e_security_group_id c) \<and>
      \<not> line_break (e_gateway_id c) \<and> \<not> line_break (e_default_instance c) \<and>
      \<not> line_break (e_region c) \<and> \<not> line_break (e_key_name c)"
    unfolding control_errors_Nil assms by (simp add: ec2_config_fields_def)
  show ?thesis
    unfolding ec2_validate_config_def errors_join_None append_is_Nil_conv required_field_Nil
      err_if_Nil transport_errors_Nil ctl in_range_def not_le not_less de_Morgan_disj not_not
    using ne nb instance_pattern_no_break by blast
qed

lemma kv_validate_config_core:
  assumes "set ks = fst ` set (kv_config_fields c)"
  shows "kv_validate_config lib klib ks c = None \<longleftrightarrow>
    k_namespace c \<noteq> [] \<and> dns1123_label klib (k_namespace c) \<and>
    k_boot_source c \<noteq> [] \<and> dns1123_subdomain klib (k_boot_source c) \<and>
    k_boot_source_namespace c \<noteq> [] \<and> dns1123_label klib (k_boot_source_namespace c) \<and>
    k_default_instance_type c \<noteq> [] \<and> dns1123_subdomain klib (k_default_instance_type c) \<and>
    (k_default_preference c = [] \<or> dns1123_subdomain klib (k_default_preference c)) \<and>
    k_storage_class c \<noteq> [] \<and> dns1123_subdomain klib (k_storage_class c) \<and>
    validate_transport lib (k_transport c) = None \<and>
    k_gateway_id c \<noteq> [] \<and> length (k_gateway_id c) \<le> 256 \<and>
    k_disk_size c \<noteq> [] \<and> (\<exists>q. parse_quantity klib (k_disk_size c) = Inr q \<and> gib \<le> q \<and> q \<le> 16 * tib) \<and>
    in_range 0 hour (k_poll_interval c) \<and> in_range 0 1000 (k_max_instances c) \<and>
    in_range 0 (30 * 24 * hour) (k_max_instance_age c) \<and>
    (\<forall>f \<in> set (kv_config_fields c). \<not> line_break (snd f))"
proof -
  have ctl: "control_errors ks (kv_config_fields c) = [] \<longleftrightarrow>
      (\<forall>f \<in> set (kv_config_fields c). \<not> line_break (snd f))"
    unfolding control_errors_Nil assms by (simp add: kv_config_fields_def)
  have disk: "disk_size_errors klib (k_disk_size c) = [] \<longleftrightarrow>
      k_disk_size c \<noteq> [] \<and> (\<exists>q. parse_quantity klib (k_disk_size c) = Inr q \<and> gib \<le> q \<and> q \<le> 16 * tib)"
    by (auto simp: disk_size_errors_def split: sum.split)
  show ?thesis
    unfolding kv_validate_config_def errors_join_None append_is_Nil_conv required_field_Nil
      err_if_Nil transport_errors_Nil ctl disk
    by (simp only: in_range_def not_le not_less de_Morgan_disj de_Morgan_conj not_not conj_assoc simp_thms)
qed

end
