(* ===== verification/Quantity.thy ===== *)
theory Quantity
  imports GoParse Proto
begin

text \<open>
  pkg/quantity: CPU quantities in vCPUs and memory quantities in MiB. The suffix tables
  are the code's, in its order; the arithmetic is float64's. The lemmas give the value of
  every canonical quantity, the range of every result, and when validation passes.
\<close>

section \<open>The parser\<close>

definition bytes_per_mib :: rat where
  "bytes_per_mib = 1024 * 1024"

definition bad_number :: "f64 \<Rightarrow> bool" where
  "bad_number v \<longleftrightarrow> f_less v (Fin 0) \<or> v = NaN \<or> v = PInf \<or> v = NInf"

definition parse_cpu :: "bytestr \<Rightarrow> goerr + f64" where
  "parse_cpu s0 =
     (let s = trim_space s0
      in if s = [] then Inl (ErrFmt ''empty CPU quantity'' [])
         else if has_suffix s ''m'' then
           (case parse_float (trim_suffix s ''m'') of
              Inl e \<Rightarrow> Inl (ErrWrap ''invalid CPU millicore value %q: %w'' [AStr s] e)
            | Inr millis \<Rightarrow>
                if bad_number millis then Inl (ErrFmt ''negative CPU quantity %q'' [AStr s])
                else Inr (f_scale (1 / 1000) millis))
         else
           (case parse_float s of
              Inl e \<Rightarrow> Inl (ErrWrap ''invalid CPU quantity %q: %w'' [AStr s] e)
            | Inr v \<Rightarrow>
                if bad_number v then Inl (ErrFmt ''negative CPU quantity %q'' [AStr s])
                else Inr v))"

definition binary_suffixes :: "(bytestr \<times> rat) list" where
  "binary_suffixes =
     [(''Ei'', bytes_per_mib * bytes_per_mib), (''Pi'', 1024 * bytes_per_mib),
      (''Ti'', bytes_per_mib), (''Gi'', 1024), (''Mi'', 1), (''Ki'', 1 / 1024)]"

definition decimal_suffixes :: "(bytestr \<times> rat) list" where
  "decimal_suffixes =
     [(''E'', 10 ^ 18 / bytes_per_mib), (''P'', 10 ^ 15 / bytes_per_mib),
      (''T'', 10 ^ 12 / bytes_per_mib), (''G'', 10 ^ 9 / bytes_per_mib),
      (''M'', 10 ^ 6 / bytes_per_mib), (''K'', 10 ^ 3 / bytes_per_mib),
      (''k'', 10 ^ 3 / bytes_per_mib)]"

text \<open>The constants of the tables are dyadic with few bits, so float64 holds them exactly.\<close>

definition memory_number :: "bytestr \<Rightarrow> bytestr \<Rightarrow> rat \<Rightarrow> goerr + f64" where
  "memory_number s num_str multiplier =
     (case parse_float num_str of
        Inl e \<Rightarrow> Inl (ErrWrap ''invalid memory quantity %q: %w'' [AStr s] e)
      | Inr v \<Rightarrow>
          if bad_number v then Inl (ErrFmt ''negative memory quantity %q'' [AStr s])
          else Inr (f_scale multiplier v))"

definition parse_memory :: "bytestr \<Rightarrow> goerr + f64" where
  "parse_memory s0 =
     (let s = trim_space s0
      in if s = [] then Inl (ErrFmt ''empty memory quantity'' [])
         else
           (case find (\<lambda>suf. has_suffix s (fst suf)) binary_suffixes of
              Some suf \<Rightarrow> memory_number s (trim_suffix s (fst suf)) (snd suf)
            | None \<Rightarrow>
                (case find (\<lambda>suf. has_suffix s (fst suf)) decimal_suffixes of
                   Some suf \<Rightarrow> memory_number s (trim_suffix s (fst suf)) (snd suf)
                 | None \<Rightarrow> memory_number s s (1 / bytes_per_mib))))"

text \<open>
  ValidateRequirements ranges over two map literals; \<open>cpu_keys\<close> and
  \<open>mem_keys\<close> are the orders in which the runtime visits them.
\<close>

definition field_errors ::
  "(bytestr \<Rightarrow> goerr + f64) \<Rightarrow> bytestr list \<Rightarrow> (bytestr \<times> bytestr) list \<Rightarrow> goerr list" where
  "field_errors parse ks m =
     List.map_filter
       (\<lambda>field.
          (case map_of m field of
             None \<Rightarrow> None
           | Some value \<Rightarrow>
               if value = [] then None
               else
                 (case parse value of
                    Inl e \<Rightarrow> Some (ErrWrap ''invalid %s: %w'' [AStr field] e)
                  | Inr _ \<Rightarrow> None))) ks"

definition validate_requirements ::
  "bytestr list \<Rightarrow> bytestr list \<Rightarrow> resource_quantities \<Rightarrow> goerr option" where
  "validate_requirements cpu_keys mem_keys q =
     errors_join
       (field_errors parse_cpu cpu_keys
          [(''cpu request'', cpu_request q), (''cpu limit'', cpu_limit q)] @
        field_errors parse_memory mem_keys
          [(''memory request'', memory_request q), (''memory limit'', memory_limit q)])"

section \<open>Range of the results\<close>

lemma special_not_Fin: "special s = Some (v, n) \<Longrightarrow> v = PInf \<or> v = NInf \<or> v = NaN"
  by (auto simp: special_def Let_def split_def split: if_splits)

lemma round64_bound: "round64 z = Fin y \<Longrightarrow> y < 2 ^ 1024"
proof -
  assume r: "round64 z = Fin y"
  show ?thesis
  proof (cases "0 \<le> z")
    case True
    from round64_nonneg [OF this] show ?thesis using r by (metis f64.distinct(1) f64.inject)
  next
    case False
    then have z: "0 \<le> - z" and "round64 (- z) = round_mag (- z)" "round64 z = f_neg (round_mag (- z))"
      by (simp_all add: round64_def)
    with round64_nonneg [OF z] r have "y \<le> 0"
      by (metis f_neg.simps(1,2) f64.distinct(3) f64.inject neg_le_0_iff_le)
    then show ?thesis by (rule le_less_trans) simp
  qed
qed

lemma parse_float_cases:
  "parse_float s = Inr v \<Longrightarrow>
   (\<exists>n. special s = Some (v, n)) \<or> (\<exists>l. read_float s = Some (l, []) \<and> v = round64 (lit_value l))"
  by (auto simp: parse_float_def split: option.splits prod.splits if_splits f64.splits)

lemma parse_float_bound: "parse_float s = Inr (Fin x) \<Longrightarrow> x < 2 ^ 1024"
  using parse_float_cases [of s "Fin x"] special_not_Fin [of s "Fin x"] round64_bound
  by (metis f64.distinct(1,3,5))

text \<open>A number that passes the checks is finite and nonnegative.\<close>

lemma good_number:
  assumes "parse_float s = Inr v" and "\<not> bad_number v"
  obtains x where "v = Fin x" and "0 \<le> x" and "x < 2 ^ 1024"
  using assms parse_float_bound [of s] by (cases v) (auto simp: bad_number_def)

lemma parse_cpu_range_core:
  assumes "parse_cpu s = Inr v" shows "\<exists>x. v = Fin x \<and> 0 \<le> x \<and> x < 2 ^ 1024"
proof -
  consider (milli) w where "parse_float (trim_suffix (trim_space s) ''m'') = Inr w" "\<not> bad_number w"
      "v = f_scale (1 / 1000) w"
    | (plain) "parse_float (trim_space s) = Inr v" "\<not> bad_number v"
  proof (cases "has_suffix (trim_space s) ''m''")
    case True
    with assms milli show ?thesis
      by (simp add: parse_cpu_def Let_def split: if_split_asm sum.split_asm)
  next
    case False
    with assms plain show ?thesis
      by (simp add: parse_cpu_def Let_def split: if_split_asm sum.split_asm)
  qed
  then show ?thesis
  proof cases
    case milli
    obtain x where x: "w = Fin x" "0 \<le> x" "x < 2 ^ 1024" by (rule good_number [OF milli(1,2)])
    have "1 / 1000 * x < 2 ^ 1023" using x(2,3) by simp
    then show ?thesis using round64_finite [of "1 / 1000 * x"] x milli(3) by simp
  next
    case plain
    then show ?thesis by (metis good_number)
  qed
qed

lemma suffix_nonneg:
  "find p binary_suffixes = Some suf \<Longrightarrow> 0 \<le> snd suf"
  "find p decimal_suffixes = Some suf \<Longrightarrow> 0 \<le> snd suf"
  by (auto simp: binary_suffixes_def decimal_suffixes_def bytes_per_mib_def split: if_splits)

lemma memory_number_range:
  assumes "memory_number s t c = Inr v" and "0 \<le> c"
  shows "v = PInf \<or> (\<exists>x. v = Fin x \<and> 0 \<le> x \<and> x < 2 ^ 1024)"
proof -
  obtain w where w: "parse_float t = Inr w" "\<not> bad_number w" "v = f_scale c w"
    using assms(1) by (auto simp: memory_number_def split: sum.splits if_splits)
  obtain x where x: "w = Fin x" "0 \<le> x" by (rule good_number [OF w(1,2)])
  then have "0 \<le> c * x" using assms(2) by simp
  from round64_nonneg [OF this] show ?thesis using w(3) x(1) by (metis f_scale.simps(1))
qed

lemma parse_memory_range_core:
  assumes "parse_memory s = Inr v"
  shows "v = PInf \<or> (\<exists>x. v = Fin x \<and> 0 \<le> x \<and> x < 2 ^ 1024)"
  using assms suffix_nonneg memory_number_range
  by (auto simp: parse_memory_def Let_def bytes_per_mib_def split: if_splits option.splits)

section \<open>Decimal quantities\<close>

text \<open>A numeral ends in a digit, so a suffix that ends in a letter is no part of it.\<close>

definition digit_end :: "bytestr \<Rightarrow> bool" where
  "digit_end t \<longleftrightarrow> (\<exists>u c. t = u @ [c] \<and> is_digit c)"

lemma digit_end_decimal: "decimal_ok ds fs \<Longrightarrow> digit_end (decimal ds fs)"
  using decimal_last [of ds fs] append_butlast_last_id [of "decimal ds fs"] unfolding digit_end_def by metis

lemma trim_decimal_suffix:
  "decimal_ok ds fs \<Longrightarrow> \<forall>c \<in> set t. solid c \<Longrightarrow> trim_space (decimal ds fs @ t) = decimal ds fs @ t"
  using decimal_letter by (intro trim_space_solid) auto

lemma numeral_no_suffix: "digit_end t \<Longrightarrow> u \<noteq> [] \<Longrightarrow> \<not> is_digit (last u) \<Longrightarrow> \<not> has_suffix t u"
  unfolding digit_end_def has_suffix_def suffix_def by (metis last_appendR last_snoc)

lemma has_suffix_numeral1: "has_suffix (t @ [a]) [b] \<longleftrightarrow> a = b"
  by (auto simp: has_suffix_def suffix_def)

lemma has_suffix_numeral2: "has_suffix (t @ [a, b]) [c, d] \<longleftrightarrow> a = c \<and> b = d"
proof -
  have "\<exists>ys. t @ [a, b] = ys @ [a, b]" by blast
  then show ?thesis by (auto simp: has_suffix_def suffix_def)
qed

lemma has_suffix_numeral12: "digit_end t \<Longrightarrow> has_suffix (t @ [a]) [c, d] \<Longrightarrow> d = a \<and> is_digit c"
proof -
  assume t: "digit_end t" and "has_suffix (t @ [a]) [c, d]"
  then obtain u where "t @ [a] = (u @ [c]) @ [d]" by (auto simp: has_suffix_def suffix_def)
  then have "t = u @ [c]" "a = d" by simp_all
  with t show ?thesis by (auto simp: digit_end_def)
qed

lemma suffix_letters:
  "(u, c) \<in> set binary_suffixes \<Longrightarrow> \<exists>a b. u = [a, b] \<and> solid a \<and> solid b"
  "(u, c) \<in> set decimal_suffixes \<Longrightarrow> \<exists>a. u = [a] \<and> solid a \<and> \<not> is_digit a \<and> a \<noteq> CHR ''i''"
  unfolding binary_suffixes_def decimal_suffixes_def
  by (simp_all only: set_simps insert_iff empty_iff prod.inject simp_thms)
    (elim disjE conjE; simp add: solid_def byte_def is_digit_def)+

lemma find_binary:
  "([a, b], c) \<in> set binary_suffixes \<Longrightarrow>
   find (\<lambda>suf. has_suffix (t @ [a, b]) (fst suf)) binary_suffixes = Some ([a, b], c)"
  unfolding binary_suffixes_def
  by (simp only: set_simps insert_iff empty_iff prod.inject list.inject)
    (elim disjE conjE; simp add: has_suffix_numeral2)

lemma find_decimal:
  "([a], c) \<in> set decimal_suffixes \<Longrightarrow>
   find (\<lambda>suf. has_suffix (t @ [a]) (fst suf)) decimal_suffixes = Some ([a], c)"
  unfolding decimal_suffixes_def
  by (simp only: set_simps insert_iff empty_iff prod.inject list.inject)
    (elim disjE conjE; simp add: has_suffix_numeral1)

lemma no_binary1:
  "digit_end t \<Longrightarrow> \<not> is_digit a \<Longrightarrow> a \<noteq> CHR ''i'' \<Longrightarrow>
   find (\<lambda>suf. has_suffix (t @ [a]) (fst suf)) binary_suffixes = None"
  using has_suffix_numeral12 [of t a] by (auto simp: binary_suffixes_def)

lemma no_suffix:
  assumes "digit_end t"
  shows "find (\<lambda>suf. has_suffix t (fst suf)) binary_suffixes = None"
    and "find (\<lambda>suf. has_suffix t (fst suf)) decimal_suffixes = None"
  using numeral_no_suffix [OF assms]
  by (simp_all add: binary_suffixes_def decimal_suffixes_def is_digit_def byte_def)

lemma decimal_nonneg: "0 \<le> decimal_value ds fs"
  by (simp add: decimal_value_def)

lemma decimal_good: "round64 (decimal_value ds fs) = Fin x \<Longrightarrow> \<not> bad_number (Fin x)"
proof -
  assume "round64 (decimal_value ds fs) = Fin x"
  with round64_nonneg [OF decimal_nonneg, of ds fs] have "0 \<le> x" by (metis f64.distinct(1) f64.inject)
  then show "\<not> bad_number (Fin x)" by (simp add: bad_number_def)
qed

lemma parse_cpu_decimal_core:
  assumes "decimal_ok ds fs" and "round64 (decimal_value ds fs) = Fin x"
  shows "parse_cpu (decimal ds fs) = Inr (Fin x)"
    and "parse_cpu (decimal ds fs @ ''m'') = Inr (round64 (x / 1000))"
proof -
  note t = decimal_last [OF assms(1), THEN conjunct1]
  have "\<not> has_suffix (decimal ds fs) ''m''"
    by (rule numeral_no_suffix [OF digit_end_decimal [OF assms(1)]]) (simp_all add: is_digit_def byte_def)
  then show "parse_cpu (decimal ds fs) = Inr (Fin x)"
    using trim_decimal_suffix [OF assms(1), of "[]"] t
    by (simp add: parse_cpu_def parse_float_decimal [OF assms] decimal_good [OF assms(2)])
  have "trim_space (decimal ds fs @ ''m'') = decimal ds fs @ ''m''"
    by (rule trim_decimal_suffix [OF assms(1)]) (simp add: solid_def byte_def)
  then show "parse_cpu (decimal ds fs @ ''m'') = Inr (round64 (x / 1000))"
    by (simp add: parse_cpu_def parse_float_decimal [OF assms] decimal_good [OF assms(2)])
qed

lemma memory_number_decimal:
  "decimal_ok ds fs \<Longrightarrow> round64 (decimal_value ds fs) = Fin x \<Longrightarrow>
   memory_number s (decimal ds fs) c = Inr (round64 (c * x))"
  using decimal_good by (simp add: memory_number_def parse_float_decimal)

lemma parse_memory_decimal_core:
  assumes ok: "decimal_ok ds fs" and x: "round64 (decimal_value ds fs) = Fin x"
    and u: "(u, c) \<in> set binary_suffixes \<or> (u, c) \<in> set decimal_suffixes \<or> u = [] \<and> c = 1 / bytes_per_mib"
  shows "parse_memory (decimal ds fs @ u) = Inr (round64 (c * x))"
proof -
  let ?t = "decimal ds fs"
  have t: "?t \<noteq> []" using decimal_last [OF ok] by simp
  note num = memory_number_decimal [OF ok x] and e = digit_end_decimal [OF ok]
  from u show ?thesis
  proof (elim disjE)
    assume b: "(u, c) \<in> set binary_suffixes"
    then obtain a d where v: "u = [a, d]" "solid a" "solid d" using suffix_letters(1) by blast
    have "find (\<lambda>suf. has_suffix (?t @ u) (fst suf)) binary_suffixes = Some (u, c)"
      using b unfolding v(1) by (rule find_binary)
    moreover have "trim_space (?t @ u) = ?t @ u" using v by (intro trim_decimal_suffix [OF ok]) simp
    ultimately show ?thesis using num v(1)
      by (simp only: parse_memory_def Let_def option.case trim_suffix_append fst_conv snd_conv
          append_is_Nil_conv t if_False list.distinct simp_thms)
  next
    assume b: "(u, c) \<in> set decimal_suffixes"
    then obtain a where v: "u = [a]" "solid a" "\<not> is_digit a" "a \<noteq> CHR ''i''"
      using suffix_letters(2) by blast
    have "find (\<lambda>suf. has_suffix (?t @ u) (fst suf)) decimal_suffixes = Some (u, c)"
      using b unfolding v(1) by (rule find_decimal)
    moreover have "trim_space (?t @ u) = ?t @ u" using v by (intro trim_decimal_suffix [OF ok]) simp
    moreover have "find (\<lambda>suf. has_suffix (?t @ u) (fst suf)) binary_suffixes = None"
      using no_binary1 [OF e v(3,4)] v(1) by simp
    ultimately show ?thesis using num v(1)
      by (simp only: parse_memory_def Let_def option.case trim_suffix_append fst_conv snd_conv
          append_is_Nil_conv t if_False list.distinct simp_thms)
  next
    assume "u = [] \<and> c = 1 / bytes_per_mib"
    then show ?thesis using num trim_decimal_suffix [OF ok, of "[]"] t no_suffix [OF e]
      by (simp only: parse_memory_def Let_def option.case append_Nil2 if_False simp_thms list.set ball_empty)
  qed
qed

text \<open>
  What the suffixes mean, as the Kubernetes documentation gives it: a number of bytes for
  each, powers of 1000 or of 1024.
\<close>

definition memory_units :: "(bytestr \<times> nat) list" where
  "memory_units =
     [([], 1), (''k'', 1000), (''K'', 1000), (''M'', 1000 ^ 2), (''G'', 1000 ^ 3), (''T'', 1000 ^ 4),
      (''P'', 1000 ^ 5), (''E'', 1000 ^ 6),
      (''Ki'', 1024), (''Mi'', 1024 ^ 2), (''Gi'', 1024 ^ 3), (''Ti'', 1024 ^ 4), (''Pi'', 1024 ^ 5),
      (''Ei'', 1024 ^ 6)]"

lemma unit_factor:
  "(u, b) \<in> set memory_units \<Longrightarrow>
   (u, of_nat b / 2 ^ 20) \<in> set binary_suffixes \<or> (u, of_nat b / 2 ^ 20) \<in> set decimal_suffixes \<or>
   u = [] \<and> of_nat b / 2 ^ 20 = 1 / bytes_per_mib"
  unfolding memory_units_def
  by (simp only: set_simps insert_iff empty_iff prod.inject)
    (elim disjE conjE; simp add: binary_suffixes_def decimal_suffixes_def bytes_per_mib_def)

section \<open>Validation\<close>

definition quantity_ok :: "(bytestr \<Rightarrow> goerr + f64) \<Rightarrow> bytestr \<Rightarrow> bool" where
  "quantity_ok parse s \<longleftrightarrow> s = [] \<or> (\<exists>v. parse s = Inr v)"

lemma field_errors_Nil:
  "field_errors parse ks m = [] \<longleftrightarrow> (\<forall>k \<in> set ks. \<forall>v. map_of m k = Some v \<longrightarrow> quantity_ok parse v)"
  unfolding field_errors_def map_filter_Nil
  by (intro ball_cong refl) (simp add: quantity_ok_def split: option.split sum.split)

lemma two_fields:
  assumes "set ks = {a, b}" and "a \<noteq> b"
  shows "(\<forall>k \<in> set ks. \<forall>v. map_of [(a, x), (b, y)] k = Some v \<longrightarrow> P v) \<longleftrightarrow> P x \<and> P y"
  using assms by simp

lemma validate_requirements_core:
  assumes "set ck = {''cpu request'', ''cpu limit''}" and "set mk = {''memory request'', ''memory limit''}"
  shows "validate_requirements ck mk q = None \<longleftrightarrow>
    quantity_ok parse_cpu (cpu_request q) \<and> quantity_ok parse_cpu (cpu_limit q) \<and>
    quantity_ok parse_memory (memory_request q) \<and> quantity_ok parse_memory (memory_limit q)"
proof -
  have n: "''cpu request'' \<noteq> ''cpu limit''" "''memory request'' \<noteq> ''memory limit''" by simp_all
  show ?thesis
    unfolding validate_requirements_def errors_join_None append_is_Nil_conv field_errors_Nil
    by (simp only: two_fields [OF assms(1) n(1)] two_fields [OF assms(2) n(2)] conj_assoc)
qed

section \<open>Overflow of the suffix\<close>

text \<open>
  The number before a suffix is checked for infinity, the product with the multiplier
  is not.
\<close>

lemma read_1e307:
  "read_float ''1e307'' = Some (\<lparr>l_neg = False, l_hex = False, l_val = 1, l_frac = 0, l_exp = 307\<rparr>, [])"
  by code_simp

lemma parse_float_1e307: "\<exists>y. parse_float ''1e307'' = Inr (Fin y) \<and> 2 ^ 1000 \<le> y"
proof -
  have "special ''1e307'' = None" by code_simp
  moreover have "lit_value \<lparr>l_neg = False, l_hex = False, l_val = 1, l_frac = 0, l_exp = 307\<rparr> = 10 ^ 307"
    by (simp add: lit_value_def rat_pow_def)
  moreover obtain y where "round64 (10 ^ 307) = Fin y" "2 ^ 1000 \<le> y"
  proof -
    have "(2 :: rat) ^ 1000 \<le> 10 ^ 307" "(10 :: rat) ^ 307 < 2 ^ 1023" by simp_all
    from round64_ge [OF this] show ?thesis using that by blast
  qed
  ultimately show ?thesis by (simp add: parse_float_def read_1e307)
qed

lemma parse_memory_overflow_core: "parse_memory ''1e307Ei'' = Inr PInf"
proof -
  have t: "trim_space ''1e307Ei'' = ''1e307Ei''"
    by (rule trim_space_solid) (simp add: solid_def byte_def)
  have f: "find (\<lambda>suf. has_suffix ''1e307Ei'' (fst suf)) binary_suffixes =
      Some (''Ei'', bytes_per_mib * bytes_per_mib)"
    unfolding binary_suffixes_def by (simp add: has_suffix_code)
  have n: "trim_suffix ''1e307Ei'' ''Ei'' = ''1e307''" by code_simp
  obtain y where y: "parse_float ''1e307'' = Inr (Fin y)" "2 ^ 1000 \<le> y"
    using parse_float_1e307 by blast
  have "(2 :: rat) ^ 1024 \<le> 2 ^ 40 * 2 ^ 1000" by simp
  also have "\<dots> \<le> bytes_per_mib * bytes_per_mib * y"
    using y(2) by (intro mult_mono) (auto simp: bytes_per_mib_def)
  finally have "round64 (bytes_per_mib * bytes_per_mib * y) = PInf" by (rule round64_overflow)
  moreover have "\<not> bad_number (Fin y)"
  proof -
    have "0 < y" using y(2) by (rule less_le_trans [rotated]) simp
    then show ?thesis by (simp add: bad_number_def)
  qed
  ultimately have "memory_number ''1e307Ei'' ''1e307'' (bytes_per_mib * bytes_per_mib) = Inr PInf"
    using y(1) by (simp add: memory_number_def)
  then show ?thesis
    by (simp only: parse_memory_def Let_def t f n option.case fst_conv snd_conv list.distinct if_False)
qed

end
