(* ===== verification/GoSort.thy ===== *)
theory GoSort
  imports Prelude
begin

text \<open>
  \<open>sort.Slice\<close>: the library promises an ordered permutation of the slice when the
  comparison is a strict weak order, and nothing about equal elements. The sort is an
  argument of the code that sorts; this locale is its contract. The insertion sort that
  the library runs on short slices satisfies it.
\<close>

text \<open>A strict weak order on the elements that satisfy \<open>D\<close>.\<close>

definition strict_weak :: "('a \<Rightarrow> 'a \<Rightarrow> bool) \<Rightarrow> ('a \<Rightarrow> bool) \<Rightarrow> bool" where
  "strict_weak lt D \<longleftrightarrow>
     (\<forall>a b. D a \<longrightarrow> D b \<longrightarrow> lt a b \<longrightarrow> \<not> lt b a) \<and>
     (\<forall>a b c. D a \<longrightarrow> D b \<longrightarrow> D c \<longrightarrow> \<not> lt b a \<longrightarrow> \<not> lt c b \<longrightarrow> \<not> lt c a)"

locale slice_sort =
  fixes srt :: "('a \<Rightarrow> 'a \<Rightarrow> bool) \<Rightarrow> 'a list \<Rightarrow> 'a list"
    and lt :: "'a \<Rightarrow> 'a \<Rightarrow> bool"
    and D :: "'a \<Rightarrow> bool"
  assumes sort_perm: "mset (srt lt xs) = mset xs"
    and sort_ordered: "\<forall>x \<in> set xs. D x \<Longrightarrow> sorted_wrt (\<lambda>a b. \<not> lt b a) (srt lt xs)"
begin

lemma sort_set [simp]: "set (srt lt xs) = set xs"
  using sort_perm [of xs] by (metis set_mset_mset)

lemma sort_length [simp]: "length (srt lt xs) = length xs"
  using sort_perm [of xs] by (metis size_mset)

text \<open>The first element that satisfies a predicate is a least one.\<close>

lemma pick_Some:
  assumes "\<forall>x \<in> set xs. D x" and "find P (srt lt xs) = Some i"
  shows "i \<in> set xs \<and> P i \<and> (\<forall>j \<in> set xs. P j \<longrightarrow> \<not> lt j i \<or> j = i)"
proof -
  let ?s = "srt lt xs"
  obtain k where k: "k < length ?s" "P (?s ! k)" "i = ?s ! k" "\<forall>l < k. \<not> P (?s ! l)"
    using assms(2) by (auto simp: find_Some_iff)
  have "\<not> lt j i \<or> j = i" if "j \<in> set xs" "P j" for j
  proof -
    from that(1) obtain l where l: "l < length ?s" "j = ?s ! l"
      using sort_set [of xs] by (metis in_set_conv_nth)
    then have "k \<le> l" using k(4) that(2) by (metis not_le)
    then show ?thesis
      using sort_ordered [OF assms(1)] k l by (metis le_neq_implies_less sorted_wrt_nth_less)
  qed
  moreover have "i \<in> set xs" using k sort_set [of xs] nth_mem by blast
  ultimately show ?thesis using k by blast
qed

lemma pick_None: "find P (srt lt xs) = None \<longleftrightarrow> (\<forall>i \<in> set xs. \<not> P i)"
  by (auto simp: find_None_iff)

lemma head_least:
  assumes "\<forall>x \<in> set xs. D x" and "srt lt xs = x # ys"
  shows "x \<in> set xs" and "\<forall>y \<in> set ys. \<not> lt y x" and "mset xs = add_mset x (mset ys)"
proof -
  show "x \<in> set xs" using sort_set [of xs] assms(2) by auto
  show "\<forall>y \<in> set ys. \<not> lt y x" using sort_ordered [OF assms(1)] assms(2) by simp
  show "mset xs = add_mset x (mset ys)" using sort_perm [of xs] assms(2) by simp
qed

end

text \<open>The insertion sort of short slices, and the same read from the other end.\<close>

fun insert_by :: "('a \<Rightarrow> 'a \<Rightarrow> bool) \<Rightarrow> 'a \<Rightarrow> 'a list \<Rightarrow> 'a list" where
  "insert_by lt x [] = [x]"
| "insert_by lt x (y # ys) = (if lt y x then y # insert_by lt x ys else x # y # ys)"

definition insertion_sort :: "('a \<Rightarrow> 'a \<Rightarrow> bool) \<Rightarrow> 'a list \<Rightarrow> 'a list" where
  "insertion_sort lt xs = foldr (insert_by lt) xs []"

definition insertion_sort_rev :: "('a \<Rightarrow> 'a \<Rightarrow> bool) \<Rightarrow> 'a list \<Rightarrow> 'a list" where
  "insertion_sort_rev lt xs = insertion_sort lt (rev xs)"

lemma mset_insert_by [simp]: "mset (insert_by lt x ys) = add_mset x (mset ys)"
  by (induction ys) auto

lemma mset_insertion_sort [simp]: "mset (insertion_sort lt xs) = mset xs"
  by (induction xs) (simp_all add: insertion_sort_def)

lemma set_insertion_sort [simp]: "set (insertion_sort lt xs) = set xs"
  by (metis mset_insertion_sort set_mset_mset)

lemma set_insert_by [simp]: "set (insert_by lt x ys) = insert x (set ys)"
  by (induction ys) auto

lemma sorted_insert_by:
  assumes "strict_weak lt D"
  shows "D x \<Longrightarrow> \<forall>y \<in> set ys. D y \<Longrightarrow> sorted_wrt (\<lambda>a b. \<not> lt b a) ys \<Longrightarrow>
    sorted_wrt (\<lambda>a b. \<not> lt b a) (insert_by lt x ys)"
proof (induction ys)
  case (Cons y ys)
  show ?case
  proof (cases "lt y x")
    case True
    moreover have "D x" "D y" using Cons.prems by auto
    ultimately have "\<not> lt x y" using assms unfolding strict_weak_def by blast
    moreover have "sorted_wrt (\<lambda>a b. \<not> lt b a) (insert_by lt x ys)"
      using Cons.IH Cons.prems by simp
    ultimately show ?thesis using True Cons.prems(3) by simp
  next
    case False
    have "\<not> lt z x" if "z \<in> set ys" for z
    proof -
      have "D z" "D y" "\<not> lt z y" using that Cons.prems by auto
      with assms False Cons.prems(1) show ?thesis unfolding strict_weak_def by blast
    qed
    with False Cons.prems show ?thesis by auto
  qed
qed simp

lemma insertion_sort_sorted:
  "strict_weak lt D \<Longrightarrow> \<forall>y \<in> set xs. D y \<Longrightarrow> sorted_wrt (\<lambda>a b. \<not> lt b a) (insertion_sort lt xs)"
proof (induction xs)
  case (Cons x xs)
  then have "sorted_wrt (\<lambda>a b. \<not> lt b a) (insert_by lt x (insertion_sort lt xs))"
    by (intro sorted_insert_by [OF Cons.prems(1)]) auto
  then show ?case by (simp add: insertion_sort_def)
qed (simp add: insertion_sort_def)

lemma insertion_sort_lawful: "strict_weak lt D \<Longrightarrow> slice_sort insertion_sort lt D"
  by unfold_locales (simp_all add: insertion_sort_sorted)

lemma insertion_sort_rev_lawful: "strict_weak lt D \<Longrightarrow> slice_sort insertion_sort_rev lt D"
  by unfold_locales (simp_all add: insertion_sort_rev_def insertion_sort_sorted)

end
