(* ===== verification/InstanceTypes.thy ===== *)
theory InstanceTypes
  imports Quantity GoSort
begin

text \<open>
  Instance selection of both drivers: the built-in catalogs, the size asked for (the
  larger of request and limit), and the first sufficient type of the catalog sorted by
  vCPUs, then memory. \<open>sort.Slice\<close> is not stable, so the sort is an argument with the
  contract of the locale below: a permutation, ordered by the given comparison. The
  choice satisfies the request and no smaller type does, whatever the sort.
\<close>

record instance_spec =
  is_name :: bytestr
  is_vcpus :: f64
  is_memory_mib :: f64

section \<open>Catalogs\<close>

definition spec_of :: "bytestr \<Rightarrow> nat \<Rightarrow> nat \<Rightarrow> instance_spec" where
  "spec_of n c m = \<lparr>is_name = n, is_vcpus = Fin (of_nat c), is_memory_mib = Fin (of_nat m)\<rparr>"

definition ec2_instance_types :: "instance_spec list" where
  "ec2_instance_types =
     [spec_of ''c7i.large'' 2 4096, spec_of ''c7i.xlarge'' 4 8192,
      spec_of ''c7i.2xlarge'' 8 16384, spec_of ''c7i.4xlarge'' 16 32768,
      spec_of ''c7i.8xlarge'' 32 65536, spec_of ''c7i.12xlarge'' 48 98304,
      spec_of ''c7i.16xlarge'' 64 131072, spec_of ''c7i.24xlarge'' 96 196608,
      spec_of ''c7i.48xlarge'' 192 393216,
      spec_of ''m7i.large'' 2 8192, spec_of ''m7i.xlarge'' 4 16384,
      spec_of ''m7i.2xlarge'' 8 32768, spec_of ''m7i.4xlarge'' 16 65536,
      spec_of ''m7i.8xlarge'' 32 131072, spec_of ''m7i.12xlarge'' 48 196608,
      spec_of ''m7i.16xlarge'' 64 262144, spec_of ''m7i.24xlarge'' 96 393216,
      spec_of ''m7i.48xlarge'' 192 786432,
      spec_of ''r7i.large'' 2 16384, spec_of ''r7i.xlarge'' 4 32768,
      spec_of ''r7i.2xlarge'' 8 65536, spec_of ''r7i.4xlarge'' 16 131072,
      spec_of ''r7i.8xlarge'' 32 262144, spec_of ''r7i.12xlarge'' 48 393216,
      spec_of ''r7i.16xlarge'' 64 524288, spec_of ''r7i.24xlarge'' 96 786432,
      spec_of ''r7i.48xlarge'' 192 1572864]"

definition kv_instance_types :: "instance_spec list" where
  "kv_instance_types =
     [spec_of ''cx1.medium'' 1 (2 * 1024), spec_of ''cx1.large'' 2 (4 * 1024),
      spec_of ''cx1.xlarge'' 4 (8 * 1024), spec_of ''cx1.2xlarge'' 8 (16 * 1024),
      spec_of ''cx1.4xlarge'' 16 (32 * 1024), spec_of ''cx1.8xlarge'' 32 (64 * 1024),
      spec_of ''d1.micro'' 1 (1 * 1024), spec_of ''d1.small'' 1 (2 * 1024),
      spec_of ''d1.medium'' 1 (4 * 1024), spec_of ''d1.large'' 2 (8 * 1024),
      spec_of ''d1.xlarge'' 4 (16 * 1024), spec_of ''d1.2xlarge'' 8 (32 * 1024),
      spec_of ''d1.4xlarge'' 16 (64 * 1024), spec_of ''d1.8xlarge'' 32 (128 * 1024)]"

section \<open>Selection\<close>

text \<open>The comparison handed to \<open>sort.Slice\<close>: by vCPUs, then by memory.\<close>

definition smaller :: "instance_spec \<Rightarrow> instance_spec \<Rightarrow> bool" where
  "smaller a b \<longleftrightarrow>
     (if \<not> f_eq (is_vcpus a) (is_vcpus b) then f_less (is_vcpus a) (is_vcpus b)
      else f_less (is_memory_mib a) (is_memory_mib b))"

text \<open>One dimension of the size: 0, the request, or the larger of request and limit.\<close>

definition required :: "(bytestr \<Rightarrow> goerr + f64) \<Rightarrow> bytestr \<Rightarrow> bytestr \<Rightarrow> goerr + f64" where
  "required parse req lmt =
     (case (if req \<noteq> [] then parse req else Inr (Fin 0)) of
        Inl e \<Rightarrow> Inl e
      | Inr v \<Rightarrow>
          if lmt \<noteq> [] then
            (case parse lmt of Inl e \<Rightarrow> Inl e | Inr w \<Rightarrow> Inr (f_max v w))
          else Inr v)"

definition sufficient :: "f64 \<Rightarrow> f64 \<Rightarrow> instance_spec \<Rightarrow> bool" where
  "sufficient cpu mem inst \<longleftrightarrow> f_le cpu (is_vcpus inst) \<and> f_le mem (is_memory_mib inst)"

type_synonym sorter = "(instance_spec \<Rightarrow> instance_spec \<Rightarrow> bool) \<Rightarrow> instance_spec list \<Rightarrow> instance_spec list"

definition select_from ::
  "sorter \<Rightarrow> instance_spec list \<Rightarrow> resource_quantities \<Rightarrow> goerr + bytestr" where
  "select_from sort_slice catalog q =
     (case required parse_cpu (cpu_request q) (cpu_limit q) of
        Inl e \<Rightarrow> Inl e
      | Inr cpu \<Rightarrow>
          (case required parse_memory (memory_request q) (memory_limit q) of
             Inl e \<Rightarrow> Inl e
           | Inr mem \<Rightarrow>
               (case find (sufficient cpu mem) (sort_slice smaller catalog) of
                  Some inst \<Rightarrow> Inr (is_name inst)
                | None \<Rightarrow> Inl ErrNoInstanceType)))"

definition no_quantities :: "resource_quantities \<Rightarrow> bool" where
  "no_quantities q \<longleftrightarrow>
     cpu_request q = [] \<and> cpu_limit q = [] \<and> memory_request q = [] \<and> memory_limit q = []"

definition ec2_select_instance_type ::
  "sorter \<Rightarrow> resource_quantities option \<Rightarrow> bytestr \<Rightarrow> goerr + bytestr" where
  "ec2_select_instance_type sort_slice resources default_type =
     (case resources of
        None \<Rightarrow> Inr default_type
      | Some q \<Rightarrow>
          if no_quantities q then Inr default_type
          else select_from sort_slice ec2_instance_types q)"

definition kv_default_type :: "bytestr \<Rightarrow> goerr + bytestr" where
  "kv_default_type default_type =
     (if default_type = [] then Inl ErrNoInstanceType else Inr default_type)"

definition kv_select_instance_type ::
  "sorter \<Rightarrow> resource_quantities option \<Rightarrow> bytestr \<Rightarrow> goerr + bytestr" where
  "kv_select_instance_type sort_slice resources default_type =
     (case resources of
        None \<Rightarrow> kv_default_type default_type
      | Some q \<Rightarrow>
          if no_quantities q then kv_default_type default_type
          else select_from sort_slice kv_instance_types q)"

section \<open>The contract of the sort\<close>

text \<open>Catalog entries have finite sizes; on those the comparison is a strict weak order.\<close>

definition finite_spec :: "instance_spec \<Rightarrow> bool" where
  "finite_spec i \<longleftrightarrow> (\<exists>c m. is_vcpus i = Fin c \<and> is_memory_mib i = Fin m)"

lemma smaller_finite:
  assumes "is_vcpus a = Fin c" "is_memory_mib a = Fin m" "is_vcpus b = Fin c'" "is_memory_mib b = Fin m'"
  shows "smaller a b \<longleftrightarrow> c < c' \<or> c = c' \<and> m < m'"
  using assms by (auto simp: smaller_def)

lemma smaller_weak: "strict_weak smaller finite_spec"
proof -
  have "\<not> smaller b a" if "finite_spec a" "finite_spec b" "smaller a b" for a b
    using that by (auto simp: finite_spec_def smaller_finite)
  moreover have "\<not> smaller c a" if "finite_spec a" "finite_spec b" "finite_spec c"
    "\<not> smaller b a" "\<not> smaller c b" for a b c
    using that by (auto simp: finite_spec_def smaller_finite)
  ultimately show ?thesis unfolding strict_weak_def by blast
qed

locale spec_sorter = slice_sort sort_slice smaller finite_spec for sort_slice :: sorter

interpretation ins: spec_sorter insertion_sort
  unfolding spec_sorter_def by (rule insertion_sort_lawful [OF smaller_weak])

interpretation insr: spec_sorter insertion_sort_rev
  unfolding spec_sorter_def by (rule insertion_sort_rev_lawful [OF smaller_weak])

section \<open>The chosen type\<close>

lemma catalog_finite:
  "\<forall>x \<in> set ec2_instance_types. finite_spec x" "\<forall>x \<in> set kv_instance_types. finite_spec x"
  by (simp_all add: ec2_instance_types_def kv_instance_types_def spec_of_def finite_spec_def)

text \<open>What a sufficient type has: at least each quantity that was given.\<close>

definition covers :: "(bytestr \<Rightarrow> goerr + f64) \<Rightarrow> bytestr \<Rightarrow> f64 \<Rightarrow> bool" where
  "covers parse s have_size \<longleftrightarrow> s = [] \<or> (\<exists>v. parse s = Inr v \<and> f_le v have_size)"

definition satisfies :: "resource_quantities \<Rightarrow> instance_spec \<Rightarrow> bool" where
  "satisfies q i \<longleftrightarrow>
     covers parse_cpu (cpu_request q) (is_vcpus i) \<and> covers parse_cpu (cpu_limit q) (is_vcpus i) \<and>
     covers parse_memory (memory_request q) (is_memory_mib i) \<and>
     covers parse_memory (memory_limit q) (is_memory_mib i)"

lemma covers_ok: "covers parse s x \<Longrightarrow> quantity_ok parse s"
  by (auto simp: covers_def quantity_ok_def)

lemma f_le_max: "v \<noteq> NaN \<Longrightarrow> w \<noteq> NaN \<Longrightarrow> f_le (f_max v w) x \<longleftrightarrow> f_le v x \<and> f_le w x"
  by (cases v; cases w; cases x) (auto simp: f_max_def f_le_def)

lemma required_covers:
  assumes "required parse req lmt = Inr c" and "\<And>s v. parse s = Inr v \<Longrightarrow> v \<noteq> NaN"
    and "f_le (Fin 0) x"
  shows "f_le c x \<longleftrightarrow> covers parse req x \<and> covers parse lmt x"
  using assms f_le_max
  by (auto simp: required_def covers_def split: if_split_asm sum.split_asm)

lemma required_Inl:
  "(\<exists>e. required parse req lmt = Inl e) \<longleftrightarrow> \<not> (quantity_ok parse req \<and> quantity_ok parse lmt)"
  by (auto simp: required_def quantity_ok_def split: if_split_asm sum.split_asm sum.split)

lemma parse_not_NaN: "parse_cpu s = Inr v \<Longrightarrow> v \<noteq> NaN" "parse_memory s = Inr v \<Longrightarrow> v \<noteq> NaN"
  using parse_cpu_range_core parse_memory_range_core by fastforce+

lemma catalog_nonneg:
  "i \<in> set ec2_instance_types \<or> i \<in> set kv_instance_types \<Longrightarrow>
   f_le (Fin 0) (is_vcpus i) \<and> f_le (Fin 0) (is_memory_mib i)"
  unfolding ec2_instance_types_def kv_instance_types_def
  by (auto simp: spec_of_def f_le_def)

lemma sufficient_satisfies:
  assumes "required parse_cpu (cpu_request q) (cpu_limit q) = Inr c"
    and "required parse_memory (memory_request q) (memory_limit q) = Inr m"
    and "i \<in> set ec2_instance_types \<or> i \<in> set kv_instance_types"
  shows "sufficient c m i \<longleftrightarrow> satisfies q i"
  using required_covers [OF assms(1) parse_not_NaN(1)] required_covers [OF assms(2) parse_not_NaN(2)]
    catalog_nonneg [OF assms(3)]
  by (auto simp: sufficient_def satisfies_def)

context spec_sorter begin

lemma select_from_Inr:
  assumes "select_from sort_slice cat q = Inr name" and "cat = ec2_instance_types \<or> cat = kv_instance_types"
  shows "\<exists>i \<in> set cat. is_name i = name \<and> satisfies q i \<and>
    (\<forall>j \<in> set cat. satisfies q j \<longrightarrow> \<not> smaller j i)"
proof -
  obtain c m i where r: "required parse_cpu (cpu_request q) (cpu_limit q) = Inr c"
    "required parse_memory (memory_request q) (memory_limit q) = Inr m"
    "find (sufficient c m) (sort_slice smaller cat) = Some i" "is_name i = name"
    using assms(1) by (auto simp: select_from_def split: sum.splits option.splits)
  have fin: "\<forall>x \<in> set cat. finite_spec x" using assms(2) catalog_finite by auto
  have eq: "sufficient c m j \<longleftrightarrow> satisfies q j" if "j \<in> set cat" for j
    using sufficient_satisfies [OF r(1,2)] that assms(2) by blast
  have "finite_spec i" using pick_Some [OF fin r(3)] fin by blast
  then have "\<not> smaller i i" by (auto simp: finite_spec_def smaller_finite)
  then show ?thesis using pick_Some [OF fin r(3)] r(4) eq by auto
qed

lemma select_from_Inl:
  assumes "cat = ec2_instance_types \<or> cat = kv_instance_types"
  shows "(\<exists>e. select_from sort_slice cat q = Inl e) \<longleftrightarrow> (\<forall>i \<in> set cat. \<not> satisfies q i)"
proof (cases "\<exists>c m. required parse_cpu (cpu_request q) (cpu_limit q) = Inr c \<and>
    required parse_memory (memory_request q) (memory_limit q) = Inr m")
  case True
  then obtain c m where r: "required parse_cpu (cpu_request q) (cpu_limit q) = Inr c"
    "required parse_memory (memory_request q) (memory_limit q) = Inr m" by blast
  have "sufficient c m i \<longleftrightarrow> satisfies q i" if "i \<in> set cat" for i
    using sufficient_satisfies [OF r] that assms by blast
  then show ?thesis using pick_None [of "sufficient c m" cat]
    by (auto simp: select_from_def r split: option.split)
next
  case False
  then have "\<exists>e. select_from sort_slice cat q = Inl e"
    by (auto simp: select_from_def split: sum.split)
  moreover have "\<not> satisfies q i" for i
  proof
    assume "satisfies q i"
    then have ok: "quantity_ok parse_cpu (cpu_request q)" "quantity_ok parse_cpu (cpu_limit q)"
      "quantity_ok parse_memory (memory_request q)" "quantity_ok parse_memory (memory_limit q)"
      by (auto simp: satisfies_def intro: covers_ok)
    obtain c where "required parse_cpu (cpu_request q) (cpu_limit q) = Inr c"
      using required_Inl [of parse_cpu "cpu_request q" "cpu_limit q"] ok(1,2) by (metis sumE)
    moreover obtain m where "required parse_memory (memory_request q) (memory_limit q) = Inr m"
      using required_Inl [of parse_memory "memory_request q" "memory_limit q"] ok(3,4) by (metis sumE)
    ultimately show False using False by blast
  qed
  ultimately show ?thesis by blast
qed

end

text \<open>Without ties the choice does not depend on the sort.\<close>

lemma ec2_no_ties:
  "i \<in> set ec2_instance_types \<Longrightarrow> j \<in> set ec2_instance_types \<Longrightarrow>
   \<not> smaller i j \<Longrightarrow> \<not> smaller j i \<Longrightarrow> i = j"
proof -
  have d: "distinct (map (\<lambda>i. (is_vcpus i, is_memory_mib i)) ec2_instance_types)"
    by (simp add: ec2_instance_types_def spec_of_def)
  assume a: "i \<in> set ec2_instance_types" "j \<in> set ec2_instance_types" "\<not> smaller i j" "\<not> smaller j i"
  then have "finite_spec i" "finite_spec j" using catalog_finite by auto
  with a have "(is_vcpus i, is_memory_mib i) = (is_vcpus j, is_memory_mib j)"
    by (auto simp: finite_spec_def smaller_finite)
  moreover have "inj_on (\<lambda>i. (is_vcpus i, is_memory_mib i)) (set ec2_instance_types)"
    using d by (simp only: distinct_map)
  ultimately show ?thesis using a(1,2) by (blast dest: inj_onD)
qed

end
