(* ===== verification/Ec2Core.thy ===== *)
theory Ec2Core
  imports Configs InstanceTypes
begin

text \<open>
  drivers/ec2/driver.go, the parts without effects: request validation, the mapping of
  provider errors to gRPC statuses, of EC2 states to conditions, of instances to
  records and messages. The lemmas say when a request is accepted, that a status never
  carries the provider's text, and which code it has.
\<close>

definition ec2_driver_name :: bytestr where "ec2_driver_name = ''openshell-driver-ec2''"
definition ec2_default_image :: bytestr where
  "ec2_default_image = ''ghcr.io/nvidia/openshell/sandbox:0.0.91''"

text \<open>The version is set by the linker: it is an argument.\<close>

definition ec2_get_capabilities :: "bytestr \<Rightarrow> capabilities" where
  "ec2_get_capabilities version =
     \<lparr>cap_driver_name = ec2_driver_name, cap_driver_version = version,
      cap_default_image = ec2_default_image\<rparr>"

section \<open>The provider's data\<close>

record launch_spec =
  ls_sandbox_id :: bytestr
  ls_name :: bytestr
  ls_namespace :: bytestr
  ls_workspace :: bytestr
  ls_gateway_id :: bytestr
  ls_image_id :: bytestr
  ls_instance_type :: bytestr
  ls_subnet_id :: bytestr
  ls_security_group_id :: bytestr
  ls_key_name :: bytestr
  ls_user_data :: bytestr
  ls_client_token :: bytestr
  ls_use_spot :: bool
  ls_disk_size_gb :: int
  ls_created_at :: time
  ls_max_lifetime :: bytestr

record instance_filter =
  if_gateway_id :: bytestr
  if_sandbox_id :: bytestr
  if_name :: bytestr

record ec2_inst =
  i_id :: bytestr
  i_sandbox_id :: bytestr
  i_name :: bytestr
  i_namespace :: bytestr
  i_workspace :: bytestr
  i_state :: bytestr
  i_created_at :: time

definition zero_inst :: ec2_inst where
  "zero_inst =
     \<lparr>i_id = [], i_sandbox_id = [], i_name = [], i_namespace = [], i_workspace = [],
      i_state = [], i_created_at = zero_time\<rparr>"

section \<open>Validation\<close>

definition ec2_validate_text :: "bytestr \<Rightarrow> bytestr \<Rightarrow> bool \<Rightarrow> nat \<Rightarrow> goerr option" where
  "ec2_validate_text nm value req mx =
     (if req \<and> value = [] then Some (ErrFmt ''%s is required'' [AStr nm])
      else if length value > mx then Some (ErrFmt ''%s exceeds %d bytes'' [AStr nm, AInt (int mx)])
      else if has_control value
      then Some (ErrFmt ''%s contains a forbidden control character'' [AStr nm])
      else None)"

definition log_levels :: "bytestr set" where
  "log_levels = {[], ''debug'', ''info'', ''warn'', ''error''}"

definition gpu_requested :: "driver_spec \<Rightarrow> bool" where
  "gpu_requested sp \<longleftrightarrow>
     (case sp_resource_requirements sp of
        None \<Rightarrow> False
      | Some rr \<Rightarrow>
          (case req_gpu rr of
             None \<Rightarrow> False
           | Some g \<Rightarrow> (case gpu_count g of None \<Rightarrow> False | Some n \<Rightarrow> n > 0)))"

text \<open>
  The range orders of the two maps of ValidateRequirements are the arguments
  \<open>ck\<close> and \<open>mk\<close>.
\<close>

definition ec2_validate_spec ::
  "bytestr list \<Rightarrow> bytestr list \<Rightarrow> driver_spec \<Rightarrow> goerr option" where
  "ec2_validate_spec ck mk sp =
     (case sp_template sp of
        None \<Rightarrow> Some (ErrNew ''sandbox template is required'')
      | Some tm \<Rightarrow>
          or_else (ec2_validate_text ''sandbox token'' (sp_sandbox_token sp) False (16 * 1024))
            (if sp_log_level sp \<notin> log_levels
             then Some (ErrFmt ''unsupported log level %q'' [AStr (sp_log_level sp)])
             else if gpu_requested sp
             then Some (ErrNew ''GPU resources are not supported by the EC2 driver'')
             else
               (case tm_resources tm of
                  None \<Rightarrow> None
                | Some q \<Rightarrow> validate_requirements ck mk q)))"

definition ec2_validate_sandbox ::
  "bytestr list \<Rightarrow> bytestr list \<Rightarrow> driver_sandbox option \<Rightarrow> goerr option" where
  "ec2_validate_sandbox ck mk sbo =
     (case sbo of
        None \<Rightarrow> Some (ErrNew ''sandbox is required'')
      | Some sb \<Rightarrow>
          or_else (ec2_validate_text ''sandbox ID'' (sb_id sb) True 256)
            (or_else (ec2_validate_text ''sandbox name'' (sb_name sb) True 246)
            (or_else (ec2_validate_text ''namespace'' (sb_namespace sb) False 256)
            (or_else (ec2_validate_text ''workspace'' (sb_workspace sb) False 256)
               (case sb_spec sb of
                  None \<Rightarrow> Some (ErrNew ''sandbox spec is required'')
                | Some sp \<Rightarrow> ec2_validate_spec ck mk sp)))))"

definition ec2_validate_sandbox_create ::
  "bytestr list \<Rightarrow> bytestr list \<Rightarrow> driver_sandbox option \<Rightarrow> grpc_status + unit" where
  "ec2_validate_sandbox_create ck mk sbo =
     (case ec2_validate_sandbox ck mk sbo of
        Some e \<Rightarrow> Inl (Status InvalidArgument e)
      | None \<Rightarrow> Inr ())"

section \<open>Provider errors\<close>

text \<open>
  \<open>c1\<close> and \<open>c2\<close> are what the two readings of \<open>ctx.Err()\<close> give; a code that
  matches no case falls through to the last return.
\<close>

definition ec2_api_status :: "bytestr \<Rightarrow> grpc_status option" where
  "ec2_api_status code0 =
     (let code = to_lower code0
      in if contains_sub code ''unauthor'' \<or> contains_sub code ''accessdenied''
         then Some (Status PermissionDenied (ErrNew ''AWS denied the EC2 operation''))
         else if contains_sub code ''throttl'' \<or> contains_sub code ''requestlimit''
         then Some (Status Unavailable (ErrNew ''AWS temporarily throttled the EC2 operation''))
         else if contains_sub code ''invalidparameter'' \<or> contains_sub code ''invalidami'' \<or>
                 contains_sub code ''invalidsubnet''
         then Some (Status FailedPrecondition
                (ErrNew ''AWS infrastructure configuration rejected the operation''))
         else None)"

definition ec2_provider_error :: "ctx_err option \<Rightarrow> ctx_err option \<Rightarrow> goerr \<Rightarrow> grpc_status" where
  "ec2_provider_error c1 c2 err =
     (if errors_is err ErrCanceled \<or> c1 = Some CtxCanceled
      then Status Canceled (ErrNew ''operation canceled'')
      else if errors_is err ErrDeadlineExceeded \<or> c2 = Some CtxDeadlineExceeded
      then Status DeadlineExceeded (ErrNew ''provider operation timed out'')
      else
        (case (case as_api_code err of Some code \<Rightarrow> ec2_api_status code | None \<Rightarrow> None) of
           Some st \<Rightarrow> st
         | None \<Rightarrow> Status Unavailable (ErrNew ''EC2 operation failed'')))"

section \<open>States and conditions\<close>

definition ec2_state_text :: "bytestr \<Rightarrow> bytestr \<times> bytestr \<times> bytestr" where
  "ec2_state_text state =
     (if state = ''launching'' \<or> state = ''pending''
      then (''False'', ''Provisioning'', ''EC2 instance is pending'')
      else if state = ''running'' then (''True'', ''Running'', ''EC2 instance is running'')
      else if state = ''stopping'' then (''False'', ''Stopping'', ''EC2 instance is stopping'')
      else if state = ''stopped'' then (''False'', ''Stopped'', ''EC2 instance is stopped'')
      else if state = ''shutting-down'' \<or> state = ''terminated''
      then (''False'', ''Terminating'', ''EC2 instance is terminating'')
      else (''Unknown'', ''Unknown'', ''unknown EC2 state: '' @ state))"

definition ec2_state_to_conditions_at :: "bytestr \<Rightarrow> time \<Rightarrow> driver_condition list" where
  "ec2_state_to_conditions_at state transition =
     (case ec2_state_text state of (status_value, reason, message) \<Rightarrow>
        [\<lparr>c_type = ''Ready'', c_status = status_value, c_reason = reason, c_message = message,
          c_last_transition_time = format_rfc3339 transition\<rparr>])"

definition ec2_sandbox_status :: "bytestr \<Rightarrow> bytestr \<Rightarrow> bytestr \<Rightarrow> time \<Rightarrow> driver_status" where
  "ec2_sandbox_status nm instance_id state transition =
     \<lparr>st_sandbox_name = nm, st_instance_id = instance_id, st_agent_fd = [], st_sandbox_fd = [],
      st_conditions = ec2_state_to_conditions_at state transition, st_deleting = False\<rparr>"

text \<open>recordFromInstance reads the clock: \<open>now\<close>.\<close>

definition ec2_record_from_instance :: "time \<Rightarrow> ec2_inst \<Rightarrow> srecord" where
  "ec2_record_from_instance now i =
     zero_record\<lparr>r_sandbox_id := i_sandbox_id i, r_name := i_name i, r_namespace := i_namespace i,
       r_workspace := i_workspace i, r_instance_id := i_id i, r_state := i_state i,
       r_created_at := i_created_at i,
       r_last_status := Some (ec2_sandbox_status (i_name i) (i_id i) (i_state i) now)\<rparr>"

definition ec2_instance_to_driver_sandbox :: "time \<Rightarrow> ec2_inst \<Rightarrow> driver_sandbox" where
  "ec2_instance_to_driver_sandbox now i = to_driver_sandbox (ec2_record_from_instance now i)"

definition sandbox_event :: "srecord \<Rightarrow> watch_event" where
  "sandbox_event rc = EvSandbox (to_driver_sandbox rc)"

section \<open>Lemmas\<close>

lemma ec2_validate_text_None:
  "ec2_validate_text nm v req mx = None \<longleftrightarrow> (req \<longrightarrow> v \<noteq> []) \<and> length v \<le> mx \<and> \<not> has_control v"
  by (simp add: ec2_validate_text_def not_le)

lemma ec2_validate_spec_None:
  "ec2_validate_spec ck mk sp = None \<longleftrightarrow>
     (\<exists>tm. sp_template sp = Some tm \<and> (\<forall>q. tm_resources tm = Some q \<longrightarrow> validate_requirements ck mk q = None)) \<and>
     length (sp_sandbox_token sp) \<le> 16 * 1024 \<and> \<not> has_control (sp_sandbox_token sp) \<and>
     sp_log_level sp \<in> log_levels \<and> \<not> gpu_requested sp"
  by (auto simp: ec2_validate_spec_def ec2_validate_text_None split: option.split)

lemma ec2_validate_sandbox_Some:
  "ec2_validate_sandbox ck mk (Some sb) = None \<longleftrightarrow>
     sb_id sb \<noteq> [] \<and> length (sb_id sb) \<le> 256 \<and> \<not> has_control (sb_id sb) \<and>
     sb_name sb \<noteq> [] \<and> length (sb_name sb) \<le> 246 \<and> \<not> has_control (sb_name sb) \<and>
     length (sb_namespace sb) \<le> 256 \<and> \<not> has_control (sb_namespace sb) \<and>
     length (sb_workspace sb) \<le> 256 \<and> \<not> has_control (sb_workspace sb) \<and>
     (\<exists>sp. sb_spec sb = Some sp \<and> ec2_validate_spec ck mk sp = None)"
  unfolding ec2_validate_sandbox_def option.case
  by (auto simp: ec2_validate_text_None split: option.split)

lemma ec2_validate_sandbox_core:
  assumes "set ck = {''cpu request'', ''cpu limit''}" and "set mk = {''memory request'', ''memory limit''}"
  shows "ec2_validate_sandbox ck mk sbo = None \<longleftrightarrow>
    (\<exists>sb sp tm. sbo = Some sb \<and> sb_spec sb = Some sp \<and> sp_template sp = Some tm \<and>
       sb_id sb \<noteq> [] \<and> length (sb_id sb) \<le> 256 \<and> sb_name sb \<noteq> [] \<and> length (sb_name sb) \<le> 246 \<and>
       length (sb_namespace sb) \<le> 256 \<and> length (sb_workspace sb) \<le> 256 \<and>
       length (sp_sandbox_token sp) \<le> 16 * 1024 \<and>
       \<not> has_control (sb_id sb) \<and> \<not> has_control (sb_name sb) \<and> \<not> has_control (sb_namespace sb) \<and>
       \<not> has_control (sb_workspace sb) \<and> \<not> has_control (sp_sandbox_token sp) \<and>
       sp_log_level sp \<in> log_levels \<and> \<not> gpu_requested sp \<and>
       (\<forall>q. tm_resources tm = Some q \<longrightarrow>
          quantity_ok parse_cpu (cpu_request q) \<and> quantity_ok parse_cpu (cpu_limit q) \<and>
          quantity_ok parse_memory (memory_request q) \<and> quantity_ok parse_memory (memory_limit q)))"
proof (cases sbo)
  case None
  then show ?thesis by (simp add: ec2_validate_sandbox_def)
next
  case (Some sb)
  show ?thesis
    unfolding Some ec2_validate_sandbox_Some ec2_validate_spec_None validate_requirements_core [OF assms]
    by (simp only: option.inject) blast
qed

text \<open>The message of a provider status is one of six constants: no text of the provider.\<close>

definition ec2_provider_messages :: "(code \<times> bytestr) set" where
  "ec2_provider_messages =
     {(Canceled, ''operation canceled''), (DeadlineExceeded, ''provider operation timed out''),
      (PermissionDenied, ''AWS denied the EC2 operation''),
      (Unavailable, ''AWS temporarily throttled the EC2 operation''),
      (FailedPrecondition, ''AWS infrastructure configuration rejected the operation''),
      (Unavailable, ''EC2 operation failed'')}"

lemma ec2_provider_error_sanitized_core:
  "\<exists>c m. ec2_provider_error c1 c2 err = Status c (ErrNew m) \<and> (c, m) \<in> ec2_provider_messages"
  by (auto simp: ec2_provider_error_def ec2_api_status_def ec2_provider_messages_def Let_def
      split: option.split)

lemma ec2_state_ready: "fst (ec2_state_text s) = ''True'' \<longleftrightarrow> s = ''running''"
  by (auto simp: ec2_state_text_def)

lemma ec2_record_frame [simp]:
  "r_sandbox_id (ec2_record_from_instance now i) = i_sandbox_id i"
  "r_instance_id (ec2_record_from_instance now i) = i_id i"
  "r_state (ec2_record_from_instance now i) = i_state i"
  "r_created_at (ec2_record_from_instance now i) = i_created_at i"
  "r_spec (ec2_record_from_instance now i) = None"
  "r_lease (ec2_record_from_instance now i) = 0"
  "r_missing_polls (ec2_record_from_instance now i) = 0"
  by (simp_all add: ec2_record_from_instance_def zero_record_def)

section \<open>The provider's contract\<close>

text \<open>
  What the driver relies on when a launch succeeds: the instance has an identity and,
  when the launch carried a creation time, one of its own.
\<close>

locale instance_provider =
  fixes launch :: "launch_spec \<Rightarrow> 'w \<Rightarrow> (goerr + ec2_inst) \<times> 'w"
  assumes launch_id: "fst (launch spec w) = Inr i \<Longrightarrow> i_id i \<noteq> []"
    and launch_created: "fst (launch spec w) = Inr i \<Longrightarrow> \<not> is_zero (ls_created_at spec) \<Longrightarrow>
      \<not> is_zero (i_created_at i)"
begin

lemma launch_ok:
  "launch spec w = (Inr i, w') \<Longrightarrow> \<not> is_zero (ls_created_at spec) \<Longrightarrow>
   i_id i \<noteq> [] \<and> \<not> is_zero (i_created_at i)"
  using launch_id [of spec w i] launch_created [of spec w i] by simp

end

end
