(* ===== verification/Ec2Client.thy ===== *)
theory Ec2Client
  imports Ec2Core
begin

text \<open>
  drivers/ec2/ec2.go: the AWS adapter behind the driver's provider interface. The SDK's
  four calls are the fields of \<open>ec2_api\<close>; a request is the record of the fields the
  code sets, a response the fields it reads. Every pointer that may be nil is an option.
  The lemmas state the security policy of every launch, that the launch tags read back
  as the sandbox they were written for, and what Launch and List answer.
\<close>

definition tag_sandbox_id :: bytestr where "tag_sandbox_id = ''openshell.io/sandbox-id''"
definition tag_sandbox_name :: bytestr where "tag_sandbox_name = ''openshell.io/sandbox-name''"
definition tag_namespace :: bytestr where "tag_namespace = ''openshell.io/namespace''"
definition tag_gateway_id :: bytestr where "tag_gateway_id = ''openshell.io/gateway-id''"
definition tag_workspace :: bytestr where "tag_workspace = ''openshell.io/workspace''"
definition tag_created_at :: bytestr where "tag_created_at = ''openshell.io/created-at''"
definition tag_max_lifetime :: bytestr where "tag_max_lifetime = ''openshell.io/max-lifetime''"

lemmas tag_names = tag_sandbox_id_def tag_sandbox_name_def tag_namespace_def tag_gateway_id_def
  tag_workspace_def tag_created_at_def tag_max_lifetime_def

section \<open>Requests and responses\<close>

datatype endpoint_state = EndpointEnabled | EndpointDisabled
datatype shutdown_behavior = ShutdownStop | ShutdownTerminate
datatype market_type = MarketSpot

record block_device =
  bd_device_name :: bytestr
  bd_volume_size :: int
  bd_volume_type :: bytestr
  bd_encrypted :: bool
  bd_delete_on_termination :: bool

type_synonym tags = "(bytestr \<times> bytestr) list"

record run_input =
  ri_image_id :: bytestr
  ri_instance_type :: bytestr
  ri_min_count :: int
  ri_max_count :: int
  ri_subnet_id :: bytestr
  ri_security_group_ids :: "bytestr list"
  ri_user_data :: bytestr
  ri_client_token :: bytestr
  ri_shutdown_behavior :: shutdown_behavior
  ri_tag_specifications :: "(bytestr \<times> tags) list"
  ri_http_endpoint :: endpoint_state
  ri_block_devices :: "block_device list"
  ri_key_name :: "bytestr option"
  ri_market_type :: "market_type option"

record raw_instance =
  raw_id :: "bytestr option"
  raw_tags :: "(bytestr option \<times> bytestr option) list"
  raw_launch_time :: "time option"
  raw_state :: "bytestr option"

type_synonym ec2_filters = "(bytestr \<times> bytestr list) list"

text \<open>
  \<open>next_page\<close> is the SDK's paginator: the page number in, the page's reservations
  out, and whether more pages follow.
\<close>

record 'w ec2_api =
  run_instances :: "run_input \<Rightarrow> 'w \<Rightarrow> (goerr + raw_instance list option) \<times> 'w"
  terminate_instances :: "bytestr list \<Rightarrow> 'w \<Rightarrow> goerr option \<times> 'w"
  stop_instances :: "bytestr list \<Rightarrow> 'w \<Rightarrow> goerr option \<times> 'w"
  next_page :: "ec2_filters \<Rightarrow> nat \<Rightarrow> 'w \<Rightarrow> (goerr + raw_instance list list \<times> bool) \<times> 'w"

section \<open>Launch\<close>

definition launch_tags :: "launch_spec \<Rightarrow> tags" where
  "launch_tags spec =
     [(tag_sandbox_id, ls_sandbox_id spec), (tag_sandbox_name, ls_name spec),
      (tag_namespace, ls_namespace spec), (tag_gateway_id, ls_gateway_id spec),
      (tag_workspace, ls_workspace spec),
      (tag_created_at, format_rfc3339_nano (ls_created_at spec)),
      (tag_max_lifetime, ls_max_lifetime spec), (''Name'', ''openshell-'' @ ls_name spec)]"

definition launch_input :: "launch_spec \<Rightarrow> run_input" where
  "launch_input spec =
     (let tags = launch_tags spec;
          input =
            \<lparr>ri_image_id = ls_image_id spec, ri_instance_type = ls_instance_type spec,
             ri_min_count = 1, ri_max_count = 1, ri_subnet_id = ls_subnet_id spec,
             ri_security_group_ids = [ls_security_group_id spec], ri_user_data = ls_user_data spec,
             ri_client_token = ls_client_token spec, ri_shutdown_behavior = ShutdownTerminate,
             ri_tag_specifications =
               [(''instance'', tags), (''volume'', tags), (''network-interface'', tags)],
             ri_http_endpoint = EndpointDisabled,
             ri_block_devices =
               [\<lparr>bd_device_name = ''/dev/sda1'', bd_volume_size = ls_disk_size_gb spec,
                 bd_volume_type = ''gp3'', bd_encrypted = True, bd_delete_on_termination = True\<rparr>],
             ri_key_name = None, ri_market_type = None\<rparr>;
          input = (if ls_key_name spec \<noteq> [] then input\<lparr>ri_key_name := Some (ls_key_name spec)\<rparr> else input)
      in if ls_use_spot spec
         then input\<lparr>ri_market_type := Some MarketSpot,
                ri_tag_specifications :=
                  ri_tag_specifications input @ [(''spot-instances-request'', tags)]\<rparr>
         else input)"

text \<open>\<open>aws.ToString\<close> and a missing map key give the empty string.\<close>

definition to_string :: "bytestr option \<Rightarrow> bytestr" where
  "to_string s = (case s of None \<Rightarrow> [] | Some x \<Rightarrow> x)"

definition tag_map :: "(bytestr option \<times> bytestr option) list \<Rightarrow> tags" where
  "tag_map ts =
     fold (\<lambda>(k, v) m. AList.update k v m) (map (\<lambda>(k, v). (to_string k, to_string v)) ts) []"

definition tag_get :: "tags \<Rightarrow> bytestr \<Rightarrow> bytestr" where
  "tag_get m k = to_string (map_of m k)"

definition normalize_instance :: "raw_instance \<Rightarrow> ec2_inst" where
  "normalize_instance raw =
     (let tags = tag_map (raw_tags raw);
          launched = (case raw_launch_time raw of None \<Rightarrow> zero_time | Some t \<Rightarrow> t);
          created =
            (if is_zero launched then
               (case parse_rfc3339 (tag_get tags tag_created_at) of None \<Rightarrow> zero_time | Some t \<Rightarrow> t)
             else launched)
      in \<lparr>i_id = to_string (raw_id raw), i_sandbox_id = tag_get tags tag_sandbox_id,
          i_name = tag_get tags tag_sandbox_name, i_namespace = tag_get tags tag_namespace,
          i_workspace = tag_get tags tag_workspace, i_state = to_string (raw_state raw),
          i_created_at = created\<rparr>)"

definition complete_instance :: "launch_spec \<Rightarrow> ec2_inst \<Rightarrow> ec2_inst" where
  "complete_instance spec i =
     (let i1 = (if i_sandbox_id i = []
                then i\<lparr>i_sandbox_id := ls_sandbox_id spec, i_name := ls_name spec,
                       i_namespace := ls_namespace spec, i_workspace := ls_workspace spec\<rparr>
                else i)
      in if is_zero (i_created_at i1) then i1\<lparr>i_created_at := ls_created_at spec\<rparr> else i1)"

definition aws_launch :: "'w ec2_api \<Rightarrow> launch_spec \<Rightarrow> 'w \<Rightarrow> (goerr + ec2_inst) \<times> 'w" where
  "aws_launch api spec w =
     (case run_instances api (launch_input spec) w of
        (Inl e, w') \<Rightarrow> (Inl (ErrWrap ''run EC2 instance: %w'' [] e), w')
      | (Inr res, w') \<Rightarrow>
          (case res of
             Some [raw] \<Rightarrow>
               (let i = normalize_instance raw
                in if i_id i = []
                   then (Inl (ErrFmt ''run EC2 instance: response has empty instance ID'' []), w')
                   else (Inr (complete_instance spec i), w'))
           | _ \<Rightarrow>
               (Inl (ErrFmt ''run EC2 instance: expected one instance, received malformed response'' []),
                w')))"

section \<open>List, Stop, Terminate\<close>

definition list_filters :: "instance_filter \<Rightarrow> ec2_filters" where
  "list_filters f =
     (if if_gateway_id f \<noteq> [] then [(''tag:'' @ tag_gateway_id, [if_gateway_id f])] else []) @
     (if if_sandbox_id f \<noteq> [] then [(''tag:'' @ tag_sandbox_id, [if_sandbox_id f])] else []) @
     (if if_name f \<noteq> [] then [(''tag:'' @ tag_sandbox_name, [if_name f])] else [])"

text \<open>The paginator loop; \<open>None\<close> when \<open>fuel\<close> pages did not end it.\<close>

fun list_pages ::
  "'w ec2_api \<Rightarrow> ec2_filters \<Rightarrow> nat \<Rightarrow> nat \<Rightarrow> ec2_inst list \<Rightarrow> 'w \<Rightarrow> ((goerr + ec2_inst list) \<times> 'w) option"
  where
  "list_pages api fs 0 n acc w = None"
| "list_pages api fs (Suc fuel) n acc w =
     (case next_page api fs n w of
        (Inl e, w') \<Rightarrow> Some (Inl (ErrWrap ''describe EC2 instances: %w'' [] e), w')
      | (Inr (reservations, has_more), w') \<Rightarrow>
          (let acc' = acc @ map normalize_instance (concat reservations)
           in if has_more then list_pages api fs fuel (Suc n) acc' w' else Some (Inr acc', w')))"

definition aws_list ::
  "'w ec2_api \<Rightarrow> nat \<Rightarrow> instance_filter \<Rightarrow> 'w \<Rightarrow> ((goerr + ec2_inst list) \<times> 'w) option" where
  "aws_list api fuel f w = list_pages api (list_filters f) fuel 0 [] w"

definition aws_stop :: "'w ec2_api \<Rightarrow> bytestr \<Rightarrow> 'w \<Rightarrow> goerr option \<times> 'w" where
  "aws_stop api i w =
     (case stop_instances api [i] w of
        (Some e, w') \<Rightarrow> (Some (ErrWrap ''stop EC2 instance %s: %w'' [AStr i] e), w')
      | (None, w') \<Rightarrow> (None, w'))"

definition aws_terminate :: "'w ec2_api \<Rightarrow> bytestr list \<Rightarrow> 'w \<Rightarrow> goerr option \<times> 'w" where
  "aws_terminate api ids w =
     (if ids = [] then (None, w)
      else
        (case terminate_instances api ids w of
           (Some e, w') \<Rightarrow> (Some (ErrWrap ''terminate EC2 instances: %w'' [] e), w')
         | (None, w') \<Rightarrow> (None, w')))"

section \<open>The launch policy\<close>

text \<open>What every request asks for, whatever the sandbox and the configuration.\<close>

definition launch_policy :: "run_input \<Rightarrow> bool" where
  "launch_policy ri \<longleftrightarrow>
     ri_http_endpoint ri = EndpointDisabled \<and> ri_shutdown_behavior ri = ShutdownTerminate \<and>
     ri_min_count ri = 1 \<and> ri_max_count ri = 1 \<and> ri_block_devices ri \<noteq> [] \<and>
     (\<forall>b \<in> set (ri_block_devices ri). bd_encrypted b \<and> bd_delete_on_termination b)"

lemma launch_policy_core: "launch_policy (launch_input spec)"
  by (simp add: launch_policy_def launch_input_def Let_def)

lemma launch_tags_everywhere:
  "(rt, ts) \<in> set (ri_tag_specifications (launch_input spec)) \<Longrightarrow> ts = launch_tags spec"
  by (auto simp: launch_input_def Let_def split: if_splits)

lemma launch_tagged_resources:
  "fst ` set (ri_tag_specifications (launch_input spec)) =
     {''instance'', ''volume'', ''network-interface''} \<union>
     (if ls_use_spot spec then {''spot-instances-request''} else {})"
  by (cases "ls_use_spot spec") (simp_all add: launch_input_def Let_def)

section \<open>Tags read back\<close>

lemma launch_tags_distinct: "distinct (map fst (launch_tags spec))"
proof -
  have "map fst (launch_tags spec) =
      [tag_sandbox_id, tag_sandbox_name, tag_namespace, tag_gateway_id, tag_workspace,
       tag_created_at, tag_max_lifetime, ''Name'']" by (simp add: launch_tags_def)
  moreover have "distinct [tag_sandbox_id, tag_sandbox_name, tag_namespace, tag_gateway_id,
      tag_workspace, tag_created_at, tag_max_lifetime, ''Name'']" by code_simp
  ultimately show ?thesis by simp
qed

lemma tag_map_tags:
  "map_of (tag_map (map (\<lambda>(k, v). (Some k, Some v)) (launch_tags spec))) = map_of (launch_tags spec)"
proof -
  have "map (\<lambda>(k, v). (to_string k, to_string v)) (map (\<lambda>(k, v). (Some k, Some v)) (launch_tags spec)) =
      launch_tags spec" by (simp add: to_string_def split_def o_def)
  then show ?thesis
    by (simp only: tag_map_def map_of_fold_update map_of_rev_distinct [OF launch_tags_distinct])
      simp
qed

definition tagged_raw :: "launch_spec \<Rightarrow> bytestr \<Rightarrow> time option \<Rightarrow> bytestr option \<Rightarrow> raw_instance" where
  "tagged_raw spec i lt st =
     \<lparr>raw_id = Some i, raw_tags = map (\<lambda>(k, v). (Some k, Some v)) (launch_tags spec),
      raw_launch_time = lt, raw_state = st\<rparr>"

lemma tag_lookups:
  "map_of (launch_tags spec) tag_sandbox_id = Some (ls_sandbox_id spec)"
  "map_of (launch_tags spec) tag_sandbox_name = Some (ls_name spec)"
  "map_of (launch_tags spec) tag_namespace = Some (ls_namespace spec)"
  "map_of (launch_tags spec) tag_workspace = Some (ls_workspace spec)"
  "map_of (launch_tags spec) tag_created_at = Some (format_rfc3339_nano (ls_created_at spec))"
  by (rule map_of_is_SomeI [OF launch_tags_distinct]; simp add: launch_tags_def)+

lemma normalize_tagged_core:
  assumes "printable_time (ls_created_at spec)"
  shows "normalize_instance (tagged_raw spec i None st) =
    \<lparr>i_id = i, i_sandbox_id = ls_sandbox_id spec, i_name = ls_name spec,
     i_namespace = ls_namespace spec, i_workspace = ls_workspace spec, i_state = to_string st,
     i_created_at = ls_created_at spec\<rparr>"
  using parse_format_rfc3339_nano_core [OF assms]
  by (simp add: normalize_instance_def tagged_raw_def tag_get_def tag_map_tags tag_lookups
      to_string_def is_zero_def Let_def)

section \<open>Launch answers\<close>

lemma complete_instance_created:
  "\<not> is_zero (ls_created_at spec) \<Longrightarrow> \<not> is_zero (i_created_at (complete_instance spec i))"
  by (simp add: complete_instance_def Let_def)

lemma complete_instance_id [simp]: "i_id (complete_instance spec i) = i_id i"
  by (simp add: complete_instance_def Let_def)

lemma aws_launch_Inr:
  assumes "fst (aws_launch api spec w) = Inr i"
  obtains raw where "fst (run_instances api (launch_input spec) w) = Inr (Some [raw])"
    and "i = complete_instance spec (normalize_instance raw)" and "i_id i \<noteq> []"
  using assms that
  by (auto simp: aws_launch_def Let_def split: prod.split_asm sum.split_asm option.split_asm
      list.split_asm if_split_asm)

interpretation aws: instance_provider "aws_launch api" for api
proof unfold_locales
  fix spec w i
  assume a: "fst (aws_launch api spec w) = Inr i"
  show "i_id i \<noteq> []" using a by (rule aws_launch_Inr)
  assume "\<not> is_zero (ls_created_at spec)"
  with a show "\<not> is_zero (i_created_at i)" by (metis aws_launch_Inr complete_instance_created)
qed

section \<open>Listing\<close>

text \<open>Enough fuel changes nothing, and a listing of \<open>k\<close> pages needs \<open>k\<close>.\<close>

lemma list_pages_more_fuel:
  "list_pages api fs fuel n acc w = Some x \<Longrightarrow> list_pages api fs (fuel + k) n acc w = Some x"
proof (induction fuel arbitrary: n acc w)
  case (Suc fuel)
  then show ?case
    by (auto simp: Let_def split: prod.splits sum.splits if_splits)
qed simp

text \<open>A service whose pages end: page \<open>n\<close> is \<open>pages ! n\<close>, the last says so.\<close>

definition serves :: "'w ec2_api \<Rightarrow> ec2_filters \<Rightarrow> raw_instance list list list \<Rightarrow> bool" where
  "serves api fs pages \<longleftrightarrow>
     (\<forall>n w. n < length pages \<longrightarrow> next_page api fs n w = (Inr (pages ! n, Suc n < length pages), w))"

lemma list_pages_serves:
  assumes "serves api fs pages" and "n < length pages"
  shows "list_pages api fs (length pages - n) n acc w =
    Some (Inr (acc @ map normalize_instance (concat (concat (drop n pages)))), w)"
  using assms(2)
proof (induction "length pages - n" arbitrary: n acc)
  case 0
  then show ?case by simp
next
  case (Suc k)
  have np: "next_page api fs n w = (Inr (pages ! n, Suc n < length pages), w)"
    using assms(1) Suc.prems by (simp add: serves_def)
  have d: "drop n pages = pages ! n # drop (Suc n) pages" using Suc.prems by (simp add: Cons_nth_drop_Suc)
  have l: "length pages - n = Suc (length pages - Suc n)" using Suc.prems by simp
  show ?case
  proof (cases "Suc n < length pages")
    case True
    with Suc.hyps(1) [of "Suc n"] Suc.hyps(2) show ?thesis by (simp add: l np d Let_def)
  next
    case False
    then have "drop (Suc n) pages = []" by simp
    with False show ?thesis by (simp add: l np d Let_def)
  qed
qed

lemma aws_list_core:
  assumes "serves api (list_filters f) pages" and "pages \<noteq> []" and "length pages \<le> fuel"
  shows "aws_list api fuel f w = Some (Inr (map normalize_instance (concat (concat pages))), w)"
  using list_pages_more_fuel [OF list_pages_serves [OF assms(1), of 0 "[]" w], of "fuel - length pages"]
    assms(2,3)
  by (simp add: aws_list_def)

end
