(* ===== verification/Ec2Driver.thy ===== *)
theory Ec2Driver
  imports Sys Ec2Client
begin

text \<open>
  drivers/ec2/driver.go, the handlers: programs over the registry and the world, one
  atomic action for each registry operation, provider call and clock reading, in the
  order of the code. A handler answers a gRPC status or its response. The environment
  holds what the driver is built from: configuration, provider, runtime, and the
  library arguments of the bootstrap renderer and the instance selection.
\<close>

record 'w ec2_env =
  ee_config :: ec2_config
  ee_runtime :: "'w runtime"
  ee_launch :: "launch_spec \<Rightarrow> 'w \<Rightarrow> (goerr + ec2_inst) \<times> 'w"
  ee_list :: "instance_filter \<Rightarrow> 'w \<Rightarrow> (goerr + ec2_inst list) \<times> 'w"
  ee_stop :: "bytestr \<Rightarrow> 'w \<Rightarrow> goerr option \<times> 'w"
  ee_terminate :: "bytestr list \<Rightarrow> 'w \<Rightarrow> goerr option \<times> 'w"
  ee_transport_lib :: transport_lib
  ee_print_table :: "nat \<Rightarrow> bool"
  ee_sort :: sorter
  ee_sort_instances :: "(ec2_inst \<Rightarrow> ec2_inst \<Rightarrow> bool) \<Rightarrow> ec2_inst list \<Rightarrow> ec2_inst list"

definition ec2_limits :: "ec2_config \<Rightarrow> limits" where
  "ec2_limits c = \<lparr>max_instances = e_max_instances c, max_instance_age = e_max_instance_age c\<rparr>"

text \<open>NewEC2Driver: the registry it starts with.\<close>

definition new_ec2_driver ::
  "transport_lib \<Rightarrow> bytestr list \<Rightarrow> ec2_config \<Rightarrow> 'p option \<Rightarrow> goerr + registry" where
  "new_ec2_driver lib ks c provider =
     (if provider = None then Inl (ErrNew ''instance provider is required'')
      else
        (case ec2_validate_config lib ks c of
           Some e \<Rightarrow> Inl (ErrWrap ''invalid EC2 driver configuration: %w'' [] e)
         | None \<Rightarrow> Inr (new_registry (ec2_limits c))))"

definition hex_of :: "bytestr \<Rightarrow> bytestr" where
  "hex_of s = concat (map (\<lambda>c. hex_digits 2 (byte c)) s)"

text \<open>Reading the order of a map literal's keys.\<close>

definition order_of :: "'w runtime \<Rightarrow> bytestr list \<Rightarrow> (bytestr list \<Rightarrow> ('w sys, 'a) prog) \<Rightarrow> ('w sys, 'a) prog" where
  "order_of rt ks k = act (on_world (rt_order rt ks)) k"

definition now_of :: "'w runtime \<Rightarrow> (time \<Rightarrow> ('w sys, 'a) prog) \<Rightarrow> ('w sys, 'a) prog" where
  "now_of rt k = act (on_world (rt_now rt)) k"

lemma run_order_of [exec]:
  "run (order_of rt ks k) s =
     run (k (fst (rt_order rt ks (sy_world s)))) (s\<lparr>sy_world := snd (rt_order rt ks (sy_world s))\<rparr>)"
  by (simp add: order_of_def run_on_world)

lemma run_now_of [exec]:
  "run (now_of rt k) s =
     run (k (fst (rt_now rt (sy_world s)))) (s\<lparr>sy_world := snd (rt_now rt (sy_world s))\<rparr>)"
  by (simp add: now_of_def run_on_world)

definition cpu_keys :: "bytestr list" where "cpu_keys = [''cpu request'', ''cpu limit'']"
definition mem_keys :: "bytestr list" where "mem_keys = [''memory request'', ''memory limit'']"
definition sec_keys :: "bytestr list" where
  "sec_keys = [''sandbox ID'', ''sandbox token'', ''log level'', ''max lifetime'']"

section \<open>Errors of the provider\<close>

definition ec2_fail :: "'w ec2_env \<Rightarrow> goerr \<Rightarrow> ('w sys, grpc_status + 'a) prog" where
  "ec2_fail env err =
     act (on_world (rt_ctx_err (ee_runtime env))) (\<lambda>c1.
     act (on_world (rt_ctx_err (ee_runtime env))) (\<lambda>c2.
       Ret (Inl (ec2_provider_error c1 c2 err))))"

section \<open>CreateSandbox\<close>

definition ec2_validate :: "'w ec2_env \<Rightarrow> driver_sandbox option \<Rightarrow> ('w sys, grpc_status + unit) prog" where
  "ec2_validate env sbo =
     order_of (ee_runtime env) cpu_keys (\<lambda>ck.
     order_of (ee_runtime env) mem_keys (\<lambda>mk.
       Ret (ec2_validate_sandbox_create ck mk sbo)))"

definition sandbox_resources :: "driver_sandbox \<Rightarrow> resource_quantities option" where
  "sandbox_resources sb =
     (case sb_spec sb of
        None \<Rightarrow> None
      | Some sp \<Rightarrow> (case sp_template sp of None \<Rightarrow> None | Some tm \<Rightarrow> tm_resources tm))"

definition sandbox_token :: "driver_sandbox \<Rightarrow> bytestr" where
  "sandbox_token sb = (case sb_spec sb of None \<Rightarrow> [] | Some sp \<Rightarrow> sp_sandbox_token sp)"

definition sandbox_log_level :: "driver_sandbox \<Rightarrow> bytestr" where
  "sandbox_log_level sb =
     (let l = (case sb_spec sb of None \<Rightarrow> [] | Some sp \<Rightarrow> sp_log_level sp)
      in if l = [] then ''info'' else l)"

definition select_status :: "goerr \<Rightarrow> grpc_status" where
  "select_status err =
     Status (if errors_is err ErrNoInstanceType then ResourceExhausted else InvalidArgument) err"

definition reserve_status :: "goerr \<Rightarrow> grpc_status" where
  "reserve_status err =
     Status (if errors_is err ErrCapacity then ResourceExhausted else AlreadyExists) err"

definition ec2_launching_record :: "driver_sandbox \<Rightarrow> time \<Rightarrow> srecord" where
  "ec2_launching_record sb created_at =
     zero_record\<lparr>r_sandbox_id := sb_id sb, r_name := sb_name sb, r_namespace := sb_namespace sb,
       r_workspace := sb_workspace sb, r_state := ''launching'', r_created_at := created_at,
       r_spec := sb_spec sb,
       r_last_status := Some (ec2_sandbox_status (sb_name sb) [] ''pending'' created_at)\<rparr>"

definition ec2_user_data_params :: "'w ec2_env \<Rightarrow> driver_sandbox \<Rightarrow> bytestr \<Rightarrow> user_data_params" where
  "ec2_user_data_params env sb lifetime =
     \<lparr>ud_transport = e_transport (ee_config env), ud_sandbox_id = sb_id sb,
      ud_sandbox_token = sandbox_token sb, ud_log_level = sandbox_log_level sb,
      ud_max_lifetime = lifetime\<rparr>"

definition ec2_client_token :: "'w ec2_env \<Rightarrow> driver_sandbox \<Rightarrow> bytestr" where
  "ec2_client_token env sb =
     hex_of (rt_sha256 (ee_runtime env)
       (e_gateway_id (ee_config env) @ [CHR 0x00] @ sb_id sb @ [CHR 0x00] @ sandbox_token sb))"

definition ec2_launch_spec ::
  "'w ec2_env \<Rightarrow> driver_sandbox \<Rightarrow> bytestr \<Rightarrow> bytestr \<Rightarrow> time \<Rightarrow> bytestr \<Rightarrow> launch_spec" where
  "ec2_launch_spec env sb instance_type user_data created_at lifetime =
     (let c = ee_config env
      in \<lparr>ls_sandbox_id = sb_id sb, ls_name = sb_name sb, ls_namespace = sb_namespace sb,
          ls_workspace = sb_workspace sb, ls_gateway_id = e_gateway_id c, ls_image_id = e_ami_id c,
          ls_instance_type = instance_type, ls_subnet_id = e_subnet_id c,
          ls_security_group_id = e_security_group_id c, ls_key_name = e_key_name c,
          ls_user_data = user_data, ls_client_token = ec2_client_token env sb,
          ls_use_spot = e_use_spot c, ls_disk_size_gb = e_disk_size_gb c,
          ls_created_at = created_at, ls_max_lifetime = lifetime\<rparr>)"

definition ec2_commit :: "ec2_inst \<Rightarrow> time \<Rightarrow> srecord \<Rightarrow> srecord" where
  "ec2_commit i created_at rc =
     rc\<lparr>r_instance_id := i_id i, r_state := i_state i, r_created_at := i_created_at i,
       r_last_status := Some (ec2_sandbox_status (r_name rc) (i_id i) (i_state i) created_at)\<rparr>"

text \<open>
  From the reservation on. The answer's second component is the variable
  \<open>rollback\<close> that the deferred function reads.
\<close>

definition ec2_create_reserved ::
  "'w ec2_env \<Rightarrow> driver_sandbox \<Rightarrow> bytestr \<Rightarrow> time \<Rightarrow> ('w sys, (grpc_status + unit) \<times> bool) prog" where
  "ec2_create_reserved env sb instance_type created_at =
     act (on_reg (read_op max_lifetime_string)) (\<lambda>lifetime.
     order_of (ee_runtime env) sec_keys (\<lambda>ks.
       case render_user_data (ee_transport_lib env) (ee_print_table env) ks
              (ec2_user_data_params env sb lifetime) of
         Inl e \<Rightarrow> Ret (Inl (Status InvalidArgument (ErrWrap ''invalid bootstrap data: %v'' [] e)), True)
       | Inr user_data \<Rightarrow>
     act (on_reg (read_op max_lifetime_string)) (\<lambda>lifetime2.
     act (on_world (ee_launch env
            (ec2_launch_spec env sb instance_type user_data created_at lifetime2))) (\<lambda>launched.
       case launched of
         Inl e \<Rightarrow> call (ec2_fail env e) (\<lambda>r. Ret (r, True))
       | Inr i0 \<Rightarrow>
           let i = (if i_state i0 = [] then i0\<lparr>i_state := ''pending''\<rparr> else i0)
           in act (on_reg (update_record (sb_id sb) (ec2_commit i created_at))) (\<lambda>(updated, ok).
                if \<not> ok then
                  act (on_world (ee_terminate env [i_id i])) (\<lambda>_.
                    Ret (Inl (Status Internal
                      (ErrNew ''launched instance could not be committed; cleanup requested'')), True))
                else
                  act (on_reg (unit_op (broadcast_sandbox updated))) (\<lambda>_.
                    Ret (Inr (), False)))))))"

definition ec2_create_sandbox ::
  "'w ec2_env \<Rightarrow> driver_sandbox option \<Rightarrow> ('w sys, grpc_status + unit) prog" where
  "ec2_create_sandbox env sbo =
     call (ec2_validate env sbo) (\<lambda>valid.
       case valid of
         Inl st \<Rightarrow> Ret (Inl st)
       | Inr _ \<Rightarrow>
     (case sbo of
        None \<Rightarrow> Ret (Inl (Status InvalidArgument (ErrNew ''sandbox is required'')))
      | Some sb \<Rightarrow>
     (case ec2_select_instance_type (ee_sort env) (sandbox_resources sb)
             (e_default_instance (ee_config env)) of
        Inl e \<Rightarrow> Ret (Inl (select_status e))
      | Inr instance_type \<Rightarrow>
     now_of (ee_runtime env) (\<lambda>created_at.
     act (on_reg (reserve (ec2_launching_record sb created_at))) (\<lambda>err.
       case err of
         Some e \<Rightarrow> Ret (Inl (reserve_status e))
       | None \<Rightarrow>
           call (ec2_create_reserved env sb instance_type created_at) (\<lambda>(res, rollback_it).
             if rollback_it then
               act (on_reg (unit_op (rollback (sb_id sb)))) (\<lambda>_. Ret res)
             else Ret res))))))"

section \<open>Resolving a sandbox\<close>

definition not_found :: grpc_status where
  "not_found = Status NotFound (ErrNew ''sandbox not found'')"

definition ec2_resolve_remote ::
  "'w ec2_env \<Rightarrow> bytestr \<Rightarrow> bytestr \<Rightarrow> ('w sys, grpc_status + srecord) prog" where
  "ec2_resolve_remote env i nm =
     act (on_world (ee_list env \<lparr>if_gateway_id = e_gateway_id (ee_config env),
            if_sandbox_id = i, if_name = nm\<rparr>)) (\<lambda>listed.
       case listed of
         Inl e \<Rightarrow> ec2_fail env e
       | Inr instances \<Rightarrow>
           (case filter (\<lambda>x. i_state x \<noteq> ''terminated'') instances of
              [] \<Rightarrow> Ret (Inl not_found)
            | a # more_active \<Rightarrow>
                if more_active \<noteq> []
                then Ret (Inl (Status FailedPrecondition
                       (ErrNew ''multiple provider instances match sandbox'')))
                else
                  now_of (ee_runtime env) (\<lambda>now.
                    let rc = ec2_record_from_instance now a
                    in act (on_reg (add_record (Some rc))) (\<lambda>_. Ret (Inr rc)))))"

definition ec2_resolve ::
  "'w ec2_env \<Rightarrow> bytestr \<Rightarrow> bytestr \<Rightarrow> ('w sys, grpc_status + srecord) prog" where
  "ec2_resolve env i nm =
     (if (i = []) = (nm = [])
      then Ret (Inl (Status InvalidArgument
             (ErrNew ''exactly one of sandbox_id or sandbox_name is required'')))
      else if i \<noteq> [] then
        act (on_reg (read_op (get_record i))) (\<lambda>(rc, ok).
          if ok \<and> r_instance_id rc \<noteq> [] then Ret (Inr rc) else ec2_resolve_remote env i nm)
      else
        act (with_keys (ee_runtime env) (\<lambda>ks. read_op (all_records ks))) (\<lambda>recs.
          case filter (\<lambda>rc. r_name rc = nm \<and> r_instance_id rc \<noteq> []) recs of
            [] \<Rightarrow> ec2_resolve_remote env i nm
          | rc # others \<Rightarrow>
              if others = [] then Ret (Inr rc)
              else Ret (Inl (Status FailedPrecondition
                     (ErrFmt ''sandbox name %q is ambiguous'' [AStr nm])))))"

section \<open>Get, List, Stop, Delete\<close>

definition ec2_get_sandbox ::
  "'w ec2_env \<Rightarrow> sandbox_ref \<Rightarrow> ('w sys, grpc_status + driver_sandbox) prog" where
  "ec2_get_sandbox env req =
     call (ec2_resolve env (ref_id req) (ref_name req)) (\<lambda>r.
       case r of Inl st \<Rightarrow> Ret (Inl st) | Inr rc \<Rightarrow> Ret (Inr (to_driver_sandbox rc)))"

definition ec2_list_sandboxes :: "'w ec2_env \<Rightarrow> ('w sys, grpc_status + driver_sandbox list) prog" where
  "ec2_list_sandboxes env =
     act (on_world (ee_list env \<lparr>if_gateway_id = e_gateway_id (ee_config env),
            if_sandbox_id = [], if_name = []\<rparr>)) (\<lambda>listed.
       case listed of
         Inl e \<Rightarrow> ec2_fail env e
       | Inr instances \<Rightarrow>
           for_each instances
             (\<lambda>x acc.
                if i_state x = ''terminated'' \<or> i_sandbox_id x = [] then Ret (Inr acc)
                else now_of (ee_runtime env) (\<lambda>now.
                  Ret (Inr (acc @ [ec2_instance_to_driver_sandbox now x])))) [])"

text \<open>The closures that mark a record, with the time they read under the lock.\<close>

definition ec2_mark :: "bytestr \<Rightarrow> time \<Rightarrow> srecord \<Rightarrow> srecord" where
  "ec2_mark state now rc =
     rc\<lparr>r_state := state,
       r_last_status := Some (ec2_sandbox_status (r_name rc) (r_instance_id rc) state now)\<rparr>"

definition ec2_stop_sandbox :: "'w ec2_env \<Rightarrow> sandbox_ref \<Rightarrow> ('w sys, grpc_status + unit) prog" where
  "ec2_stop_sandbox env req =
     call (ec2_resolve env (ref_id req) (ref_name req)) (\<lambda>r.
       case r of
         Inl st \<Rightarrow> Ret (Inl st)
       | Inr rc \<Rightarrow>
           act (on_world (ee_stop env (r_instance_id rc))) (\<lambda>err.
             case err of
               Some e \<Rightarrow> ec2_fail env e
             | None \<Rightarrow>
                 act (with_now (ee_runtime env)
                        (\<lambda>now. update_record (r_sandbox_id rc) (ec2_mark ''stopping'' now)))
                   (\<lambda>(updated, _).
                      act (on_reg (unit_op (broadcast_sandbox updated))) (\<lambda>_. Ret (Inr ())))))"

definition ec2_delete_sandbox :: "'w ec2_env \<Rightarrow> sandbox_ref \<Rightarrow> ('w sys, grpc_status + bool) prog" where
  "ec2_delete_sandbox env req =
     call (ec2_resolve env (ref_id req) (ref_name req)) (\<lambda>r.
       case r of
         Inl st \<Rightarrow> if status_code st = NotFound then Ret (Inr False) else Ret (Inl st)
       | Inr rc \<Rightarrow>
           act (on_world (ee_terminate env [r_instance_id rc])) (\<lambda>err.
             case err of
               Some e \<Rightarrow> ec2_fail env e
             | None \<Rightarrow>
                 act (with_now (ee_runtime env)
                        (\<lambda>now. update_record (r_sandbox_id rc) (ec2_mark ''shutting-down'' now)))
                   (\<lambda>(updated, _).
                      act (on_reg (unit_op (broadcast_sandbox updated))) (\<lambda>_. Ret (Inr True)))))"

section \<open>The handlers keep the registry's invariant\<close>

lemma ec2_commit_id [simp]: "r_sandbox_id (ec2_commit i t rc) = r_sandbox_id rc"
  by (simp add: ec2_commit_def)

lemma ec2_mark_id [simp]: "r_sandbox_id (ec2_mark st t rc) = r_sandbox_id rc"
  by (simp add: ec2_mark_def)

lemma order_of_preserves [inv_intro]:
  "(\<And>b. preserves (in_reg I) (k b)) \<Longrightarrow> preserves (in_reg I) (order_of rt ks k)"
  unfolding order_of_def by (rule preserves_on_world)

lemma now_of_preserves [inv_intro]:
  "(\<And>b. preserves (in_reg I) (k b)) \<Longrightarrow> preserves (in_reg I) (now_of rt k)"
  unfolding now_of_def by (rule preserves_on_world)

lemma ec2_fail_preserves [inv_intro]: "preserves (in_reg I) (ec2_fail env e)"
  unfolding ec2_fail_def by (intro inv_intro)

lemma ec2_validate_preserves [inv_intro]: "preserves (in_reg I) (ec2_validate env sbo)"
  unfolding ec2_validate_def by (intro inv_intro)

lemma ec2_create_preserves [inv_intro]: "preserves (in_reg core_inv) (ec2_create_sandbox env sbo)"
  unfolding ec2_create_sandbox_def ec2_create_reserved_def
  by (intro inv_intro ec2_commit_id) assumption+

lemma ec2_resolve_preserves [inv_intro]: "preserves (in_reg core_inv) (ec2_resolve env i nm)"
  unfolding ec2_resolve_def ec2_resolve_remote_def by (intro inv_intro) assumption+

lemma ec2_get_preserves [inv_intro]: "preserves (in_reg core_inv) (ec2_get_sandbox env req)"
  unfolding ec2_get_sandbox_def by (intro inv_intro)

lemma ec2_list_preserves [inv_intro]: "preserves (in_reg core_inv) (ec2_list_sandboxes env)"
  unfolding ec2_list_sandboxes_def by (intro inv_intro)

lemma ec2_stop_preserves [inv_intro]: "preserves (in_reg core_inv) (ec2_stop_sandbox env req)"
  unfolding ec2_stop_sandbox_def by (intro inv_intro ec2_mark_id) assumption+

lemma ec2_delete_preserves [inv_intro]: "preserves (in_reg core_inv) (ec2_delete_sandbox env req)"
  unfolding ec2_delete_sandbox_def by (intro inv_intro ec2_mark_id) assumption+

end
