(* ===== verification/KvCore.thy ===== *)
theory KvCore
  imports Ec2Driver
begin

text \<open>
  drivers/kubevirt/driver.go and provider.go, the parts without effects: request
  validation, the mapping of Kubernetes errors to gRPC statuses, of machine states to
  conditions, of machines to records. The lemmas say when a request is accepted and that a
  status never carries the cluster's text.
\<close>

definition kv_driver_name :: bytestr where "kv_driver_name = ''openshell-driver-kubevirt''"
definition kv_default_image :: bytestr where
  "kv_default_image = ''ghcr.io/nvidia/openshell/sandbox:0.0.91''"

definition kv_get_capabilities :: "bytestr \<Rightarrow> capabilities" where
  "kv_get_capabilities version =
     \<lparr>cap_driver_name = kv_driver_name, cap_driver_version = version,
      cap_default_image = kv_default_image\<rparr>"

section \<open>The provider's data\<close>

record vm_spec =
  vs_sandbox_id :: bytestr
  vs_name :: bytestr
  vs_namespace :: bytestr
  vs_workspace :: bytestr
  vs_gateway_id :: bytestr
  vs_instance_type :: bytestr
  vs_boot_source :: bytestr
  vs_boot_source_namespace :: bytestr
  vs_preference :: bytestr
  vs_storage_class :: bytestr
  vs_cloud_init :: bytestr
  vs_resource_key :: bytestr
  vs_request_digest :: bytestr
  vs_disk_size :: bytestr
  vs_storage_labels :: "(bytestr \<times> bytestr) list"
  vs_storage_annotations :: "(bytestr \<times> bytestr) list"
  vs_created_at :: time
  vs_max_lifetime :: bytestr

record vm_filter =
  vf_gateway_id :: bytestr
  vf_sandbox_id :: bytestr
  vf_name :: bytestr

record vm_inst =
  v_vm_name :: bytestr
  v_sandbox_id :: bytestr
  v_name :: bytestr
  v_namespace :: bytestr
  v_workspace :: bytestr
  v_state :: bytestr
  v_vmi_phase :: bytestr
  v_ip :: bytestr
  v_created_at :: time

section \<open>Validation\<close>

definition kv_validate_text :: "bytestr \<Rightarrow> bytestr \<Rightarrow> bool \<Rightarrow> nat \<Rightarrow> goerr option" where
  "kv_validate_text nm value req mx =
     (if req \<and> value = [] then Some (ErrFmt ''%s is required'' [AStr nm])
      else if length value > mx then Some (ErrFmt ''%s exceeds %d bytes'' [AStr nm, AInt (int mx)])
      else if has_control value
      then Some (ErrFmt ''%s contains a forbidden control character'' [AStr nm])
      else None)"

text \<open>The fields this driver has no use for and therefore refuses.\<close>

definition kv_unsupported :: "driver_spec \<Rightarrow> driver_template \<Rightarrow> bool" where
  "kv_unsupported sp tm \<longleftrightarrow>
     sp_environment sp \<noteq> [] \<or> tm_environment tm \<noteq> [] \<or> tm_labels tm \<noteq> [] \<or>
     tm_platform_config tm \<noteq> None \<or> tm_driver_config tm \<noteq> None"

definition kv_validate_spec :: "bytestr list \<Rightarrow> bytestr list \<Rightarrow> driver_spec \<Rightarrow> goerr option" where
  "kv_validate_spec ck mk sp =
     (case sp_template sp of
        None \<Rightarrow> Some (ErrNew ''sandbox template is required'')
      | Some tm \<Rightarrow>
          or_else (kv_validate_text ''sandbox token'' (sp_sandbox_token sp) False (16 * 1024))
            (if sp_log_level sp \<notin> log_levels
             then Some (ErrFmt ''unsupported log level %q'' [AStr (sp_log_level sp)])
             else if gpu_requested sp
             then Some (ErrNew ''GPU resources are not supported by the KubeVirt driver'')
             else
               or_else
                 (case tm_resources tm of
                    None \<Rightarrow> None
                  | Some q \<Rightarrow> validate_requirements ck mk q)
                 (if kv_unsupported sp tm
                  then Some (ErrNew ''sandbox environment, template labels, platform_config, and driver_config are not supported by the KubeVirt driver'')
                  else None)))"

definition kv_validate_sandbox ::
  "bytestr list \<Rightarrow> bytestr list \<Rightarrow> driver_sandbox option \<Rightarrow> goerr option" where
  "kv_validate_sandbox ck mk sbo =
     (case sbo of
        None \<Rightarrow> Some (ErrNew ''sandbox is required'')
      | Some sb \<Rightarrow>
          or_else (kv_validate_text ''sandbox ID'' (sb_id sb) True 256)
            (or_else (kv_validate_text ''sandbox name'' (sb_name sb) True 246)
            (or_else (kv_validate_text ''namespace'' (sb_namespace sb) False 256)
            (or_else (kv_validate_text ''workspace'' (sb_workspace sb) False 256)
               (case sb_spec sb of
                  None \<Rightarrow> Some (ErrNew ''sandbox spec is required'')
                | Some sp \<Rightarrow> kv_validate_spec ck mk sp)))))"

definition kv_validate_sandbox_create ::
  "bytestr list \<Rightarrow> bytestr list \<Rightarrow> driver_sandbox option \<Rightarrow> grpc_status + unit" where
  "kv_validate_sandbox_create ck mk sbo =
     (case kv_validate_sandbox ck mk sbo of
        Some e \<Rightarrow> Inl (Status InvalidArgument e)
      | None \<Rightarrow> Inr ())"

section \<open>Provider errors\<close>

text \<open>
  apierrors.IsX looks at the reason of the first status error of the tree. The order of
  the cases is that of the switch.
\<close>

definition kv_reason_status :: "k8s_reason option \<Rightarrow> grpc_status" where
  "kv_reason_status r =
     (if r = Some RUnauthorized \<or> r = Some RForbidden
      then Status PermissionDenied (ErrNew ''Kubernetes denied the KubeVirt operation'')
      else if r = Some RTooManyRequests \<or> r = Some RTimeout \<or> r = Some RServerTimeout \<or>
              r = Some RServiceUnavailable
      then Status Unavailable (ErrNew ''Kubernetes API temporarily throttled the operation'')
      else if r = Some RNotFound then Status NotFound (ErrNew ''KubeVirt resource not found'')
      else if r = Some RAlreadyExists \<or> r = Some RConflict
      then Status Aborted (ErrNew ''KubeVirt resource changed concurrently'')
      else if r = Some RInvalid
      then Status FailedPrecondition
             (ErrNew ''KubeVirt rejected the requested resource policy'')
      else Status Unavailable (ErrNew ''KubeVirt operation failed''))"

definition kv_provider_error :: "ctx_err option \<Rightarrow> ctx_err option \<Rightarrow> goerr \<Rightarrow> grpc_status" where
  "kv_provider_error c1 c2 err =
     (if errors_is err ErrCanceled \<or> c1 = Some CtxCanceled
      then Status Canceled (ErrNew ''operation canceled'')
      else if errors_is err ErrDeadlineExceeded \<or> c2 = Some CtxDeadlineExceeded
      then Status DeadlineExceeded (ErrNew ''provider operation timed out'')
      else kv_reason_status (k8s_reason_of err))"

section \<open>States and conditions\<close>

definition kv_state_text :: "bytestr \<Rightarrow> bytestr \<times> bytestr \<times> bytestr" where
  "kv_state_text state =
     (if state \<in> {''launching'', ''Pending'', ''Provisioning'', ''Starting'', ''Scheduling'',
        ''Scheduled'', ''WaitingForVolumeBinding''}
      then (''False'', ''Provisioning'', ''VMI is pending'')
      else if state = ''Running'' then (''True'', ''Running'', ''VMI is running'')
      else if state = ''Succeeded''
      then (''False'', ''Completed'', ''VMI completed; VM resource remains authoritative'')
      else if state = ''Failed''
      then (''False'', ''Failed'', ''VMI failed; VM resource remains authoritative'')
      else if state = ''Stopped'' then (''False'', ''Stopped'', ''VM is stopped'')
      else if state = ''Paused'' then (''False'', ''Paused'', ''VM is paused'')
      else if state \<in> {''Error'', ''CrashLoopBackOff'', ''ErrorUnschedulable'', ''ErrImagePull'',
        ''ImagePullBackOff'', ''ErrorPvcNotFound'', ''DataVolumeError''}
      then (''False'', ''Failed'', ''VM cannot become ready'')
      else if state \<in> {''stopping'', ''Stopping''} then (''False'', ''Stopping'', ''VMI is stopping'')
      else if state \<in> {''deleting'', ''Terminating''}
      then (''False'', ''Terminating'', ''VMI is being deleted'')
      else if state \<in> {''Migrating'', ''WaitingForReceiver''}
      then (''False'', ''Transitioning'', ''VM is transitioning between hosts'')
      else if state = ''Unknown'' then (''Unknown'', ''Unknown'', ''VMI state is unknown'')
      else (''Unknown'', ''Unknown'', ''unknown VMI state: '' @ state))"

definition kv_state_to_conditions_at :: "bytestr \<Rightarrow> time \<Rightarrow> driver_condition list" where
  "kv_state_to_conditions_at state transition =
     (case kv_state_text state of (status_value, reason, message) \<Rightarrow>
        [\<lparr>c_type = ''Ready'', c_status = status_value, c_reason = reason, c_message = message,
          c_last_transition_time = format_rfc3339 transition\<rparr>])"

definition kv_sandbox_status :: "bytestr \<Rightarrow> bytestr \<Rightarrow> bytestr \<Rightarrow> time \<Rightarrow> driver_status" where
  "kv_sandbox_status nm vm_name state transition =
     \<lparr>st_sandbox_name = nm, st_instance_id = vm_name, st_agent_fd = [], st_sandbox_fd = [],
      st_conditions = kv_state_to_conditions_at state transition, st_deleting = False\<rparr>"

definition is_terminal_state :: "bytestr \<Rightarrow> bool" where
  "is_terminal_state state \<longleftrightarrow> state = ''Deleted''"

text \<open>recordFromInstance reads the clock: \<open>now\<close>.\<close>

definition kv_record_from_instance :: "time \<Rightarrow> vm_inst \<Rightarrow> srecord" where
  "kv_record_from_instance now i =
     zero_record\<lparr>r_sandbox_id := v_sandbox_id i, r_name := v_name i, r_namespace := v_namespace i,
       r_workspace := v_workspace i, r_instance_id := v_vm_name i, r_state := v_state i,
       r_created_at := v_created_at i,
       r_last_status := Some (kv_sandbox_status (v_name i) (v_vm_name i) (v_state i) now)\<rparr>"

definition kv_instance_to_driver_sandbox :: "time \<Rightarrow> vm_inst \<Rightarrow> driver_sandbox" where
  "kv_instance_to_driver_sandbox now i = to_driver_sandbox (kv_record_from_instance now i)"

definition kv_sandbox_event :: "srecord \<Rightarrow> watch_event" where
  "kv_sandbox_event rc = EvSandbox (to_driver_sandbox rc)"

section \<open>Lemmas\<close>

lemma kv_validate_text_None:
  "kv_validate_text nm v req mx = None \<longleftrightarrow> (req \<longrightarrow> v \<noteq> []) \<and> length v \<le> mx \<and> \<not> has_control v"
  by (simp add: kv_validate_text_def not_le)

lemma kv_validate_spec_None:
  "kv_validate_spec ck mk sp = None \<longleftrightarrow>
     (\<exists>tm. sp_template sp = Some tm \<and> \<not> kv_unsupported sp tm \<and>
        (\<forall>q. tm_resources tm = Some q \<longrightarrow> validate_requirements ck mk q = None)) \<and>
     length (sp_sandbox_token sp) \<le> 16 * 1024 \<and> \<not> has_control (sp_sandbox_token sp) \<and>
     sp_log_level sp \<in> log_levels \<and> \<not> gpu_requested sp"
  by (auto simp: kv_validate_spec_def kv_validate_text_None split: option.split)

lemma kv_validate_sandbox_Some:
  "kv_validate_sandbox ck mk (Some sb) = None \<longleftrightarrow>
     sb_id sb \<noteq> [] \<and> length (sb_id sb) \<le> 256 \<and> \<not> has_control (sb_id sb) \<and>
     sb_name sb \<noteq> [] \<and> length (sb_name sb) \<le> 246 \<and> \<not> has_control (sb_name sb) \<and>
     length (sb_namespace sb) \<le> 256 \<and> \<not> has_control (sb_namespace sb) \<and>
     length (sb_workspace sb) \<le> 256 \<and> \<not> has_control (sb_workspace sb) \<and>
     (\<exists>sp. sb_spec sb = Some sp \<and> kv_validate_spec ck mk sp = None)"
  unfolding kv_validate_sandbox_def option.case
  by (auto simp: kv_validate_text_None split: option.split)

text \<open>
  The two drivers accept the same requests, but for the fields the KubeVirt driver
  refuses.
\<close>

lemma kv_validate_text_same: "kv_validate_text = ec2_validate_text"
  by (intro ext) (simp add: kv_validate_text_def ec2_validate_text_def)

lemma kv_validate_refines_core:
  "kv_validate_sandbox ck mk sbo = None \<longleftrightarrow>
     ec2_validate_sandbox ck mk sbo = None \<and>
     (\<exists>sb sp tm. sbo = Some sb \<and> sb_spec sb = Some sp \<and> sp_template sp = Some tm \<and> \<not> kv_unsupported sp tm)"
proof (cases sbo)
  case None
  then show ?thesis by (simp add: kv_validate_sandbox_def)
next
  case (Some sb)
  show ?thesis unfolding Some kv_validate_sandbox_Some ec2_validate_sandbox_Some
      kv_validate_spec_None ec2_validate_spec_None option.inject by fastforce
qed

definition kv_provider_messages :: "(code \<times> bytestr) set" where
  "kv_provider_messages =
     {(Canceled, ''operation canceled''), (DeadlineExceeded, ''provider operation timed out''),
      (PermissionDenied, ''Kubernetes denied the KubeVirt operation''),
      (Unavailable, ''Kubernetes API temporarily throttled the operation''),
      (NotFound, ''KubeVirt resource not found''),
      (Aborted, ''KubeVirt resource changed concurrently''),
      (FailedPrecondition, ''KubeVirt rejected the requested resource policy''),
      (Unavailable, ''KubeVirt operation failed'')}"

lemma kv_provider_error_sanitized_core:
  "\<exists>c m. kv_provider_error c1 c2 err = Status c (ErrNew m) \<and> (c, m) \<in> kv_provider_messages"
  by (simp add: kv_provider_error_def kv_reason_status_def kv_provider_messages_def)

lemma kv_state_ready: "fst (kv_state_text s) = ''True'' \<longleftrightarrow> s = ''Running''"
  by (auto simp: kv_state_text_def)

lemma kv_record_frame [simp]:
  "r_sandbox_id (kv_record_from_instance now i) = v_sandbox_id i"
  "r_instance_id (kv_record_from_instance now i) = v_vm_name i"
  "r_state (kv_record_from_instance now i) = v_state i"
  "r_created_at (kv_record_from_instance now i) = v_created_at i"
  "r_spec (kv_record_from_instance now i) = None"
  "r_lease (kv_record_from_instance now i) = 0"
  "r_missing_polls (kv_record_from_instance now i) = 0"
  by (simp_all add: kv_record_from_instance_def zero_record_def)

end
