(* ===== verification/KvApi.thy ===== *)
theory KvApi
  imports KvCore
begin

text \<open>
  drivers/kubevirt/kubeapi.go: the Kubernetes adapter behind the driver's provider
  interface. The calls of the two clients are the fields of \<open>kube_api\<close>, restricted
  to the configured namespace where the code restricts them; an unstructured object is
  the record of the fields the code reads, a request the record of the fields it sets.
  The retry helpers of the client library run their documented loop: what the world
  decides in it (a cancelled context before an attempt) is a field of the interface.
\<close>

definition label_managed :: bytestr where "label_managed = ''openshell.io/managed''"
definition label_sandbox_name :: bytestr where "label_sandbox_name = ''openshell.io/sandbox-name''"
definition label_sandbox_id :: bytestr where "label_sandbox_id = ''openshell.io/sandbox-id''"
definition label_gateway_id :: bytestr where "label_gateway_id = ''openshell.io/gateway-id''"
definition annot_sandbox_id :: bytestr where "annot_sandbox_id = ''openshell.io/sandbox-id-value''"
definition annot_sandbox_name :: bytestr where "annot_sandbox_name = ''openshell.io/sandbox-name-value''"
definition annot_namespace :: bytestr where "annot_namespace = ''openshell.io/sandbox-namespace''"
definition annot_workspace :: bytestr where "annot_workspace = ''openshell.io/workspace-value''"
definition annot_gateway_id :: bytestr where "annot_gateway_id = ''openshell.io/gateway-id-value''"
definition annot_request_digest :: bytestr where "annot_request_digest = ''openshell.io/request-digest''"
definition annot_created_at :: bytestr where "annot_created_at = ''openshell.io/created-at''"
definition annot_max_lifetime :: bytestr where "annot_max_lifetime = ''openshell.io/max-lifetime''"
definition cloud_init_key :: bytestr where "cloud_init_key = ''userdata''"
definition default_page_size :: int where "default_page_size = 200"

lemmas kube_names = label_managed_def label_sandbox_name_def label_sandbox_id_def label_gateway_id_def
  annot_sandbox_id_def annot_sandbox_name_def annot_namespace_def annot_workspace_def
  annot_gateway_id_def annot_request_digest_def annot_created_at_def annot_max_lifetime_def

section \<open>Objects\<close>

type_synonym str_map = "(bytestr \<times> bytestr) list"

definition map_get :: "str_map \<Rightarrow> bytestr \<Rightarrow> bytestr" where
  "map_get m k = (case map_of m k of None \<Rightarrow> [] | Some v \<Rightarrow> v)"

text \<open>The copy loop of a Go map over another.\<close>

definition map_merge :: "str_map \<Rightarrow> str_map \<Rightarrow> str_map" where
  "map_merge a b = fold (\<lambda>(k, v) m. AList.update k v m) b a"

datatype resource_kind = RVm | RVmi

text \<open>
  An unstructured object as the code reads it: a nested field that is absent or has
  another type reads as the empty string, an interface that is no map as \<open>None\<close>.
\<close>

record unstructured =
  un_name :: bytestr
  un_uid :: bytestr
  un_labels :: str_map
  un_annotations :: str_map
  un_printable_status :: bytestr
  un_phase :: bytestr
  un_run_strategy :: bytestr
  un_interfaces :: "bytestr option list"
  un_deleting :: bool
  un_created :: time

record owner_ref =
  or_api_version :: bytestr
  or_kind :: bytestr
  or_name :: bytestr
  or_uid :: bytestr
  or_controller :: bool

record secret =
  se_name :: bytestr
  se_namespace :: bytestr
  se_labels :: str_map
  se_annotations :: str_map
  se_immutable :: bool
  se_data :: str_map
  se_owners :: "owner_ref list"

datatype volume = VolDataVolume bytestr bytestr | VolCloudInitSecret bytestr bytestr

record data_volume_template =
  dv_name :: bytestr
  dv_labels :: str_map
  dv_annotations :: str_map
  dv_source_namespace :: bytestr
  dv_source_name :: bytestr
  dv_storage :: rat
  dv_storage_class :: "bytestr option"

record virtual_machine =
  vm_name :: bytestr
  vm_namespace :: bytestr
  vm_labels :: str_map
  vm_annotations :: str_map
  vm_run_strategy :: bytestr
  vm_instancetype :: bytestr
  vm_preference :: "bytestr option"
  vm_data_volumes :: "data_volume_template list"
  vm_template_labels :: str_map
  vm_template_annotations :: str_map
  vm_virtio_disks :: "bytestr list"
  vm_masquerade_interfaces :: "bytestr list"
  vm_pod_networks :: "bytestr list"
  vm_volumes :: "volume list"

record access_check =
  ac_namespace :: bytestr
  ac_group :: bytestr
  ac_resource :: bytestr
  ac_verb :: bytestr

record 'w kube_api =
  ka_get_namespace :: "bytestr \<Rightarrow> 'w \<Rightarrow> goerr option \<times> 'w"
  ka_get_data_source :: "bytestr \<Rightarrow> bytestr \<Rightarrow> 'w \<Rightarrow> goerr option \<times> 'w"
  ka_get_instance_type :: "bytestr \<Rightarrow> 'w \<Rightarrow> goerr option \<times> 'w"
  ka_get_preference :: "bytestr \<Rightarrow> 'w \<Rightarrow> goerr option \<times> 'w"
  ka_get_storage_class :: "bytestr \<Rightarrow> 'w \<Rightarrow> goerr option \<times> 'w"
  ka_access_review :: "access_check \<Rightarrow> 'w \<Rightarrow> (goerr + bool \<times> bytestr) \<times> 'w"
  ka_create_secret :: "secret \<Rightarrow> 'w \<Rightarrow> goerr option \<times> 'w"
  ka_get_secret :: "bytestr \<Rightarrow> 'w \<Rightarrow> (goerr + secret) \<times> 'w"
  ka_update_secret :: "secret \<Rightarrow> 'w \<Rightarrow> goerr option \<times> 'w"
  ka_delete_secret :: "bytestr \<Rightarrow> 'w \<Rightarrow> goerr option \<times> 'w"
  ka_encode_vm :: "virtual_machine \<Rightarrow> goerr option"
  ka_create_vm :: "virtual_machine \<Rightarrow> 'w \<Rightarrow> (goerr + unstructured) \<times> 'w"
  ka_get_vm :: "bytestr \<Rightarrow> 'w \<Rightarrow> (goerr + unstructured) \<times> 'w"
  ka_set_run_strategy :: "bytestr \<Rightarrow> unstructured \<Rightarrow> goerr + unstructured"
  ka_update_vm :: "unstructured \<Rightarrow> 'w \<Rightarrow> goerr option \<times> 'w"
  ka_delete_vm :: "bytestr \<Rightarrow> 'w \<Rightarrow> goerr option \<times> 'w"
  ka_delete_data_volume :: "bytestr \<Rightarrow> 'w \<Rightarrow> goerr option \<times> 'w"
  ka_list :: "resource_kind \<Rightarrow> str_map \<Rightarrow> int \<Rightarrow> bytestr \<Rightarrow> 'w \<Rightarrow> (goerr + unstructured list \<times> bytestr) \<times> 'w"
  ka_pause :: "nat \<Rightarrow> 'w \<Rightarrow> goerr option \<times> 'w"
  ka_wait_timeout :: goerr
  ka_interrupted :: "goerr \<Rightarrow> bool"
  ka_conflict_steps :: nat
  ka_sha256 :: "bytestr \<Rightarrow> bytestr"

section \<open>Errors and retries\<close>

definition is_not_found :: "goerr \<Rightarrow> bool" where
  "is_not_found e \<longleftrightarrow> k8s_reason_of e = Some RNotFound"

definition is_already_exists :: "goerr \<Rightarrow> bool" where
  "is_already_exists e \<longleftrightarrow> k8s_reason_of e = Some RAlreadyExists"

definition is_conflict :: "goerr \<Rightarrow> bool" where
  "is_conflict e \<longleftrightarrow> k8s_reason_of e = Some RConflict"

definition is_transient :: "goerr \<Rightarrow> bool" where
  "is_transient e \<longleftrightarrow>
     k8s_reason_of e = Some RTooManyRequests \<or> k8s_reason_of e = Some RTimeout \<or>
     k8s_reason_of e = Some RServerTimeout \<or> k8s_reason_of e = Some RServiceUnavailable"

text \<open>
  \<open>wait.ExponentialBackoffWithContext\<close> with the given number of steps left, its
  condition inlined: \<open>last\<close> is the variable \<open>lastErr\<close>.
\<close>

fun backoff_loop ::
  "'w kube_api \<Rightarrow> ('w \<Rightarrow> (goerr + 'a) \<times> 'w) \<Rightarrow> nat \<Rightarrow> nat \<Rightarrow> goerr option \<Rightarrow> 'w \<Rightarrow>
   (goerr + 'a) \<times> goerr option \<times> 'w" where
  "backoff_loop api fn 0 n lasterr w = (Inl (ka_wait_timeout api), lasterr, w)"
| "backoff_loop api fn (Suc steps) n lasterr w =
     (case ka_pause api n w of
        (Some e, w1) \<Rightarrow> (Inl e, lasterr, w1)
      | (None, w1) \<Rightarrow>
          (case fn w1 of
             (Inr a, w2) \<Rightarrow> (Inr a, lasterr, w2)
           | (Inl e, w2) \<Rightarrow>
               if \<not> is_transient e then (Inl e, lasterr, w2)
               else backoff_loop api fn steps (Suc n) (Some e) w2))"

definition retry_with_backoff ::
  "'w kube_api \<Rightarrow> ('w \<Rightarrow> (goerr + 'a) \<times> 'w) \<Rightarrow> 'w \<Rightarrow> (goerr + 'a) \<times> 'w" where
  "retry_with_backoff api fn w =
     (case backoff_loop api fn 5 0 None w of
        (Inr a, _, w') \<Rightarrow> (Inr a, w')
      | (Inl e, lasterr, w') \<Rightarrow>
          (case lasterr of
             Some l \<Rightarrow> if ka_interrupted api e then (Inl l, w') else (Inl e, w')
           | None \<Rightarrow> (Inl e, w')))"

text \<open>\<open>retry.RetryOnConflict\<close>: again while the answer is a conflict and steps are left.\<close>

fun retry_on_conflict :: "('w \<Rightarrow> (goerr + 'a) \<times> 'w) \<Rightarrow> nat \<Rightarrow> 'w \<Rightarrow> (goerr + 'a) \<times> 'w" where
  "retry_on_conflict fn 0 w = fn w"
| "retry_on_conflict fn (Suc steps) w =
     (case fn w of
        (Inl e, w1) \<Rightarrow> if is_conflict e then retry_on_conflict fn steps w1 else (Inl e, w1)
      | (Inr a, w1) \<Rightarrow> (Inr a, w1))"

text \<open>A call whose only answer is an error.\<close>

definition unit_call :: "('w \<Rightarrow> goerr option \<times> 'w) \<Rightarrow> 'w \<Rightarrow> (goerr + unit) \<times> 'w" where
  "unit_call f w = (case f w of (Some e, w') \<Rightarrow> (Inl e, w') | (None, w') \<Rightarrow> (Inr (), w'))"

definition label_value :: "'w kube_api \<Rightarrow> bytestr \<Rightarrow> bytestr" where
  "label_value api value = hex_of (take 16 (ka_sha256 api value))"

section \<open>CheckReady\<close>

definition access_checks :: "bytestr \<Rightarrow> access_check list" where
  "access_checks ns =
     (let ac = (\<lambda>g r v. \<lparr>ac_namespace = ns, ac_group = g, ac_resource = r, ac_verb = v\<rparr>)
      in [ac [] ''secrets'' ''create'', ac [] ''secrets'' ''get'', ac [] ''secrets'' ''update'',
          ac [] ''secrets'' ''delete'',
          ac ''kubevirt.io'' ''virtualmachines'' ''list'', ac ''kubevirt.io'' ''virtualmachines'' ''get'',
          ac ''kubevirt.io'' ''virtualmachines'' ''create'', ac ''kubevirt.io'' ''virtualmachines'' ''update'',
          ac ''kubevirt.io'' ''virtualmachines'' ''patch'', ac ''kubevirt.io'' ''virtualmachines'' ''delete'',
          ac ''kubevirt.io'' ''virtualmachineinstances'' ''list'',
          ac ''cdi.kubevirt.io'' ''datavolumes'' ''delete''])"

text \<open>A get that must succeed, with its wrapped error.\<close>

definition must_get ::
  "('w \<Rightarrow> goerr option \<times> 'w) \<Rightarrow> bytestr \<Rightarrow> bytestr list \<Rightarrow> ('w \<Rightarrow> (goerr + unit) \<times> 'w) \<Rightarrow>
   'w \<Rightarrow> (goerr + unit) \<times> 'w" where
  "must_get f msg names k w =
     (case f w of
        (Some e, w') \<Rightarrow> (Inl (ErrWrap msg (map AStr names) e), w')
      | (None, w') \<Rightarrow> k w')"

fun check_access :: "'w kube_api \<Rightarrow> bytestr \<Rightarrow> access_check list \<Rightarrow> 'w \<Rightarrow> (goerr + unit) \<times> 'w" where
  "check_access api ns [] w = (Inr (), w)"
| "check_access api ns (c # cs) w =
     (case ka_access_review api c w of
        (Inl e, w') \<Rightarrow>
          (Inl (ErrWrap ''check %s %s permission: %w'' [AStr (ac_verb c), AStr (ac_resource c)] e), w')
      | (Inr (allowed, reason), w') \<Rightarrow>
          if \<not> allowed
          then (Inl (ErrFmt ''service account may not %s %s in namespace %s: %s''
                  [AStr (ac_verb c), AStr (ac_resource c), AStr ns, AStr reason]), w')
          else check_access api ns cs w')"

definition check_ready_once :: "'w kube_api \<Rightarrow> kv_config \<Rightarrow> 'w \<Rightarrow> (goerr + unit) \<times> 'w" where
  "check_ready_once api c =
     must_get (ka_get_namespace api (k_namespace c)) ''get target namespace %s: %w'' [k_namespace c]
    (must_get (ka_get_data_source api (k_boot_source_namespace c) (k_boot_source c))
       ''get boot DataSource %s/%s: %w'' [k_boot_source_namespace c, k_boot_source c]
    (must_get (ka_get_instance_type api (k_default_instance_type c))
       ''get cluster instancetype %s: %w'' [k_default_instance_type c]
    (must_get
       (if k_default_preference c \<noteq> [] then ka_get_preference api (k_default_preference c)
        else (\<lambda>w. (None, w)))
       ''get cluster preference %s: %w'' [k_default_preference c]
    (must_get
       (if k_storage_class c \<noteq> [] then ka_get_storage_class api (k_storage_class c)
        else (\<lambda>w. (None, w)))
       ''get StorageClass %s: %w'' [k_storage_class c]
    (check_access api (k_namespace c) (access_checks (k_namespace c)))))))"

definition kube_check_ready :: "'w kube_api \<Rightarrow> kv_config \<Rightarrow> 'w \<Rightarrow> goerr option \<times> 'w" where
  "kube_check_ready api c w =
     (case retry_with_backoff api (check_ready_once api c) w of
        (Inl e, w') \<Rightarrow> (Some e, w')
      | (Inr _, w') \<Rightarrow> (None, w'))"

section \<open>The resources of a sandbox\<close>

definition kube_vm_name :: "bytestr \<Rightarrow> bytestr" where
  "kube_vm_name key = ''openshell-'' @ to_lower (take 32 key)"

definition object_labels :: "'w kube_api \<Rightarrow> vm_spec \<Rightarrow> str_map" where
  "object_labels api spec =
     [(label_managed, ''true''), (label_gateway_id, label_value api (vs_gateway_id spec)),
      (label_sandbox_id, label_value api (vs_sandbox_id spec)),
      (label_sandbox_name, label_value api (vs_name spec))]"

definition object_annotations :: "vm_spec \<Rightarrow> str_map" where
  "object_annotations spec =
     [(annot_sandbox_id, vs_sandbox_id spec), (annot_sandbox_name, vs_name spec),
      (annot_namespace, vs_namespace spec), (annot_workspace, vs_workspace spec),
      (annot_gateway_id, vs_gateway_id spec),
      (annot_created_at, format_rfc3339_nano (vs_created_at spec)),
      (annot_max_lifetime, vs_max_lifetime spec), (annot_request_digest, vs_request_digest spec)]"

definition build_vm :: "'w kube_api \<Rightarrow> bytestr \<Rightarrow> vm_spec \<Rightarrow> rat \<Rightarrow> virtual_machine" where
  "build_vm api ns spec disk =
     (let nm = kube_vm_name (vs_resource_key spec);
          labels = object_labels api spec; annots = object_annotations spec
      in \<lparr>vm_name = nm, vm_namespace = ns, vm_labels = labels, vm_annotations = annots,
          vm_run_strategy = ''RerunOnFailure'', vm_instancetype = vs_instance_type spec,
          vm_preference = (if vs_preference spec \<noteq> [] then Some (vs_preference spec) else None),
          vm_data_volumes =
            [\<lparr>dv_name = nm @ ''-root'', dv_labels = map_merge labels (vs_storage_labels spec),
              dv_annotations = map_merge annots (vs_storage_annotations spec),
              dv_source_namespace = vs_boot_source_namespace spec, dv_source_name = vs_boot_source spec,
              dv_storage = disk,
              dv_storage_class = (if vs_storage_class spec \<noteq> [] then Some (vs_storage_class spec) else None)\<rparr>],
          vm_template_labels = labels, vm_template_annotations = annots,
          vm_virtio_disks = [''rootdisk'', ''cloudinit''], vm_masquerade_interfaces = [''default''],
          vm_pod_networks = [''default''],
          vm_volumes = [VolDataVolume ''rootdisk'' (nm @ ''-root''),
                        VolCloudInitSecret ''cloudinit'' (nm @ ''-cloudinit'')]\<rparr>)"

definition build_secret :: "'w kube_api \<Rightarrow> bytestr \<Rightarrow> vm_spec \<Rightarrow> secret" where
  "build_secret api ns spec =
     \<lparr>se_name = kube_vm_name (vs_resource_key spec) @ ''-cloudinit'', se_namespace = ns,
      se_labels = object_labels api spec, se_annotations = object_annotations spec,
      se_immutable = True, se_data = [(cloud_init_key, vs_cloud_init spec)], se_owners = []\<rparr>"

definition build_resources ::
  "'w kube_api \<Rightarrow> k8s_lib \<Rightarrow> bytestr \<Rightarrow> vm_spec \<Rightarrow> goerr + virtual_machine \<times> secret" where
  "build_resources api klib ns spec =
     (if length (vs_resource_key spec) < 32 \<or> length (vs_request_digest spec) \<noteq> 64
      then Inl (ErrNew ''invalid deterministic resource or request digest'')
      else
        (case parse_quantity klib (vs_disk_size spec) of
           Inl e \<Rightarrow> Inl (ErrWrap ''parse disk size: %w'' [] e)
         | Inr disk \<Rightarrow> Inr (build_vm api ns spec disk, build_secret api ns spec)))"

section \<open>Create or verify\<close>

text \<open>What an attempt does with an object that may exist: \<open>check\<close> compares it.\<close>

definition verify_existing ::
  "goerr \<Rightarrow> ('w \<Rightarrow> (goerr + 'o) \<times> 'w) \<Rightarrow> ('o \<Rightarrow> goerr + 'a) \<Rightarrow> 'w \<Rightarrow> (goerr + 'a) \<times> 'w" where
  "verify_existing create_err get check w =
     (case get w of
        (Inl get_err, w') \<Rightarrow>
          if is_not_found get_err \<and> is_transient create_err then (Inl create_err, w')
          else if is_transient create_err then (Inl (ErrUncertainCreate get_err), w')
          else (Inl get_err, w')
      | (Inr existing, w') \<Rightarrow> (check existing, w'))"

definition check_secret :: "secret \<Rightarrow> secret \<Rightarrow> goerr + bool" where
  "check_secret desired existing =
     (if map_get (se_annotations existing) annot_request_digest \<noteq>
           map_get (se_annotations desired) annot_request_digest \<or>
         map_get (se_data existing) cloud_init_key \<noteq> map_get (se_data desired) cloud_init_key
      then Inl (ErrK8s RConflict ''existing Secret belongs to a different request'')
      else Inr False)"

definition try_secret :: "'w kube_api \<Rightarrow> secret \<Rightarrow> 'w \<Rightarrow> (goerr + bool) \<times> 'w" where
  "try_secret api desired w =
     (case ka_create_secret api desired w of
        (None, w') \<Rightarrow> (Inr True, w')
      | (Some e, w') \<Rightarrow>
          if \<not> is_already_exists e \<and> \<not> is_transient e then (Inl e, w')
          else verify_existing e (ka_get_secret api (se_name desired)) (check_secret desired) w')"

definition create_or_verify_secret :: "'w kube_api \<Rightarrow> secret \<Rightarrow> 'w \<Rightarrow> (goerr + bool) \<times> 'w" where
  "create_or_verify_secret api desired w =
     (case retry_with_backoff api (try_secret api desired) w of
        (Inl e, w') \<Rightarrow> (Inl (ErrWrap ''create cloud-init Secret: %w'' [] e), w')
      | (Inr created, w') \<Rightarrow> (Inr created, w'))"

definition check_vm :: "virtual_machine \<Rightarrow> unstructured \<Rightarrow> goerr + unstructured \<times> bool" where
  "check_vm desired existing =
     (if map_get (un_annotations existing) annot_request_digest \<noteq>
           map_get (vm_annotations desired) annot_request_digest \<or>
         map_get (un_labels existing) label_sandbox_id \<noteq> map_get (vm_labels desired) label_sandbox_id
      then Inl (ErrK8s RConflict ''existing VM belongs to a different request'')
      else Inr (existing, False))"

definition try_vm :: "'w kube_api \<Rightarrow> virtual_machine \<Rightarrow> 'w \<Rightarrow> (goerr + unstructured \<times> bool) \<times> 'w" where
  "try_vm api desired w =
     (case ka_create_vm api desired w of
        (Inr obj, w') \<Rightarrow> (Inr (obj, True), w')
      | (Inl e, w') \<Rightarrow>
          if \<not> is_already_exists e \<and> \<not> is_transient e then (Inl e, w')
          else verify_existing e (ka_get_vm api (vm_name desired)) (check_vm desired) w')"

definition create_or_verify_vm ::
  "'w kube_api \<Rightarrow> virtual_machine \<Rightarrow> 'w \<Rightarrow> (goerr + unstructured \<times> bool) \<times> 'w" where
  "create_or_verify_vm api desired w =
     (case ka_encode_vm api desired of
        Some e \<Rightarrow> (Inl (ErrWrap ''encode VirtualMachine: %w'' [] e), w)
      | None \<Rightarrow>
          (case retry_with_backoff api (try_vm api desired) w of
             (Inl e, w') \<Rightarrow> (Inl (ErrWrap ''create VirtualMachine: %w'' [] e), w')
           | (Inr r, w') \<Rightarrow> (Inr r, w')))"

definition owner_of :: "unstructured \<Rightarrow> owner_ref" where
  "owner_of vm =
     \<lparr>or_api_version = ''kubevirt.io/v1'', or_kind = ''VirtualMachine'', or_name = un_name vm,
      or_uid = un_uid vm, or_controller = True\<rparr>"

definition own_secret_once ::
  "'w kube_api \<Rightarrow> bytestr \<Rightarrow> unstructured \<Rightarrow> 'w \<Rightarrow> (goerr + unit) \<times> 'w" where
  "own_secret_once api nm vm w =
     (case ka_get_secret api nm w of
        (Inl e, w') \<Rightarrow> (Inl e, w')
      | (Inr s, w') \<Rightarrow> unit_call (ka_update_secret api (s\<lparr>se_owners := [owner_of vm]\<rparr>)) w')"

definition own_secret :: "'w kube_api \<Rightarrow> bytestr \<Rightarrow> unstructured \<Rightarrow> 'w \<Rightarrow> (goerr + unit) \<times> 'w" where
  "own_secret api nm vm =
     retry_with_backoff api (retry_on_conflict (own_secret_once api nm vm) (ka_conflict_steps api - 1))"

section \<open>Stop and Terminate\<close>

definition stop_once :: "'w kube_api \<Rightarrow> bytestr \<Rightarrow> 'w \<Rightarrow> (goerr + unit) \<times> 'w" where
  "stop_once api nm w =
     (case ka_get_vm api nm w of
        (Inl e, w') \<Rightarrow> (Inl e, w')
      | (Inr vm, w') \<Rightarrow>
          (case ka_set_run_strategy api ''Halted'' vm of
             Inl e \<Rightarrow> (Inl e, w')
           | Inr vm' \<Rightarrow> unit_call (ka_update_vm api vm') w'))"

definition kube_stop :: "'w kube_api \<Rightarrow> bytestr \<Rightarrow> 'w \<Rightarrow> goerr option \<times> 'w" where
  "kube_stop api nm w =
     (case retry_with_backoff api (retry_on_conflict (stop_once api nm) (ka_conflict_steps api - 1)) w of
        (Inl e, w') \<Rightarrow> (Some e, w')
      | (Inr _, w') \<Rightarrow> (None, w'))"

text \<open>One deletion of Terminate: an error other than not found is collected.\<close>

definition delete_step ::
  "'w kube_api \<Rightarrow> bytestr \<Rightarrow> ('w \<Rightarrow> goerr option \<times> 'w) \<Rightarrow> goerr list \<times> 'w \<Rightarrow> goerr list \<times> 'w" where
  "delete_step api msg del = (\<lambda>(errs, w).
     case retry_with_backoff api (unit_call del) w of
       (Inl e, w') \<Rightarrow> if is_not_found e then (errs, w') else (errs @ [ErrWrap msg [] e], w')
     | (Inr _, w') \<Rightarrow> (errs, w'))"

definition kube_terminate :: "'w kube_api \<Rightarrow> bytestr \<Rightarrow> 'w \<Rightarrow> goerr option \<times> 'w" where
  "kube_terminate api nm w =
     (case delete_step api ''delete Secret: %w'' (ka_delete_secret api (nm @ ''-cloudinit''))
             (delete_step api ''delete DataVolume: %w'' (ka_delete_data_volume api (nm @ ''-root''))
               (delete_step api ''delete VirtualMachine: %w'' (ka_delete_vm api nm) ([], w))) of
        (errs, w') \<Rightarrow> (errors_join errs, w'))"

section \<open>Normalisation\<close>

definition vm_status_state :: "unstructured \<Rightarrow> bytestr" where
  "vm_status_state raw = (if un_deleting raw then ''Terminating'' else un_printable_status raw)"

definition vm_identity :: "unstructured \<Rightarrow> bytestr" where
  "vm_identity raw =
     (let i = map_get (un_annotations raw) annot_sandbox_id;
          h = map_get (un_labels raw) label_sandbox_id
      in if i \<noteq> [] then i
         else if h \<noteq> [] then ''hash:'' @ h
         else ''orphan:'' @ un_name raw)"

definition vm_default_state :: "unstructured \<Rightarrow> bytestr" where
  "vm_default_state raw = (if un_run_strategy raw = ''Halted'' then ''Stopped'' else ''Starting'')"

definition normalize_vm :: "unstructured \<Rightarrow> unstructured option \<Rightarrow> vm_inst" where
  "normalize_vm raw vmi =
     (let a = un_annotations raw;
          phase = (case vmi of None \<Rightarrow> [] | Some v \<Rightarrow> un_phase v);
          ip = (case vmi of
                  None \<Rightarrow> []
                | Some v \<Rightarrow> (case un_interfaces v of Some addr # _ \<Rightarrow> addr | _ \<Rightarrow> []));
          s0 = vm_status_state raw;
          s1 = (if s0 = [] then phase else s0)
      in \<lparr>v_vm_name = un_name raw, v_sandbox_id = vm_identity raw,
          v_name = (if map_get a annot_sandbox_name = [] then un_name raw else map_get a annot_sandbox_name),
          v_namespace = map_get a annot_namespace, v_workspace = map_get a annot_workspace,
          v_state = (if s1 = [] then vm_default_state raw else s1),
          v_vmi_phase = phase, v_ip = ip,
          v_created_at = (case parse_rfc3339 (map_get a annot_created_at) of
                            None \<Rightarrow> un_created raw | Some t \<Rightarrow> t)\<rparr>)"

section \<open>Listing\<close>

definition kube_selector :: "'w kube_api \<Rightarrow> vm_filter \<Rightarrow> str_map" where
  "kube_selector api f =
     [(label_managed, ''true'')] @
     (if vf_gateway_id f \<noteq> [] then [(label_gateway_id, label_value api (vf_gateway_id f))] else []) @
     (if vf_sandbox_id f \<noteq> [] then [(label_sandbox_id, label_value api (vf_sandbox_id f))] else [])"

text \<open>The paging loop; \<open>None\<close> when \<open>fuel\<close> pages did not end it.\<close>

fun list_all ::
  "'w kube_api \<Rightarrow> resource_kind \<Rightarrow> str_map \<Rightarrow> nat \<Rightarrow> bytestr \<Rightarrow> unstructured list \<Rightarrow> 'w \<Rightarrow>
   ((goerr + unstructured list) \<times> 'w) option" where
  "list_all api kind sel 0 token items w = None"
| "list_all api kind sel (Suc fuel) token items w =
     (case retry_with_backoff api (ka_list api kind sel default_page_size token) w of
        (Inl e, w') \<Rightarrow> Some (Inl e, w')
      | (Inr (page, next_token), w') \<Rightarrow>
          if next_token = [] then Some (Inr (items @ page), w')
          else list_all api kind sel fuel next_token (items @ page) w')"

definition vmi_index :: "unstructured list \<Rightarrow> (bytestr \<times> unstructured) list" where
  "vmi_index vmis = fold (\<lambda>v m. AList.update (un_name v) v m) vmis []"

definition join_vms :: "vm_filter \<Rightarrow> unstructured list \<Rightarrow> unstructured list \<Rightarrow> vm_inst list" where
  "join_vms f vms vmis =
     filter (\<lambda>i. vf_name f = [] \<or> v_name i = vf_name f)
       (map (\<lambda>vm. normalize_vm vm (map_of (vmi_index vmis) (un_name vm))) vms)"

definition kube_list ::
  "'w kube_api \<Rightarrow> nat \<Rightarrow> vm_filter \<Rightarrow> 'w \<Rightarrow> ((goerr + vm_inst list) \<times> 'w) option" where
  "kube_list api fuel f w =
     (case list_all api RVm (kube_selector api f) fuel [] [] w of
        None \<Rightarrow> None
      | Some (Inl e, w1) \<Rightarrow> Some (Inl (ErrWrap ''list VirtualMachines: %w'' [] e), w1)
      | Some (Inr vms, w1) \<Rightarrow>
          (case list_all api RVmi (kube_selector api f) fuel [] [] w1 of
             None \<Rightarrow> None
           | Some (Inl e, w2) \<Rightarrow> Some (Inl (ErrWrap ''list VirtualMachineInstances: %w'' [] e), w2)
           | Some (Inr vmis, w2) \<Rightarrow> Some (Inr (join_vms f vms vmis), w2)))"

section \<open>Launch\<close>

definition kube_launch ::
  "'w kube_api \<Rightarrow> k8s_lib \<Rightarrow> kv_config \<Rightarrow> vm_spec \<Rightarrow> 'w \<Rightarrow> (goerr + vm_inst) \<times> 'w" where
  "kube_launch api klib c spec w =
     (case build_resources api klib (k_namespace c) spec of
        Inl e \<Rightarrow> (Inl e, w)
      | Inr (vm, sec) \<Rightarrow>
     (case create_or_verify_secret api sec w of
        (Inl e, w1) \<Rightarrow> (Inl e, w1)
      | (Inr secret_created, w1) \<Rightarrow>
     (case create_or_verify_vm api vm w1 of
        (Inl e, w2) \<Rightarrow>
          if secret_created \<and> \<not> as_uncertain e
          then (Inl e, snd (ka_delete_secret api (se_name sec) w2))
          else (Inl e, w2)
      | (Inr (obj, _), w2) \<Rightarrow>
     (case own_secret api (se_name sec) obj w2 of
        (Inr _, w3) \<Rightarrow> (Inr (normalize_vm obj None), w3)
      | (Inl e, w3) \<Rightarrow>
          (case kube_terminate api (un_name obj) w3 of
             (cleanup, w4) \<Rightarrow>
               (Inl (ErrJoin (ErrWrap ''attach cloud-init Secret to VM: %w'' [] e #
                  (case cleanup of None \<Rightarrow> [] | Some ce \<Rightarrow> [ce]))), w4))))))"

end
