(* ===== verification/KvApiProps.thy ===== *)
theory KvApiProps
  imports KvApi
begin

text \<open>
  What the Kubernetes adapter promises: bounded retries, creations that never adopt an
  object of another request, a termination that answers only for every child, listings
  that are complete, and machines that always have an identity and a state.
\<close>

section \<open>Retries\<close>

lemma backoff_loop_count:
  fixes cnt :: "'w \<Rightarrow> nat"
  assumes "\<And>w. cnt (snd (fn w)) \<le> cnt w + 1" and "\<And>n w. cnt (snd (ka_pause api n w)) = cnt w"
  shows "cnt (snd (snd (backoff_loop api fn steps n le w))) \<le> cnt w + steps"
proof (induction steps arbitrary: n le w)
  case 0
  then show ?case by simp
next
  case (Suc steps)
  obtain p w1 where p: "ka_pause api n w = (p, w1)" by fastforce
  have c1: "cnt w1 = cnt w" using assms(2) [of n w] p by simp
  obtain r w2 where r: "fn w1 = (r, w2)" by fastforce
  have c2: "cnt w2 \<le> cnt w + 1" using assms(1) [of w1] r c1 by simp
  show ?case
  proof (cases p)
    case None
    show ?thesis
    proof (cases r)
      case (Inl e)
      show ?thesis using Suc.IH [of "Suc n" "Some e" w2] c2 p None r Inl by simp
    next
      case (Inr a)
      then show ?thesis using c2 p None r by simp
    qed
  next
    case (Some e)
    then show ?thesis using c1 p by simp
  qed
qed

lemma backoff_loop_Inr:
  "backoff_loop api fn steps n le w = (Inr a, x, w') \<Longrightarrow> \<exists>w1. fn w1 = (Inr a, w')"
proof (induction steps arbitrary: n le w)
  case (Suc steps)
  then show ?case by (auto split: prod.splits option.splits sum.splits if_splits)
qed simp

lemma retry_Inr: "retry_with_backoff api fn w = (Inr a, w') \<Longrightarrow> \<exists>w1. fn w1 = (Inr a, w')"
  using backoff_loop_Inr by (fastforce simp: retry_with_backoff_def split: prod.splits sum.splits option.splits if_splits)

text \<open>An error that is not transient ends the retries at once.\<close>

lemma retry_permanent:
  "ka_pause api 0 w = (None, w1) \<Longrightarrow> fn w1 = (Inl e, w2) \<Longrightarrow> \<not> is_transient e \<Longrightarrow>
   retry_with_backoff api fn w = (Inl e, w2)"
  by (simp add: retry_with_backoff_def eval_nat_numeral)

lemma retry_first_try:
  "ka_pause api 0 w = (None, w1) \<Longrightarrow> fn w1 = (Inr a, w2) \<Longrightarrow> retry_with_backoff api fn w = (Inr a, w2)"
  by (simp add: retry_with_backoff_def eval_nat_numeral)

lemma conflict_Inr: "retry_on_conflict fn n w = (Inr a, w') \<Longrightarrow> \<exists>w1. fn w1 = (Inr a, w')"
  by (induction n arbitrary: w) (auto split: prod.splits sum.splits if_splits)

lemma unit_call_run: "unit_call f w = (Inr u, w') \<Longrightarrow> f w = (None, w')"
  by (auto simp: unit_call_def split: prod.splits option.splits)

section \<open>Readiness\<close>

lemma must_get_Inr: "must_get f msg ns k w = (Inr u, w') \<Longrightarrow> fst (f w) = None \<and> k (snd (f w)) = (Inr u, w')"
  by (auto simp: must_get_def split: prod.splits option.splits)

lemma check_access_Inr:
  "check_access api ns cs w = (Inr u, w') \<Longrightarrow> c \<in> set cs \<Longrightarrow>
   \<exists>w1 reason. fst (ka_access_review api c w1) = Inr (True, reason)"
proof (induction cs arbitrary: w)
  case (Cons x cs)
  obtain r w1 where r: "ka_access_review api x w = (r, w1)" by fastforce
  with Cons.prems(1) obtain reason where "r = Inr (True, reason)" "check_access api ns cs w1 = (Inr u, w')"
    by (cases r) (auto split: if_splits)
  with Cons r show ?case by (metis fst_conv set_ConsD)
qed simp

section \<open>Create or verify\<close>

definition same_request :: "str_map \<Rightarrow> str_map \<Rightarrow> bool" where
  "same_request a b \<longleftrightarrow> map_get a annot_request_digest = map_get b annot_request_digest"

lemma try_secret_Inr:
  assumes "try_secret api desired w = (Inr created, w')"
  shows "if created then \<exists>w1. fst (ka_create_secret api desired w1) = None
    else \<exists>w1 s. fst (ka_get_secret api (se_name desired) w1) = Inr s \<and>
      same_request (se_annotations s) (se_annotations desired) \<and>
      map_get (se_data s) cloud_init_key = map_get (se_data desired) cloud_init_key"
proof -
  obtain c w1 where c: "ka_create_secret api desired w = (c, w1)" by fastforce
  show ?thesis
  proof (cases c)
    case None
    then show ?thesis using assms c by (auto simp: try_secret_def intro: exI [of _ w])
  next
    case (Some e)
    obtain g w2 where g: "ka_get_secret api (se_name desired) w1 = (g, w2)" by fastforce
    with assms c Some obtain s where s: "g = Inr s" "check_secret desired s = Inr created"
      by (cases g) (auto simp: try_secret_def verify_existing_def split: if_splits)
    then show ?thesis using g by (auto simp: check_secret_def same_request_def intro!: exI [of _ w1] split: if_splits)
  qed
qed

lemma create_secret_Inr:
  assumes "create_or_verify_secret api desired w = (Inr created, w')"
  shows "if created then \<exists>w1. fst (ka_create_secret api desired w1) = None
    else \<exists>w1 s. fst (ka_get_secret api (se_name desired) w1) = Inr s \<and>
      same_request (se_annotations s) (se_annotations desired) \<and>
      map_get (se_data s) cloud_init_key = map_get (se_data desired) cloud_init_key"
proof -
  have "retry_with_backoff api (try_secret api desired) w = (Inr created, w')"
    using assms by (auto simp: create_or_verify_secret_def split: prod.splits sum.splits)
  from retry_Inr [OF this] obtain w1 where "try_secret api desired w1 = (Inr created, w')" by blast
  then show ?thesis by (rule try_secret_Inr)
qed

lemma try_vm_Inr:
  assumes "try_vm api desired w = (Inr (obj, created), w')"
  shows "if created then \<exists>w1. fst (ka_create_vm api desired w1) = Inr obj
    else \<exists>w1. fst (ka_get_vm api (vm_name desired) w1) = Inr obj \<and>
      same_request (un_annotations obj) (vm_annotations desired) \<and>
      map_get (un_labels obj) label_sandbox_id = map_get (vm_labels desired) label_sandbox_id"
proof -
  obtain c w1 where c: "ka_create_vm api desired w = (c, w1)" by fastforce
  show ?thesis
  proof (cases c)
    case (Inr o1)
    then show ?thesis using assms c by (auto simp: try_vm_def intro: exI [of _ w])
  next
    case (Inl e)
    obtain g w2 where g: "ka_get_vm api (vm_name desired) w1 = (g, w2)" by fastforce
    with assms c Inl obtain s where s: "g = Inr s" "check_vm desired s = Inr (obj, created)"
      by (cases g) (auto simp: try_vm_def verify_existing_def split: if_splits)
    then show ?thesis using g by (auto simp: check_vm_def same_request_def intro!: exI [of _ w1] split: if_splits)
  qed
qed

lemma create_vm_Inr:
  assumes "create_or_verify_vm api desired w = (Inr (obj, created), w')"
  shows "if created then \<exists>w1. fst (ka_create_vm api desired w1) = Inr obj
    else \<exists>w1. fst (ka_get_vm api (vm_name desired) w1) = Inr obj \<and>
      same_request (un_annotations obj) (vm_annotations desired) \<and>
      map_get (un_labels obj) label_sandbox_id = map_get (vm_labels desired) label_sandbox_id"
proof -
  have "retry_with_backoff api (try_vm api desired) w = (Inr (obj, created), w')"
    using assms by (auto simp: create_or_verify_vm_def split: prod.splits sum.splits option.splits)
  from retry_Inr [OF this] obtain w1 where "try_vm api desired w1 = (Inr (obj, created), w')" by blast
  then show ?thesis by (rule try_vm_Inr)
qed

lemma own_secret_run:
  assumes "own_secret api nm obj w = (Inr u, w')"
  shows "\<exists>w1 s w2. ka_get_secret api nm w1 = (Inr s, w2) \<and>
    ka_update_secret api (s\<lparr>se_owners := [owner_of obj]\<rparr>) w2 = (None, w')"
proof -
  obtain w1 where "own_secret_once api nm obj w1 = (Inr u, w')"
    using assms retry_Inr conflict_Inr unfolding own_secret_def by metis
  then show ?thesis
    by (fastforce simp: own_secret_once_def split: prod.splits sum.splits dest: unit_call_run)
qed

text \<open>What a launch that succeeded has seen.\<close>

definition launched_secret :: "'w kube_api \<Rightarrow> secret \<Rightarrow> bool" where
  "launched_secret api sec \<longleftrightarrow>
     (\<exists>w1. fst (ka_create_secret api sec w1) = None) \<or>
     (\<exists>w1 s. fst (ka_get_secret api (se_name sec) w1) = Inr s \<and>
        same_request (se_annotations s) (se_annotations sec) \<and>
        map_get (se_data s) cloud_init_key = map_get (se_data sec) cloud_init_key)"

definition launched_vm :: "'w kube_api \<Rightarrow> virtual_machine \<Rightarrow> unstructured \<Rightarrow> bool" where
  "launched_vm api vm obj \<longleftrightarrow>
     (\<exists>w1. fst (ka_create_vm api vm w1) = Inr obj) \<or>
     (\<exists>w1. fst (ka_get_vm api (vm_name vm) w1) = Inr obj \<and>
        same_request (un_annotations obj) (vm_annotations vm) \<and>
        map_get (un_labels obj) label_sandbox_id = map_get (vm_labels vm) label_sandbox_id)"

lemma kube_launch_Inr:
  assumes "kube_launch api klib c spec w = (Inr i, w')"
  shows "\<exists>vm sec obj. build_resources api klib (k_namespace c) spec = Inr (vm, sec) \<and>
    launched_secret api sec \<and> launched_vm api vm obj \<and> i = normalize_vm obj None \<and>
    (\<exists>w1 s w2. ka_get_secret api (se_name sec) w1 = (Inr s, w2) \<and>
       ka_update_secret api (s\<lparr>se_owners := [owner_of obj]\<rparr>) w2 = (None, w'))"
proof -
  obtain vm sec where b: "build_resources api klib (k_namespace c) spec = Inr (vm, sec)"
    using assms by (auto simp: kube_launch_def split: sum.splits)
  obtain x w1 where x: "create_or_verify_secret api sec w = (x, w1)" by fastforce
  then obtain cr where cr: "x = Inr cr" using assms b by (cases x) (auto simp: kube_launch_def)
  obtain y w2 where y: "create_or_verify_vm api vm w1 = (y, w2)" by fastforce
  then obtain obj cv where cv: "y = Inr (obj, cv)"
    using assms b x cr by (cases y) (auto simp: kube_launch_def split: if_splits)
  obtain z w3 where z: "own_secret api (se_name sec) obj w2 = (z, w3)" by fastforce
  then obtain u where u: "z = Inr u" "i = normalize_vm obj None" "w3 = w'"
    using assms b x cr y cv by (cases z) (auto simp: kube_launch_def split: prod.splits)
  have "launched_secret api sec" using create_secret_Inr [OF x [unfolded cr]]
    by (auto simp: launched_secret_def split: if_splits)
  moreover have "launched_vm api vm obj" using create_vm_Inr [OF y [unfolded cv]]
    by (auto simp: launched_vm_def split: if_splits)
  ultimately show ?thesis using b u(2) own_secret_run [OF z [unfolded u(1,3)]] by blast
qed

section \<open>Termination\<close>

text \<open>
  The three children of a sandbox, and what a cluster promises about deleting one, nobody
  else at work. \<open>live\<close> are the objects that exist and are neither marked for deletion nor
  left to the garbage collector by the deletion of their owner. A deletion that is accepted
  marks its object, one that answers not found had nothing to mark, and one that fails may
  have marked it all the same; with a machine go at most its children, and no other object
  is ever touched. Waiting changes nothing, and neither an interrupted wait nor the end of
  the retries looks like a missing object.
\<close>

datatype kube_object = KubeVm bytestr | KubeVolume bytestr | KubeSecret bytestr

primrec kube_delete :: "'w kube_api \<Rightarrow> kube_object \<Rightarrow> 'w \<Rightarrow> goerr option \<times> 'w" where
  "kube_delete api (KubeVm nm) = ka_delete_vm api nm"
| "kube_delete api (KubeVolume nm) = ka_delete_data_volume api nm"
| "kube_delete api (KubeSecret nm) = ka_delete_secret api nm"

definition kube_children :: "bytestr \<Rightarrow> kube_object set" where
  "kube_children nm = {KubeVm nm, KubeVolume (nm @ ''-root''), KubeSecret (nm @ ''-cloudinit'')}"

definition kube_owned :: "kube_object \<Rightarrow> kube_object set" where
  "kube_owned x = (case x of KubeVm nm \<Rightarrow> kube_children nm | _ \<Rightarrow> {x})"

definition marks_deleted :: "'w kube_api \<Rightarrow> ('w \<Rightarrow> kube_object set) \<Rightarrow> bool" where
  "marks_deleted api live \<longleftrightarrow>
     (\<forall>x w. case kube_delete api x w of
        (None, w') \<Rightarrow> live w - kube_owned x \<subseteq> live w' \<and> live w' \<subseteq> live w - {x}
      | (Some e, w') \<Rightarrow>
          if is_not_found e then live w' = live w \<and> x \<notin> live w
          else live w - kube_owned x \<subseteq> live w' \<and> live w' \<subseteq> live w) \<and>
     (\<forall>n w. live (snd (ka_pause api n w)) = live w) \<and>
     (\<forall>n w e. fst (ka_pause api n w) = Some e \<longrightarrow> \<not> is_not_found e) \<and>
     \<not> is_not_found (ka_wait_timeout api)"

definition deletion_accepted :: "goerr + unit \<Rightarrow> bool" where
  "deletion_accepted r \<longleftrightarrow> (case r of Inl e \<Rightarrow> is_not_found e | Inr _ \<Rightarrow> True)"

lemma transient_found: "is_transient e \<Longrightarrow> \<not> is_not_found e"
  by (auto simp: is_transient_def is_not_found_def)

lemma delete_cases:
  assumes "marks_deleted api live" and "unit_call (kube_delete api x) w = (r, w')"
  shows "live w - kube_owned x \<subseteq> live w' \<and> live w' \<subseteq> live w \<and> (deletion_accepted r \<longrightarrow> x \<notin> live w')"
proof -
  obtain c w1 where c: "kube_delete api x w = (c, w1)" by fastforce
  have law: "case kube_delete api x w of
        (None, w') \<Rightarrow> live w - kube_owned x \<subseteq> live w' \<and> live w' \<subseteq> live w - {x}
      | (Some e, w') \<Rightarrow>
          if is_not_found e then live w' = live w \<and> x \<notin> live w
          else live w - kube_owned x \<subseteq> live w' \<and> live w' \<subseteq> live w"
    using assms(1) unfolding marks_deleted_def by (elim conjE) (erule allE, erule allE, assumption)
  show ?thesis using law c assms(2)
    by (cases c) (auto simp: unit_call_def deletion_accepted_def split: if_splits)
qed

lemma backoff_delete:
  assumes "marks_deleted api live"
  shows "backoff_loop api (unit_call (kube_delete api x)) steps n le w = (r, le', w') \<Longrightarrow>
    (\<forall>e. le = Some e \<longrightarrow> \<not> is_not_found e) \<Longrightarrow>
    live w - kube_owned x \<subseteq> live w' \<and> live w' \<subseteq> live w \<and> (deletion_accepted r \<longrightarrow> x \<notin> live w') \<and>
    (\<forall>e. le' = Some e \<longrightarrow> \<not> is_not_found e)"
proof (induction steps arbitrary: n le w)
  case 0
  then show ?case using assms by (auto simp: deletion_accepted_def marks_deleted_def)
next
  case (Suc steps)
  obtain p w1 where p: "ka_pause api n w = (p, w1)" by fastforce
  have l1: "live w1 = live w" using assms p by (metis marks_deleted_def snd_conv)
  show ?case
  proof (cases p)
    case (Some e)
    then have "\<not> is_not_found e" using assms p by (metis marks_deleted_def fst_conv)
    with Suc.prems p Some l1 show ?thesis by (auto simp: deletion_accepted_def)
  next
    case None
    obtain a w2 where a: "unit_call (kube_delete api x) w1 = (a, w2)" by fastforce
    note d = delete_cases [OF assms a]
    show ?thesis
    proof (cases "\<exists>e. a = Inl e \<and> is_transient e")
      case True
      then obtain e where e: "a = Inl e" "is_transient e" by blast
      with Suc.prems(1) p None a have
        "backoff_loop api (unit_call (kube_delete api x)) steps (Suc n) (Some e) w2 = (r, le', w')" by simp
      from Suc.IH [OF this] transient_found [OF e(2)] d l1 show ?thesis by auto
    next
      case False
      then have "r = a \<and> le' = le \<and> w' = w2"
        using Suc.prems(1) p None a by (cases a) auto
      with d l1 Suc.prems(2) show ?thesis by simp
    qed
  qed
qed

lemma retry_delete:
  assumes "marks_deleted api live" and "retry_with_backoff api (unit_call (kube_delete api x)) w = (r, w')"
  shows "live w - kube_owned x \<subseteq> live w' \<and> live w' \<subseteq> live w \<and> (deletion_accepted r \<longrightarrow> x \<notin> live w')"
proof -
  obtain b le' w1 where b: "backoff_loop api (unit_call (kube_delete api x)) 5 0 None w = (b, le', w1)"
    by (metis prod_cases3)
  from backoff_delete [OF assms(1) b] have d:
    "live w - kube_owned x \<subseteq> live w1 \<and> live w1 \<subseteq> live w" "deletion_accepted b \<longrightarrow> x \<notin> live w1"
    "\<forall>e. le' = Some e \<longrightarrow> \<not> is_not_found e" by simp_all
  have "w' = w1 \<and> (deletion_accepted r \<longrightarrow> deletion_accepted b)"
    using assms(2) b d(3)
    by (auto simp: retry_with_backoff_def deletion_accepted_def split: sum.splits option.splits if_splits)
  with d show ?thesis by blast
qed

text \<open>One step of Terminate.\<close>

lemma delete_step_marks:
  assumes "marks_deleted api live" and "delete_step api msg (kube_delete api x) (errs, w) = (errs', w')"
  shows "live w - kube_owned x \<subseteq> live w' \<and> live w' \<subseteq> live w \<and> (errs' = [] \<longrightarrow> errs = [] \<and> x \<notin> live w')"
proof -
  obtain r w1 where r: "retry_with_backoff api (unit_call (kube_delete api x)) w = (r, w1)" by fastforce
  from retry_delete [OF assms(1) r] r assms(2) show ?thesis
    by (auto simp: delete_step_def deletion_accepted_def split: sum.splits if_splits)
qed

text \<open>A deletion the cluster does not refuse, undisturbed.\<close>

definition never_refused :: "'w kube_api \<Rightarrow> kube_object \<Rightarrow> bool" where
  "never_refused api x \<longleftrightarrow>
     (\<forall>n w. fst (ka_pause api n w) = None) \<and>
     (\<forall>w e. fst (kube_delete api x w) = Some e \<longrightarrow> is_not_found e)"

lemma delete_step_accepted:
  assumes "marks_deleted api live" and "never_refused api x"
    and "delete_step api msg (kube_delete api x) (errs, w) = (errs', w')"
  shows "errs' = errs \<and> x \<notin> live w'"
proof -
  obtain w1 where p: "ka_pause api 0 w = (None, w1)"
    using assms(2) unfolding never_refused_def by (metis prod.collapse)
  obtain c w2 where c: "kube_delete api x w1 = (c, w2)" by fastforce
  have nf: "c = Some e \<Longrightarrow> is_not_found e" for e using assms(2) c unfolding never_refused_def by (metis fst_conv)
  let ?r = "case c of None \<Rightarrow> Inr () | Some e \<Rightarrow> Inl e"
  have u: "unit_call (kube_delete api x) w1 = (?r, w2)" using c by (cases c) (simp_all add: unit_call_def)
  have "retry_with_backoff api (unit_call (kube_delete api x)) w = (?r, w2)"
  proof (cases c)
    case None
    then show ?thesis using retry_first_try [OF p] u by simp
  next
    case (Some e)
    then have "\<not> is_transient e" using nf transient_found by blast
    with retry_permanent [OF p] u Some show ?thesis by simp
  qed
  moreover have "deletion_accepted ?r" using nf by (cases c) (simp_all add: deletion_accepted_def)
  ultimately show ?thesis
    using retry_delete [OF assms(1)] assms(3)
    by (auto simp: delete_step_def deletion_accepted_def split: sum.splits)
qed

section \<open>Machines\<close>

lemma vm_identity_nonempty [simp]: "vm_identity raw \<noteq> []"
  by (simp add: vm_identity_def Let_def)

lemma normalize_usable: "v_sandbox_id (normalize_vm raw vmi) \<noteq> [] \<and> v_state (normalize_vm raw vmi) \<noteq> []"
  by (simp add: normalize_vm_def Let_def vm_default_state_def)

lemma annotations_read:
  "map_get (object_annotations spec) annot_sandbox_id = vs_sandbox_id spec"
  "map_get (object_annotations spec) annot_sandbox_name = vs_name spec"
  "map_get (object_annotations spec) annot_namespace = vs_namespace spec"
  "map_get (object_annotations spec) annot_workspace = vs_workspace spec"
  "map_get (object_annotations spec) annot_created_at = format_rfc3339_nano (vs_created_at spec)"
  "map_get (object_annotations spec) annot_request_digest = vs_request_digest spec"
  by (simp_all add: map_get_def object_annotations_def kube_names)

lemma join_members:
  assumes "i \<in> set (join_vms f vms vmis)"
  shows "(\<exists>raw vmi. i = normalize_vm raw vmi) \<and> (vf_name f = [] \<or> v_name i = vf_name f)"
proof -
  from assms obtain vm where "i = normalize_vm vm (map_of (vmi_index vmis) (un_name vm))"
    "vf_name f = [] \<or> v_name i = vf_name f"
    unfolding join_vms_def set_filter set_map by blast
  then show ?thesis by blast
qed

lemma kube_list_members:
  "kube_list api fuel f w = Some (Inr is, w') \<Longrightarrow> i \<in> set is \<Longrightarrow>
   (\<exists>raw vmi. i = normalize_vm raw vmi) \<and> (vf_name f = [] \<or> v_name i = vf_name f)"
  using join_members [of i f]
  by (auto simp: kube_list_def split: option.splits prod.splits sum.splits)

section \<open>Listing\<close>

text \<open>
  A collection served in pages: page \<open>n\<close> under its token, the first under the empty
  one, the last announcing no other; no attempt is interrupted.
\<close>

definition kube_serves ::
  "'w kube_api \<Rightarrow> resource_kind \<Rightarrow> str_map \<Rightarrow> (nat \<Rightarrow> bytestr) \<Rightarrow> unstructured list list \<Rightarrow> bool" where
  "kube_serves api kind sel tok pages \<longleftrightarrow>
     tok 0 = [] \<and> (\<forall>n w. ka_pause api n w = (None, w)) \<and>
     (\<forall>n w. n < length pages \<longrightarrow>
        ka_list api kind sel default_page_size (tok n) w =
          (Inr (pages ! n, if Suc n < length pages then tok (Suc n) else []), w) \<and>
        (0 < n \<longrightarrow> tok n \<noteq> []))"

lemma list_all_serves:
  assumes "kube_serves api kind sel tok pages" and "n < length pages" and "length pages - n \<le> fuel"
  shows "list_all api kind sel fuel (tok n) items w = Some (Inr (items @ concat (drop n pages)), w)"
  using assms(2,3)
proof (induction fuel arbitrary: n items)
  case 0
  then show ?case by simp
next
  case (Suc fuel)
  have np: "ka_list api kind sel default_page_size (tok n) w =
      (Inr (pages ! n, if Suc n < length pages then tok (Suc n) else []), w)"
    using assms(1) Suc.prems(1) by (simp add: kube_serves_def)
  have pause: "ka_pause api 0 w = (None, w)" using assms(1) by (simp add: kube_serves_def)
  note r = retry_first_try [of api w w, OF pause, where fn = "ka_list api kind sel default_page_size (tok n)", OF np]
  have d: "drop n pages = pages ! n # drop (Suc n) pages" using Suc.prems by (simp add: Cons_nth_drop_Suc)
  show ?case
  proof (cases "Suc n < length pages")
    case True
    then have "tok (Suc n) \<noteq> []" using assms(1) by (simp add: kube_serves_def)
    with True Suc.IH [of "Suc n" "items @ pages ! n"] Suc.prems(2) show ?thesis by (simp add: r d)
  next
    case False
    then show ?thesis by (simp add: r d)
  qed
qed

lemma kube_list_serves:
  assumes "kube_serves api RVm (kube_selector api f) tok pages" and "pages \<noteq> []"
    and "kube_serves api RVmi (kube_selector api f) tok2 pages2" and "pages2 \<noteq> []"
    and "length pages \<le> fuel" and "length pages2 \<le> fuel"
  shows "kube_list api fuel f w = Some (Inr (join_vms f (concat pages) (concat pages2)), w)"
proof -
  have "tok 0 = []" "tok2 0 = []" using assms(1,3) by (simp_all add: kube_serves_def)
  then have "list_all api RVm (kube_selector api f) fuel [] [] w = Some (Inr (concat pages), w)"
    "list_all api RVmi (kube_selector api f) fuel [] [] w = Some (Inr (concat pages2), w)"
    using list_all_serves [OF assms(1), of 0 fuel "[]" w] list_all_serves [OF assms(3), of 0 fuel "[]" w]
      assms(2,4-6) by simp_all
  then show ?thesis by (simp add: kube_list_def)
qed

end
