(* ===== verification/KvDriver.thy ===== *)
theory KvDriver
  imports KvCore
begin

text \<open>
  drivers/kubevirt/driver.go, the handlers: programs over the registry and the world, as
  for EC2. Unlike there, a creation commits under the lease of its reservation, an accepted
  deletion marks a reservation that is still launching, and an update that finds the record
  gone broadcasts nothing.
\<close>

record 'w kv_env =
  ke_config :: kv_config
  ke_runtime :: "'w runtime"
  ke_check_ready :: "'w \<Rightarrow> goerr option \<times> 'w"
  ke_launch :: "vm_spec \<Rightarrow> 'w \<Rightarrow> (goerr + vm_inst) \<times> 'w"
  ke_list :: "vm_filter \<Rightarrow> 'w \<Rightarrow> (goerr + vm_inst list) \<times> 'w"
  ke_stop :: "bytestr \<Rightarrow> 'w \<Rightarrow> goerr option \<times> 'w"
  ke_terminate :: "bytestr \<Rightarrow> 'w \<Rightarrow> goerr option \<times> 'w"
  ke_transport_lib :: transport_lib
  ke_print_table :: "nat \<Rightarrow> bool"
  ke_sort :: sorter
  ke_sort_vms :: "(vm_inst \<Rightarrow> vm_inst \<Rightarrow> bool) \<Rightarrow> vm_inst list \<Rightarrow> vm_inst list"
  ke_rand :: "int \<Rightarrow> 'w \<Rightarrow> int \<times> 'w"
  ke_reset_timer :: "duration \<Rightarrow> 'w \<Rightarrow> unit \<times> 'w"

definition kv_limits :: "kv_config \<Rightarrow> limits" where
  "kv_limits c = \<lparr>max_instances = k_max_instances c, max_instance_age = k_max_instance_age c\<rparr>"

text \<open>NewKubeVirtDriver: the registry it starts with.\<close>

definition new_kubevirt_driver ::
  "transport_lib \<Rightarrow> k8s_lib \<Rightarrow> bytestr list \<Rightarrow> kv_config \<Rightarrow> 'p option \<Rightarrow> goerr + registry" where
  "new_kubevirt_driver lib klib ks c provider =
     (if provider = None then Inl (ErrNew ''VM provider is required'')
      else
        (case kv_validate_config lib klib ks c of
           Some e \<Rightarrow> Inl (ErrWrap ''invalid KubeVirt driver configuration: %w'' [] e)
         | None \<Rightarrow> Inr (new_registry (kv_limits c))))"

definition kv_fail :: "'w kv_env \<Rightarrow> goerr \<Rightarrow> ('w sys, grpc_status + 'a) prog" where
  "kv_fail env err =
     act (on_world (rt_ctx_err (ke_runtime env))) (\<lambda>c1.
     act (on_world (rt_ctx_err (ke_runtime env))) (\<lambda>c2.
       Ret (Inl (kv_provider_error c1 c2 err))))"

section \<open>CreateSandbox\<close>

definition kv_validate :: "'w kv_env \<Rightarrow> driver_sandbox option \<Rightarrow> ('w sys, grpc_status + unit) prog" where
  "kv_validate env sbo =
     order_of (ke_runtime env) cpu_keys (\<lambda>ck.
     order_of (ke_runtime env) mem_keys (\<lambda>mk.
       Ret (kv_validate_sandbox_create ck mk sbo)))"

definition kv_launching_record :: "driver_sandbox \<Rightarrow> time \<Rightarrow> srecord" where
  "kv_launching_record sb created_at =
     zero_record\<lparr>r_sandbox_id := sb_id sb, r_name := sb_name sb, r_namespace := sb_namespace sb,
       r_workspace := sb_workspace sb, r_state := ''launching'', r_created_at := created_at,
       r_spec := sb_spec sb,
       r_last_status := Some (kv_sandbox_status (sb_name sb) [] ''Pending'' created_at)\<rparr>"

definition kv_cloud_init_params ::
  "'w kv_env \<Rightarrow> driver_sandbox \<Rightarrow> bytestr \<Rightarrow> time \<Rightarrow> cloud_init_params" where
  "kv_cloud_init_params env sb lifetime created_at =
     \<lparr>ci_transport = k_transport (ke_config env), ci_sandbox_id = sb_id sb,
      ci_sandbox_token = sandbox_token sb, ci_log_level = sandbox_log_level sb,
      ci_max_lifetime = lifetime, ci_expires_at = created_at + k_max_instance_age (ke_config env)\<rparr>"

text \<open>\<open>strings.Join(parts, "\x00")\<close>.\<close>

fun join0 :: "bytestr list \<Rightarrow> bytestr" where
  "join0 [] = []"
| "join0 [s] = s"
| "join0 (s # t # ss) = s @ [CHR 0x00] @ join0 (t # ss)"

definition kv_request_digest :: "'w kv_env \<Rightarrow> driver_sandbox \<Rightarrow> bytestr \<Rightarrow> bytestr \<Rightarrow> bytestr" where
  "kv_request_digest env sb instance_type cloud_init =
     (let c = ke_config env
      in hex_of (rt_sha256 (ke_runtime env)
           (join0 [k_gateway_id c, sb_id sb, sb_name sb, sb_namespace sb, sb_workspace sb,
              instance_type, k_boot_source c, k_boot_source_namespace c, k_default_preference c,
              k_storage_class c, k_disk_size c, cloud_init])))"

definition kv_resource_key :: "'w kv_env \<Rightarrow> bytestr \<Rightarrow> bytestr" where
  "kv_resource_key env i =
     hex_of (rt_sha256 (ke_runtime env) (k_gateway_id (ke_config env) @ [CHR 0x00] @ i))"

definition kv_vm_spec ::
  "'w kv_env \<Rightarrow> driver_sandbox \<Rightarrow> bytestr \<Rightarrow> bytestr \<Rightarrow> time \<Rightarrow> bytestr \<Rightarrow> vm_spec" where
  "kv_vm_spec env sb instance_type cloud_init created_at lifetime =
     (let c = ke_config env
      in \<lparr>vs_sandbox_id = sb_id sb, vs_name = sb_name sb, vs_namespace = sb_namespace sb,
          vs_workspace = sb_workspace sb, vs_gateway_id = k_gateway_id c,
          vs_instance_type = instance_type, vs_boot_source = k_boot_source c,
          vs_boot_source_namespace = k_boot_source_namespace c,
          vs_preference = k_default_preference c, vs_storage_class = k_storage_class c,
          vs_cloud_init = cloud_init, vs_resource_key = kv_resource_key env (sb_id sb),
          vs_request_digest = kv_request_digest env sb instance_type cloud_init,
          vs_disk_size = k_disk_size c, vs_storage_labels = k_storage_labels c,
          vs_storage_annotations = k_storage_annotations c, vs_created_at = created_at,
          vs_max_lifetime = lifetime\<rparr>)"

text \<open>The guard and the closure of the commit.\<close>

definition kv_may_commit :: "64 word \<Rightarrow> srecord \<Rightarrow> bool" where
  "kv_may_commit lease rc \<longleftrightarrow>
     r_lease rc = lease \<and> r_state rc \<noteq> ''delete-requested'' \<and> r_state rc \<noteq> ''deleting'' \<and>
     r_state rc \<noteq> ''stopping''"

definition kv_commit :: "vm_inst \<Rightarrow> time \<Rightarrow> srecord \<Rightarrow> srecord" where
  "kv_commit i created_at rc =
     rc\<lparr>r_instance_id := v_vm_name i, r_state := v_state i, r_created_at := v_created_at i,
       r_last_status := Some (kv_sandbox_status (r_name rc) (v_vm_name i) (v_state i) created_at)\<rparr>"

text \<open>What the launch answered, with the defaults the handler fills in.\<close>

definition kv_complete :: "time \<Rightarrow> vm_inst \<Rightarrow> vm_inst" where
  "kv_complete created_at i =
     (let i1 = (if v_state i = [] then i\<lparr>v_state := ''Pending''\<rparr> else i)
      in if is_zero (v_created_at i1) then i1\<lparr>v_created_at := created_at\<rparr> else i1)"

definition kv_commit_launch ::
  "'w kv_env \<Rightarrow> driver_sandbox \<Rightarrow> 64 word \<Rightarrow> time \<Rightarrow> vm_inst \<Rightarrow>
   ('w sys, (grpc_status + unit) \<times> bool) prog" where
  "kv_commit_launch env sb lease created_at i =
     act (on_reg (update_if (sb_id sb) (kv_may_commit lease) (kv_commit i created_at))) (\<lambda>(updated, ok).
       if \<not> ok then
         act (on_world (ke_terminate env (v_vm_name i))) (\<lambda>_.
           Ret (Inl (Status Internal
             (ErrNew ''launched VM could not be committed; cleanup requested'')), True))
       else
         act (on_reg (unit_op (broadcast_sandbox updated))) (\<lambda>_. Ret (Inr (), False)))"

text \<open>From the reservation on; the second component is the variable \<open>rollback\<close>.\<close>

definition kv_create_reserved ::
  "'w kv_env \<Rightarrow> driver_sandbox \<Rightarrow> bytestr \<Rightarrow> time \<Rightarrow> 64 word \<Rightarrow>
   ('w sys, (grpc_status + unit) \<times> bool) prog" where
  "kv_create_reserved env sb instance_type created_at lease =
     act (on_reg (read_op max_lifetime_string)) (\<lambda>lifetime.
     order_of (ke_runtime env) sec_keys (\<lambda>ks.
       case render_cloud_init (ke_transport_lib env) (ke_print_table env) ks
              (kv_cloud_init_params env sb lifetime created_at) of
         Inl e \<Rightarrow> Ret (Inl (Status InvalidArgument (ErrWrap ''invalid bootstrap data: %v'' [] e)), True)
       | Inr cloud_init \<Rightarrow>
     act (on_reg (read_op max_lifetime_string)) (\<lambda>lifetime2.
     act (on_world (ke_launch env
            (kv_vm_spec env sb instance_type cloud_init created_at lifetime2))) (\<lambda>launched.
       case launched of
         Inl e \<Rightarrow> call (kv_fail env e) (\<lambda>r. Ret (r, True))
       | Inr i \<Rightarrow>
           if v_vm_name i = []
           then Ret (Inl (Status Unavailable
                  (ErrNew ''KubeVirt launch returned an invalid VM identity'')), True)
           else kv_commit_launch env sb lease created_at (kv_complete created_at i)))))"

definition kv_create_sandbox ::
  "'w kv_env \<Rightarrow> driver_sandbox option \<Rightarrow> ('w sys, grpc_status + unit) prog" where
  "kv_create_sandbox env sbo =
     call (kv_validate env sbo) (\<lambda>valid.
       case valid of
         Inl st \<Rightarrow> Ret (Inl st)
       | Inr _ \<Rightarrow>
     (case sbo of
        None \<Rightarrow> Ret (Inl (Status InvalidArgument (ErrNew ''sandbox is required'')))
      | Some sb \<Rightarrow>
     (case kv_select_instance_type (ke_sort env) (sandbox_resources sb)
             (k_default_instance_type (ke_config env)) of
        Inl e \<Rightarrow> Ret (Inl (select_status e))
      | Inr instance_type \<Rightarrow>
     now_of (ke_runtime env) (\<lambda>created_at.
     act (on_reg (reserve_with_lease (kv_launching_record sb created_at))) (\<lambda>reserved.
       case reserved of
         Inl e \<Rightarrow> Ret (Inl (reserve_status e))
       | Inr lease \<Rightarrow>
           call (kv_create_reserved env sb instance_type created_at lease) (\<lambda>(res, rollback_it).
             if rollback_it then
               act (on_reg (unit_op (rollback (sb_id sb)))) (\<lambda>_. Ret res)
             else Ret res))))))"

section \<open>Resolving a sandbox\<close>

definition kv_adopt :: "srecord \<Rightarrow> srecord \<Rightarrow> srecord" where
  "kv_adopt rc current =
     current\<lparr>r_instance_id := r_instance_id rc, r_state := r_state rc,
       r_created_at := r_created_at rc, r_last_status := r_last_status rc\<rparr>"

definition kv_launching :: "srecord \<Rightarrow> bool" where
  "kv_launching current \<longleftrightarrow> r_instance_id current = [] \<and> r_state current = ''launching''"

text \<open>The one active machine becomes the record, or the record that got there first wins.\<close>

definition kv_resolve_adopt :: "srecord \<Rightarrow> ('w sys, grpc_status + srecord) prog" where
  "kv_resolve_adopt rc =
     act (on_reg (add_record (Some rc))) (\<lambda>err.
       case err of
         None \<Rightarrow> Ret (Inr rc)
       | Some _ \<Rightarrow>
     act (on_reg (update_if (r_sandbox_id rc) kv_launching (kv_adopt rc))) (\<lambda>(updated, ok).
       if ok then Ret (Inr updated)
       else
     act (on_reg (read_op (get_record (r_sandbox_id rc)))) (\<lambda>(current, found).
       if found \<and> r_instance_id current \<noteq> [] then Ret (Inr current)
       else Ret (Inl (Status Aborted (ErrNew ''sandbox lifecycle changed while resolving''))))))"

definition kv_resolve_remote ::
  "'w kv_env \<Rightarrow> bytestr \<Rightarrow> bytestr \<Rightarrow> ('w sys, grpc_status + srecord) prog" where
  "kv_resolve_remote env i nm =
     act (on_world (ke_list env \<lparr>vf_gateway_id = k_gateway_id (ke_config env),
            vf_sandbox_id = i, vf_name = nm\<rparr>)) (\<lambda>listed.
       case listed of
         Inl e \<Rightarrow> kv_fail env e
       | Inr instances \<Rightarrow>
           (case filter (\<lambda>x. \<not> is_terminal_state (v_state x)) instances of
              [] \<Rightarrow> Ret (Inl not_found)
            | a # more_active \<Rightarrow>
                if more_active \<noteq> []
                then Ret (Inl (Status FailedPrecondition
                       (ErrNew ''multiple provider instances match sandbox'')))
                else now_of (ke_runtime env) (\<lambda>now. kv_resolve_adopt (kv_record_from_instance now a))))"

definition kv_resolve ::
  "'w kv_env \<Rightarrow> bytestr \<Rightarrow> bytestr \<Rightarrow> ('w sys, grpc_status + srecord) prog" where
  "kv_resolve env i nm =
     (if (i = []) = (nm = [])
      then Ret (Inl (Status InvalidArgument
             (ErrNew ''exactly one of sandbox_id or sandbox_name is required'')))
      else if i \<noteq> [] then
        act (on_reg (read_op (get_record i))) (\<lambda>(rc, ok).
          if ok \<and> r_instance_id rc \<noteq> [] then Ret (Inr rc) else kv_resolve_remote env i nm)
      else
        act (with_keys (ke_runtime env) (\<lambda>ks. read_op (all_records ks))) (\<lambda>recs.
          case filter (\<lambda>rc. r_name rc = nm \<and> r_instance_id rc \<noteq> []) recs of
            [] \<Rightarrow> kv_resolve_remote env i nm
          | rc # others \<Rightarrow>
              if others = [] then Ret (Inr rc)
              else Ret (Inl (Status FailedPrecondition
                     (ErrFmt ''sandbox name %q is ambiguous'' [AStr nm])))))"

section \<open>Get, List, Stop, Delete\<close>

definition kv_get_sandbox ::
  "'w kv_env \<Rightarrow> sandbox_ref \<Rightarrow> ('w sys, grpc_status + driver_sandbox) prog" where
  "kv_get_sandbox env req =
     call (kv_resolve env (ref_id req) (ref_name req)) (\<lambda>r.
       case r of Inl st \<Rightarrow> Ret (Inl st) | Inr rc \<Rightarrow> Ret (Inr (to_driver_sandbox rc)))"

definition kv_list_sandboxes :: "'w kv_env \<Rightarrow> ('w sys, grpc_status + driver_sandbox list) prog" where
  "kv_list_sandboxes env =
     act (on_world (ke_list env \<lparr>vf_gateway_id = k_gateway_id (ke_config env),
            vf_sandbox_id = [], vf_name = []\<rparr>)) (\<lambda>listed.
       case listed of
         Inl e \<Rightarrow> kv_fail env e
       | Inr instances \<Rightarrow>
           for_each instances
             (\<lambda>x acc.
                if is_terminal_state (v_state x) \<or> v_sandbox_id x = [] then Ret (Inr acc)
                else now_of (ke_runtime env) (\<lambda>now.
                  Ret (Inr (acc @ [kv_instance_to_driver_sandbox now x])))) [])"

definition kv_mark :: "bytestr \<Rightarrow> time \<Rightarrow> srecord \<Rightarrow> srecord" where
  "kv_mark state now rc =
     rc\<lparr>r_state := state,
       r_last_status := Some (kv_sandbox_status (r_name rc) (r_instance_id rc) state now)\<rparr>"

text \<open>The guarded update and its broadcast, as Stop and Delete end.\<close>

definition kv_mark_same ::
  "'w kv_env \<Rightarrow> srecord \<Rightarrow> bytestr \<Rightarrow> 'b \<Rightarrow> ('w sys, grpc_status + 'b) prog" where
  "kv_mark_same env rc state answer =
     act (with_now (ke_runtime env)
            (\<lambda>now. update_if (r_sandbox_id rc) (\<lambda>c. r_instance_id c = r_instance_id rc) (kv_mark state now)))
       (\<lambda>(updated, ok).
          if ok then act (on_reg (unit_op (broadcast_sandbox updated))) (\<lambda>_. Ret (Inr answer))
          else Ret (Inr answer))"

definition kv_stop_sandbox :: "'w kv_env \<Rightarrow> sandbox_ref \<Rightarrow> ('w sys, grpc_status + unit) prog" where
  "kv_stop_sandbox env req =
     call (kv_resolve env (ref_id req) (ref_name req)) (\<lambda>r.
       case r of
         Inl st \<Rightarrow> Ret (Inl st)
       | Inr rc \<Rightarrow>
           act (on_world (ke_stop env (r_instance_id rc))) (\<lambda>err.
             case err of
               Some e \<Rightarrow> kv_fail env e
             | None \<Rightarrow> kv_mark_same env rc ''stopping'' ()))"

definition kv_delete_requested :: "time \<Rightarrow> srecord \<Rightarrow> srecord" where
  "kv_delete_requested now rc =
     rc\<lparr>r_state := ''delete-requested'',
       r_last_status := Some (kv_sandbox_status (r_name rc) [] ''deleting'' now)\<rparr>"

definition kv_skip_deletion :: "bytestr \<Rightarrow> bytestr \<Rightarrow> srecord \<Rightarrow> bool" where
  "kv_skip_deletion i nm rc \<longleftrightarrow>
     r_instance_id rc \<noteq> [] \<or> (i \<noteq> [] \<and> r_sandbox_id rc \<noteq> i) \<or> (nm \<noteq> [] \<and> r_name rc \<noteq> nm)"

text \<open>One record of the loop; \<open>Inl\<close> is its return of true.\<close>

definition kv_mark_one ::
  "'w kv_env \<Rightarrow> bytestr \<Rightarrow> bytestr \<Rightarrow> srecord \<Rightarrow> ('w sys, unit + unit) prog" where
  "kv_mark_one env i nm rc =
     (if kv_skip_deletion i nm rc then Ret (Inr ())
      else
        act (with_now (ke_runtime env)
               (\<lambda>now. update_if (r_sandbox_id rc)
                  (\<lambda>c. r_lease c = r_lease rc \<and> kv_launching c) (kv_delete_requested now)))
          (\<lambda>(updated, ok).
             if ok then act (on_reg (unit_op (broadcast_sandbox updated))) (\<lambda>_. Ret (Inl ()))
             else Ret (Inr ())))"

definition kv_mark_launching_deletion ::
  "'w kv_env \<Rightarrow> bytestr \<Rightarrow> bytestr \<Rightarrow> ('w sys, bool) prog" where
  "kv_mark_launching_deletion env i nm =
     (if (i = []) = (nm = []) then Ret False
      else
        act (with_keys (ke_runtime env) (\<lambda>ks. read_op (all_records ks))) (\<lambda>recs.
          call (for_each recs (\<lambda>rc _. kv_mark_one env i nm rc) ()) (\<lambda>r.
            case r of Inl _ \<Rightarrow> Ret True | Inr _ \<Rightarrow> Ret False)))"

definition kv_delete_sandbox :: "'w kv_env \<Rightarrow> sandbox_ref \<Rightarrow> ('w sys, grpc_status + bool) prog" where
  "kv_delete_sandbox env req =
     call (kv_mark_launching_deletion env (ref_id req) (ref_name req)) (\<lambda>marked.
       if marked then Ret (Inr True)
       else
     call (kv_resolve env (ref_id req) (ref_name req)) (\<lambda>r.
       case r of
         Inl st \<Rightarrow> if status_code st = NotFound then Ret (Inr False) else Ret (Inl st)
       | Inr rc \<Rightarrow>
           act (on_world (ke_terminate env (r_instance_id rc))) (\<lambda>err.
             case err of
               Some e \<Rightarrow> kv_fail env e
             | None \<Rightarrow> kv_mark_same env rc ''deleting'' True)))"

section \<open>WatchSandboxes\<close>

text \<open>
  Line for line the code of the EC2 driver: subscribe, send the snapshot, then forward the
  events until the stream ends or the watcher is disconnected.
\<close>

definition kv_watch_sandboxes ::
  "'w kv_env \<Rightarrow> nat \<Rightarrow> ('w sys, watch_result option) prog" where
  "kv_watch_sandboxes env fuel = watch_sandboxes (ke_runtime env) fuel"

section \<open>The handlers keep the registry's invariant\<close>

lemma kv_closure_ids [simp]:
  "r_sandbox_id (kv_commit i t rc) = r_sandbox_id rc"
  "r_sandbox_id (kv_mark st t rc) = r_sandbox_id rc"
  "r_sandbox_id (kv_adopt x rc) = r_sandbox_id rc"
  "r_sandbox_id (kv_delete_requested t rc) = r_sandbox_id rc"
  by (simp_all add: kv_commit_def kv_mark_def kv_adopt_def kv_delete_requested_def)

lemma kv_fail_preserves [inv_intro]: "preserves (in_reg I) (kv_fail env e)"
  unfolding kv_fail_def by (intro inv_intro)

lemma kv_validate_preserves [inv_intro]: "preserves (in_reg I) (kv_validate env sbo)"
  unfolding kv_validate_def by (intro inv_intro)

lemma kv_create_preserves [inv_intro]: "preserves (in_reg core_inv) (kv_create_sandbox env sbo)"
  unfolding kv_create_sandbox_def kv_create_reserved_def kv_commit_launch_def
  by (intro inv_intro kv_closure_ids) assumption+

lemma kv_resolve_preserves [inv_intro]: "preserves (in_reg core_inv) (kv_resolve env i nm)"
  unfolding kv_resolve_def kv_resolve_remote_def kv_resolve_adopt_def
  by (intro inv_intro kv_closure_ids) assumption+

lemma kv_get_preserves [inv_intro]: "preserves (in_reg core_inv) (kv_get_sandbox env req)"
  unfolding kv_get_sandbox_def by (intro inv_intro)

lemma kv_list_preserves [inv_intro]: "preserves (in_reg core_inv) (kv_list_sandboxes env)"
  unfolding kv_list_sandboxes_def by (intro inv_intro)

lemma kv_watch_preserves [inv_intro]:
  "preserves I (watch_sandboxes (ke_runtime env) fuel) \<Longrightarrow> preserves I (kv_watch_sandboxes env fuel)"
  by (simp add: kv_watch_sandboxes_def)

lemma kv_mark_same_preserves [inv_intro]:
  "preserves (in_reg core_inv) (kv_mark_same env rc st answer)"
  unfolding kv_mark_same_def by (intro inv_intro kv_closure_ids) assumption+

lemma kv_stop_preserves [inv_intro]: "preserves (in_reg core_inv) (kv_stop_sandbox env req)"
  unfolding kv_stop_sandbox_def by (intro inv_intro)

lemma kv_mark_launching_preserves [inv_intro]:
  "preserves (in_reg core_inv) (kv_mark_launching_deletion env i nm)"
  unfolding kv_mark_launching_deletion_def kv_mark_one_def
  by (intro inv_intro kv_closure_ids) assumption+

lemma kv_delete_preserves [inv_intro]: "preserves (in_reg core_inv) (kv_delete_sandbox env req)"
  unfolding kv_delete_sandbox_def by (intro inv_intro)

end
