(* ===== verification/Ec2Watcher.thy ===== *)
theory Ec2Watcher
  imports Ec2Driver
begin

text \<open>
  drivers/ec2/watcher.go: the reconciliation. A poll lists the gateway's instances,
  groups them by sandbox, keeps the oldest of each group and terminates the others,
  brings the record of every listed sandbox up to date, counts the polls a tracked
  sandbox is missing from, and asks for the termination of the expired ones. The three
  loops are separate definitions, composed as in the code.
\<close>

definition missing_poll_threshold :: int where
  "missing_poll_threshold = 3"

text \<open>\<open>bySandbox\<close>: the listed instances of each sandbox, in the order of the listing.\<close>

definition add_to_group :: "ec2_inst \<Rightarrow> (bytestr \<times> ec2_inst list) list \<Rightarrow> (bytestr \<times> ec2_inst list) list" where
  "add_to_group i m =
     (if i_sandbox_id i = [] then m
      else AList.update (i_sandbox_id i)
             ((case map_of m (i_sandbox_id i) of None \<Rightarrow> [] | Some is \<Rightarrow> is) @ [i]) m)"

definition by_sandbox :: "ec2_inst list \<Rightarrow> (bytestr \<times> ec2_inst list) list" where
  "by_sandbox is = fold add_to_group is []"

definition older :: "ec2_inst \<Rightarrow> ec2_inst \<Rightarrow> bool" where
  "older a b \<longleftrightarrow>
     (if i_created_at a = i_created_at b then str_less (i_id a) (i_id b)
      else i_created_at a < i_created_at b)"

lemma older_weak: "strict_weak older (\<lambda>_. True)"
proof -
  have "\<not> older b a" if "older a b" for a b
    using that str_less_asym [of "i_id a" "i_id b"] by (auto simp: older_def split: if_splits)
  moreover have "\<not> older c a" if "\<not> older b a" "\<not> older c b" for a b c
  proof
    assume ca: "older c a"
    have "i_created_at a \<le> i_created_at b" "i_created_at b \<le> i_created_at c"
      using that by (auto simp: older_def split: if_splits)
    with ca have eq: "i_created_at a = i_created_at b" "i_created_at b = i_created_at c"
      by (auto simp: older_def split: if_splits)
    with that ca have "\<not> str_less (i_id b) (i_id a)" "\<not> str_less (i_id c) (i_id b)"
      "str_less (i_id c) (i_id a)" by (simp_all add: older_def)
    then show False
      using str_less_total [of "i_id a" "i_id b"] str_less_total [of "i_id b" "i_id c"]
        str_less_trans [of "i_id c" "i_id a" "i_id b"] str_less_trans [of "i_id a" "i_id b" "i_id c"]
        str_less_asym [of "i_id c" "i_id a"] by metis
  qed
  ultimately show ?thesis unfolding strict_weak_def by blast
qed

locale instance_sorter = slice_sort srt older "\<lambda>_. True"
  for srt :: "(ec2_inst \<Rightarrow> ec2_inst \<Rightarrow> bool) \<Rightarrow> ec2_inst list \<Rightarrow> ec2_inst list"

interpretation ins_inst: instance_sorter insertion_sort
  unfolding instance_sorter_def by (rule insertion_sort_lawful [OF older_weak])

section \<open>One listed sandbox\<close>

text \<open>An unknown or future creation time counts as expired: \<open>now - maxAge - 1s\<close>.\<close>

definition fail_closed_created_at :: "ec2_config \<Rightarrow> time \<Rightarrow> time" where
  "fail_closed_created_at c now = now + wrap64 (wrap64 (- e_max_instance_age c) - second)"

definition ec2_trust_created_at ::
  "'w ec2_env \<Rightarrow> time \<Rightarrow> (time \<Rightarrow> ('w sys, 'a) prog) \<Rightarrow> ('w sys, 'a) prog" where
  "ec2_trust_created_at env created k =
     (let rt = ee_runtime env; fail = now_of rt (\<lambda>now. k (fail_closed_created_at (ee_config env) now))
      in if is_zero created then fail
         else now_of rt (\<lambda>now. if created > now + 5 * minute then fail else k created))"

definition ec2_recover :: "'w ec2_env \<Rightarrow> bytestr \<Rightarrow> ec2_inst \<Rightarrow> ('w sys, goerr + unit) prog" where
  "ec2_recover env i inst =
     now_of (ee_runtime env) (\<lambda>now.
       let recovered0 = ec2_record_from_instance now inst
       in ec2_trust_created_at env (r_created_at recovered0) (\<lambda>created.
            let recovered = recovered0\<lparr>r_created_at := created\<rparr>
            in act (on_reg (add_record (Some recovered))) (\<lambda>err.
                 case err of
                   Some e \<Rightarrow> Ret (Inl (ErrWrap ''track recovered sandbox %s: %w'' [AStr i] e))
                 | None \<Rightarrow>
                     act (on_reg (unit_op (broadcast_sandbox recovered))) (\<lambda>_. Ret (Inr ())))))"

text \<open>The closure of the update: the listed state, with the transition's time if it changed.\<close>

definition ec2_refresh :: "ec2_inst \<Rightarrow> time \<Rightarrow> srecord \<Rightarrow> srecord" where
  "ec2_refresh inst transition rc =
     (let r1 = rc\<lparr>r_instance_id := i_id inst, r_missing_polls := 0\<rparr>;
          r2 = (if is_zero (r_created_at r1) then r1\<lparr>r_created_at := i_created_at inst\<rparr> else r1)
      in if r_state r2 \<noteq> i_state inst
         then r2\<lparr>r_state := i_state inst,
                r_last_status := Some (ec2_sandbox_status (r_name r2) (r_instance_id r2)
                  (i_state inst) transition)\<rparr>
         else r2)"

definition ec2_reconcile :: "'w ec2_env \<Rightarrow> bytestr \<Rightarrow> ec2_inst \<Rightarrow> ('w sys, goerr + unit) prog" where
  "ec2_reconcile env i inst =
     (if i_state inst = ''terminated'' then
        act (on_reg (delete_record i)) (\<lambda>(_, ok).
          if ok then act (on_reg (unit_op (broadcast_deleted i))) (\<lambda>_. Ret (Inr ()))
          else Ret (Inr ()))
      else
        act (on_reg (read_op (get_record i))) (\<lambda>(rc, ok).
          if \<not> ok then ec2_recover env i inst
          else if r_state rc \<noteq> i_state inst \<or> r_instance_id rc \<noteq> i_id inst \<or> r_missing_polls rc \<noteq> 0
          then
            now_of (ee_runtime env) (\<lambda>transition.
              act (on_reg (update_record i (ec2_refresh inst transition))) (\<lambda>(updated, _).
                if r_state rc \<noteq> i_state inst
                then act (on_reg (unit_op (broadcast_sandbox updated))) (\<lambda>_. Ret (Inr ()))
                else Ret (Inr ())))
          else Ret (Inr ())))"

text \<open>
  The body of the first loop. \<open>matches\<close> is nonempty; indexing an empty slice would
  panic.
\<close>

definition ec2_poll_sandbox ::
  "'w ec2_env \<Rightarrow> bytestr \<Rightarrow> ec2_inst list \<Rightarrow> ('w sys, goerr + unit) prog" where
  "ec2_poll_sandbox env i matches0 =
     (case ee_sort_instances env older matches0 of
        [] \<Rightarrow> Ret (Inl (ErrNew ''panic: index out of range''))
      | inst # duplicates \<Rightarrow>
          if duplicates \<noteq> [] then
            act (on_world (ee_terminate env
                   (map i_id (filter (\<lambda>d. i_state d \<noteq> ''terminated'') duplicates)))) (\<lambda>err.
              case err of
                Some e \<Rightarrow>
                  Ret (Inl (ErrWrap ''terminate duplicate instances for sandbox %s: %w'' [AStr i] e))
              | None \<Rightarrow> ec2_reconcile env i inst)
          else ec2_reconcile env i inst)"

section \<open>The poll\<close>

definition ec2_missing_one :: "bytestr list \<Rightarrow> srecord \<Rightarrow> ('w sys, goerr + unit) prog" where
  "ec2_missing_one seen rc =
     (if r_instance_id rc = [] then Ret (Inr ())
      else if r_sandbox_id rc \<in> set seen then Ret (Inr ())
      else
        act (on_reg (update_record (r_sandbox_id rc)
               (\<lambda>r. r\<lparr>r_missing_polls := wrap64 (r_missing_polls r + 1)\<rparr>))) (\<lambda>(updated, ok).
          if ok \<and> r_missing_polls updated \<ge> missing_poll_threshold
          then
            act (on_reg (delete_record (r_sandbox_id rc))) (\<lambda>_.
            act (on_reg (unit_op (broadcast_deleted (r_sandbox_id rc)))) (\<lambda>_. Ret (Inr ())))
          else Ret (Inr ())))"

definition ec2_poll_missing :: "'w ec2_env \<Rightarrow> bytestr list \<Rightarrow> ('w sys, goerr + unit) prog" where
  "ec2_poll_missing env seen =
     act (with_keys (ee_runtime env) (\<lambda>ks. read_op (all_records ks))) (\<lambda>recs.
       for_each recs (\<lambda>rc _. ec2_missing_one seen rc) ())"

definition ec2_expire_one :: "'w ec2_env \<Rightarrow> srecord \<Rightarrow> ('w sys, goerr + unit) prog" where
  "ec2_expire_one env rc =
     (if r_instance_id rc = [] \<or> r_state rc = ''shutting-down'' then Ret (Inr ())
      else
        act (on_world (ee_terminate env [r_instance_id rc])) (\<lambda>err.
          case err of
            Some _ \<Rightarrow> Ret (Inr ())
          | None \<Rightarrow>
              act (with_now (ee_runtime env)
                     (\<lambda>t. update_record (r_sandbox_id rc) (ec2_mark ''shutting-down'' t)))
                (\<lambda>(updated, _).
                   act (on_reg (unit_op (broadcast_sandbox updated))) (\<lambda>_. Ret (Inr ())))))"

definition ec2_poll_expired :: "'w ec2_env \<Rightarrow> ('w sys, goerr + unit) prog" where
  "ec2_poll_expired env =
     now_of (ee_runtime env) (\<lambda>now.
     act (with_keys (ee_runtime env) (\<lambda>ks. read_op (expired_records now ks))) (\<lambda>recs.
       for_each recs (\<lambda>rc _. ec2_expire_one env rc) ()))"

definition ec2_poll_listed ::
  "'w ec2_env \<Rightarrow> (bytestr \<times> ec2_inst list) list \<Rightarrow> ('w sys, goerr + bytestr list) prog" where
  "ec2_poll_listed env groups =
     order_of (ee_runtime env) (map_keys groups) (\<lambda>ks.
       for_each ks
         (\<lambda>i seen.
            case map_of groups i of
              None \<Rightarrow> Ret (Inr seen)
            | Some matches \<Rightarrow>
                call (ec2_poll_sandbox env i matches) (\<lambda>r.
                  case r of Inl e \<Rightarrow> Ret (Inl e) | Inr _ \<Rightarrow> Ret (Inr (i # seen)))) [])"

definition ec2_poll :: "'w ec2_env \<Rightarrow> ('w sys, goerr option) prog" where
  "ec2_poll env =
     act (on_world (ee_list env \<lparr>if_gateway_id = e_gateway_id (ee_config env),
            if_sandbox_id = [], if_name = []\<rparr>)) (\<lambda>listed.
       case listed of
         Inl e \<Rightarrow> Ret (Some e)
       | Inr instances \<Rightarrow>
           call (ec2_poll_listed env (by_sandbox instances)) (\<lambda>r.
             case r of
               Inl e \<Rightarrow> Ret (Some e)
             | Inr seen \<Rightarrow>
                 call (ec2_poll_missing env seen) (\<lambda>r2.
                   case r2 of
                     Inl e \<Rightarrow> Ret (Some e)
                   | Inr _ \<Rightarrow>
                       call (ec2_poll_expired env) (\<lambda>r3.
                         case r3 of Inl e \<Rightarrow> Ret (Some e) | Inr _ \<Rightarrow> Ret None))))"

definition ec2_initialize :: "'w ec2_env \<Rightarrow> ('w sys, goerr option) prog" where
  "ec2_initialize env = ec2_poll env"

text \<open>
  StartWatcher, for \<open>fuel\<close> ticks: \<open>None\<close> while it is still watching, otherwise its
  answer, which is always nil. A failed poll only counts.
\<close>

primrec ec2_start_watcher :: "'w ec2_env \<Rightarrow> nat \<Rightarrow> int \<Rightarrow> ('w sys, goerr option option) prog" where
  "ec2_start_watcher env 0 failures = Ret None"
| "ec2_start_watcher env (Suc fuel) failures =
     act (on_world (rt_done (ee_runtime env))) (\<lambda>done.
       case done of
         Some _ \<Rightarrow> Ret (Some None)
       | None \<Rightarrow>
           call (ec2_poll env) (\<lambda>err.
             case err of
               Some _ \<Rightarrow> ec2_start_watcher env fuel (wrap64 (failures + 1))
             | None \<Rightarrow> ec2_start_watcher env fuel 0))"

text \<open>The per-poll deadline of the watcher.\<close>

definition poll_timeout :: "duration \<Rightarrow> duration" where
  "poll_timeout interval = (if interval < 5 * second then 5 * second else interval)"

section \<open>A poll keeps the registry's invariant\<close>

lemma ec2_refresh_id [simp]: "r_sandbox_id (ec2_refresh inst t rc) = r_sandbox_id rc"
  by (simp add: ec2_refresh_def Let_def)

lemma missing_id: "r_sandbox_id (r\<lparr>r_missing_polls := n\<rparr>) = r_sandbox_id r"
  by simp

lemma ec2_trust_preserves [inv_intro]:
  "(\<And>t. preserves (in_reg I) (k t)) \<Longrightarrow> preserves (in_reg I) (ec2_trust_created_at env c k)"
  unfolding ec2_trust_created_at_def Let_def by (intro inv_intro)

lemma ec2_recover_preserves [inv_intro]: "preserves (in_reg core_inv) (ec2_recover env i inst)"
  unfolding ec2_recover_def by (intro inv_intro) assumption+

lemma ec2_reconcile_preserves [inv_intro]: "preserves (in_reg core_inv) (ec2_reconcile env i inst)"
  unfolding ec2_reconcile_def by (intro inv_intro ec2_refresh_id) assumption+

lemma ec2_poll_sandbox_preserves [inv_intro]: "preserves (in_reg core_inv) (ec2_poll_sandbox env i ms)"
  unfolding ec2_poll_sandbox_def by (intro inv_intro)

lemma ec2_poll_missing_preserves [inv_intro]: "preserves (in_reg core_inv) (ec2_poll_missing env seen)"
  unfolding ec2_poll_missing_def ec2_missing_one_def by (intro inv_intro missing_id) assumption+

lemma ec2_poll_expired_preserves [inv_intro]: "preserves (in_reg core_inv) (ec2_poll_expired env)"
  unfolding ec2_poll_expired_def ec2_expire_one_def by (intro inv_intro ec2_mark_id) assumption+

lemma ec2_poll_listed_preserves [inv_intro]: "preserves (in_reg core_inv) (ec2_poll_listed env groups)"
  unfolding ec2_poll_listed_def by (intro inv_intro)

lemma ec2_poll_preserves [inv_intro]: "preserves (in_reg core_inv) (ec2_poll env)"
  unfolding ec2_poll_def by (intro inv_intro)

lemma ec2_start_watcher_preserves [inv_intro]:
  "preserves (in_reg core_inv) (ec2_start_watcher env fuel failures)"
  by (induction fuel arbitrary: failures) (auto intro!: inv_intro)

end
