(* ===== verification/KvWatcher.thy ===== *)
theory KvWatcher
  imports KvDriver Ec2Watcher
begin

text \<open>
  drivers/kubevirt/watcher.go: the reconciliation. A poll keeps, of each sandbox's live
  machines, the oldest one that has not finished (else the oldest) and terminates the
  others; every update is guarded by the lease and the machine of the record it was
  decided on; a sandbox missing from three polls leaves the registry only after an
  idempotent termination confirmed the cleanup. A failed poll backs off.
\<close>

definition kv_missing_poll_threshold :: int where
  "kv_missing_poll_threshold = 3"

section \<open>The machines of one sandbox\<close>

definition vm_add_to_group :: "vm_inst \<Rightarrow> (bytestr \<times> vm_inst list) list \<Rightarrow> (bytestr \<times> vm_inst list) list" where
  "vm_add_to_group i m =
     (if v_sandbox_id i = [] then m
      else AList.update (v_sandbox_id i)
             ((case map_of m (v_sandbox_id i) of None \<Rightarrow> [] | Some is \<Rightarrow> is) @ [i]) m)"

definition vm_by_sandbox :: "vm_inst list \<Rightarrow> (bytestr \<times> vm_inst list) list" where
  "vm_by_sandbox is = fold vm_add_to_group is []"

definition vm_older :: "vm_inst \<Rightarrow> vm_inst \<Rightarrow> bool" where
  "vm_older a b \<longleftrightarrow>
     (if v_created_at a = v_created_at b then str_less (v_vm_name a) (v_vm_name b)
      else v_created_at a < v_created_at b)"

lemma vm_older_weak: "strict_weak vm_older (\<lambda>_. True)"
proof -
  have "\<not> vm_older b a" if "vm_older a b" for a b
    using that str_less_asym [of "v_vm_name a" "v_vm_name b"] by (auto simp: vm_older_def split: if_splits)
  moreover have "\<not> vm_older c a" if "\<not> vm_older b a" "\<not> vm_older c b" for a b c
  proof
    assume ca: "vm_older c a"
    have "v_created_at a \<le> v_created_at b" "v_created_at b \<le> v_created_at c"
      using that by (auto simp: vm_older_def split: if_splits)
    with ca have eq: "v_created_at a = v_created_at b" "v_created_at b = v_created_at c"
      by (auto simp: vm_older_def split: if_splits)
    with that ca have "\<not> str_less (v_vm_name b) (v_vm_name a)" "\<not> str_less (v_vm_name c) (v_vm_name b)"
      "str_less (v_vm_name c) (v_vm_name a)" by (simp_all add: vm_older_def)
    then show False
      using str_less_total [of "v_vm_name a" "v_vm_name b"] str_less_total [of "v_vm_name b" "v_vm_name c"]
        str_less_trans [of "v_vm_name c" "v_vm_name a" "v_vm_name b"]
        str_less_trans [of "v_vm_name a" "v_vm_name b" "v_vm_name c"]
        str_less_asym [of "v_vm_name c" "v_vm_name a"] by metis
  qed
  ultimately show ?thesis unfolding strict_weak_def by blast
qed

locale vm_sorter = slice_sort srt vm_older "\<lambda>_. True"
  for srt :: "(vm_inst \<Rightarrow> vm_inst \<Rightarrow> bool) \<Rightarrow> vm_inst list \<Rightarrow> vm_inst list"

interpretation ins_vm: vm_sorter insertion_sort
  unfolding vm_sorter_def by (rule insertion_sort_lawful [OF vm_older_weak])

definition vm_finished :: "vm_inst \<Rightarrow> bool" where
  "vm_finished i \<longleftrightarrow> v_state i = ''Succeeded'' \<or> v_state i = ''Failed''"

text \<open>The keeper's index: the first machine that has not finished, else 0.\<close>

definition keeper_index :: "vm_inst list \<Rightarrow> nat" where
  "keeper_index live =
     (let k = length (takeWhile vm_finished live) in if k < length live then k else 0)"

definition vm_live :: "'w kv_env \<Rightarrow> vm_inst list \<Rightarrow> vm_inst list" where
  "vm_live env matches = filter (\<lambda>c. \<not> is_terminal_state (v_state c)) (ke_sort_vms env vm_older matches)"

definition duplicate_names :: "vm_inst list \<Rightarrow> bytestr list" where
  "duplicate_names live =
     map v_vm_name (take (keeper_index live) live @ drop (Suc (keeper_index live)) live)"

definition kv_terminate_all :: "'w kv_env \<Rightarrow> bytestr \<Rightarrow> bytestr list \<Rightarrow> ('w sys, goerr + unit) prog" where
  "kv_terminate_all env i names =
     for_each names
       (\<lambda>n _. act (on_world (ke_terminate env n)) (\<lambda>err.
          case err of
            Some e \<Rightarrow>
              Ret (Inl (ErrWrap ''terminate duplicate VM %s for sandbox %s: %w'' [AStr n, AStr i] e))
          | None \<Rightarrow> Ret (Inr ()))) ()"

section \<open>One listed sandbox\<close>

definition kv_fail_closed_created_at :: "kv_config \<Rightarrow> time \<Rightarrow> time" where
  "kv_fail_closed_created_at c now = now + wrap64 (wrap64 (- k_max_instance_age c) - second)"

definition kv_trust_created_at ::
  "'w kv_env \<Rightarrow> time \<Rightarrow> (time \<Rightarrow> ('w sys, 'a) prog) \<Rightarrow> ('w sys, 'a) prog" where
  "kv_trust_created_at env created k =
     (let rt = ke_runtime env;
          fail = now_of rt (\<lambda>now. k (kv_fail_closed_created_at (ke_config env) now))
      in if is_zero created then fail
         else now_of rt (\<lambda>now. if created > now + 5 * minute then fail else k created))"

definition kv_recover :: "'w kv_env \<Rightarrow> bytestr \<Rightarrow> vm_inst \<Rightarrow> ('w sys, goerr + unit) prog" where
  "kv_recover env i inst =
     now_of (ke_runtime env) (\<lambda>now.
       let recovered0 = kv_record_from_instance now inst
       in kv_trust_created_at env (r_created_at recovered0) (\<lambda>created.
            let recovered = recovered0\<lparr>r_created_at := created\<rparr>
            in act (on_reg (add_record (Some recovered))) (\<lambda>err.
                 case err of
                   Some e \<Rightarrow> Ret (Inl (ErrWrap ''track recovered sandbox %s: %w'' [AStr i] e))
                 | None \<Rightarrow>
                     act (on_reg (unit_op (broadcast_sandbox recovered))) (\<lambda>_. Ret (Inr ())))))"

text \<open>A requested stop or deletion is shown until the machine leaves Running.\<close>

definition observed_state :: "srecord \<Rightarrow> vm_inst \<Rightarrow> bytestr" where
  "observed_state rc inst =
     (if (r_state rc = ''deleting'' \<or> r_state rc = ''stopping'') \<and> v_state inst = ''Running''
      then r_state rc else v_state inst)"

definition kv_refresh :: "vm_inst \<Rightarrow> bytestr \<Rightarrow> time \<Rightarrow> srecord \<Rightarrow> srecord" where
  "kv_refresh inst observed transition rc =
     (let r1 = rc\<lparr>r_instance_id := v_vm_name inst, r_missing_polls := 0\<rparr>;
          r2 = (if is_zero (r_created_at r1) then r1\<lparr>r_created_at := v_created_at inst\<rparr> else r1)
      in if r_state r2 \<noteq> observed
         then r2\<lparr>r_state := observed,
                r_last_status := Some (kv_sandbox_status (r_name r2) (r_instance_id r2) observed transition)\<rparr>
         else r2)"

definition kv_same_generation :: "srecord \<Rightarrow> srecord \<Rightarrow> bool" where
  "kv_same_generation rc current \<longleftrightarrow>
     r_lease current = r_lease rc \<and> (r_instance_id current = [] \<or> r_instance_id current = r_instance_id rc)"

definition kv_reconcile :: "'w kv_env \<Rightarrow> bytestr \<Rightarrow> vm_inst \<Rightarrow> ('w sys, goerr + unit) prog" where
  "kv_reconcile env i inst =
     (if is_terminal_state (v_state inst) then
        act (on_reg (delete_if i (\<lambda>c. r_instance_id c = v_vm_name inst))) (\<lambda>(_, ok).
          if ok then act (on_reg (unit_op (broadcast_deleted i))) (\<lambda>_. Ret (Inr ()))
          else Ret (Inr ()))
      else
        act (on_reg (read_op (get_record i))) (\<lambda>(rc, ok).
          if \<not> ok then kv_recover env i inst
          else
            let observed = observed_state rc inst
            in if r_state rc \<noteq> observed \<or> r_instance_id rc \<noteq> v_vm_name inst \<or> r_missing_polls rc \<noteq> 0
               then
                 now_of (ke_runtime env) (\<lambda>transition.
                   act (on_reg (update_if i (kv_same_generation rc) (kv_refresh inst observed transition)))
                     (\<lambda>(updated, ok2).
                        if ok2 \<and> r_state rc \<noteq> observed
                        then act (on_reg (unit_op (broadcast_sandbox updated))) (\<lambda>_. Ret (Inr ()))
                        else Ret (Inr ())))
               else Ret (Inr ())))"

text \<open>
  The body of the first loop: whether the sandbox counts as seen. It does not when all its
  machines are gone.
\<close>

definition kv_poll_sandbox ::
  "'w kv_env \<Rightarrow> bytestr \<Rightarrow> vm_inst list \<Rightarrow> ('w sys, goerr + bool) prog" where
  "kv_poll_sandbox env i matches =
     (let live = vm_live env matches
      in if live = [] then Ret (Inr False)
         else
           call (if length live > 1 then kv_terminate_all env i (duplicate_names live) else Ret (Inr ()))
             (\<lambda>r. case r of
                Inl e \<Rightarrow> Ret (Inl e)
              | Inr _ \<Rightarrow>
                  call (kv_reconcile env i (live ! keeper_index live)) (\<lambda>r2.
                    case r2 of Inl e \<Rightarrow> Ret (Inl e) | Inr _ \<Rightarrow> Ret (Inr True))))"

definition kv_poll_listed ::
  "'w kv_env \<Rightarrow> (bytestr \<times> vm_inst list) list \<Rightarrow> ('w sys, goerr + bytestr list) prog" where
  "kv_poll_listed env groups =
     order_of (ke_runtime env) (map_keys groups) (\<lambda>ks.
       for_each ks
         (\<lambda>i seen.
            case map_of groups i of
              None \<Rightarrow> Ret (Inr seen)
            | Some matches \<Rightarrow>
                call (kv_poll_sandbox env i matches) (\<lambda>r.
                  case r of
                    Inl e \<Rightarrow> Ret (Inl e)
                  | Inr b \<Rightarrow> Ret (Inr (if b then i # seen else seen)))) [])"

section \<open>Missing and expired sandboxes\<close>

definition kv_same_machine :: "srecord \<Rightarrow> srecord \<Rightarrow> bool" where
  "kv_same_machine rc current \<longleftrightarrow>
     r_lease current = r_lease rc \<and> r_instance_id current = r_instance_id rc"

definition kv_missing_one :: "'w kv_env \<Rightarrow> bytestr list \<Rightarrow> srecord \<Rightarrow> ('w sys, goerr + unit) prog" where
  "kv_missing_one env seen rc =
     (if r_instance_id rc = [] then Ret (Inr ())
      else if r_sandbox_id rc \<in> set seen then Ret (Inr ())
      else
        act (on_reg (update_if (r_sandbox_id rc) (kv_same_machine rc)
               (\<lambda>r. r\<lparr>r_missing_polls := wrap64 (r_missing_polls r + 1)\<rparr>))) (\<lambda>(updated, ok).
          if ok \<and> r_missing_polls updated \<ge> kv_missing_poll_threshold
          then
            act (on_world (ke_terminate env (r_instance_id updated))) (\<lambda>err.
              case err of
                Some _ \<Rightarrow> Ret (Inr ())
              | None \<Rightarrow>
                  act (on_reg (delete_if (r_sandbox_id rc)
                         (\<lambda>c. kv_same_machine updated c \<and> r_missing_polls c \<ge> kv_missing_poll_threshold)))
                    (\<lambda>(_, deleted).
                       if deleted
                       then act (on_reg (unit_op (broadcast_deleted (r_sandbox_id rc)))) (\<lambda>_. Ret (Inr ()))
                       else Ret (Inr ())))
          else Ret (Inr ())))"

definition kv_poll_missing :: "'w kv_env \<Rightarrow> bytestr list \<Rightarrow> ('w sys, goerr + unit) prog" where
  "kv_poll_missing env seen =
     act (with_keys (ke_runtime env) (\<lambda>ks. read_op (all_records ks))) (\<lambda>recs.
       for_each recs (\<lambda>rc _. kv_missing_one env seen rc) ())"

definition kv_expire_one :: "'w kv_env \<Rightarrow> srecord \<Rightarrow> ('w sys, goerr + unit) prog" where
  "kv_expire_one env rc =
     (if r_instance_id rc = [] \<or> r_state rc = ''deleting'' then Ret (Inr ())
      else
        act (on_world (ke_terminate env (r_instance_id rc))) (\<lambda>err.
          case err of
            Some _ \<Rightarrow> Ret (Inr ())
          | None \<Rightarrow>
              act (with_now (ke_runtime env)
                     (\<lambda>t. update_if (r_sandbox_id rc) (kv_same_machine rc) (kv_mark ''deleting'' t)))
                (\<lambda>(updated, ok).
                   if ok then act (on_reg (unit_op (broadcast_sandbox updated))) (\<lambda>_. Ret (Inr ()))
                   else Ret (Inr ()))))"

definition kv_poll_expired :: "'w kv_env \<Rightarrow> ('w sys, goerr + unit) prog" where
  "kv_poll_expired env =
     now_of (ke_runtime env) (\<lambda>now.
     act (with_keys (ke_runtime env) (\<lambda>ks. read_op (expired_records now ks))) (\<lambda>recs.
       for_each recs (\<lambda>rc _. kv_expire_one env rc) ()))"

section \<open>The poll and the watcher\<close>

definition kv_poll :: "'w kv_env \<Rightarrow> ('w sys, goerr option) prog" where
  "kv_poll env =
     act (on_world (ke_list env \<lparr>vf_gateway_id = k_gateway_id (ke_config env),
            vf_sandbox_id = [], vf_name = []\<rparr>)) (\<lambda>listed.
       case listed of
         Inl e \<Rightarrow> Ret (Some e)
       | Inr instances \<Rightarrow>
           call (kv_poll_listed env (vm_by_sandbox instances)) (\<lambda>r.
             case r of
               Inl e \<Rightarrow> Ret (Some e)
             | Inr seen \<Rightarrow>
                 call (kv_poll_missing env seen) (\<lambda>r2.
                   case r2 of
                     Inl e \<Rightarrow> Ret (Some e)
                   | Inr _ \<Rightarrow>
                       call (kv_poll_expired env) (\<lambda>r3.
                         case r3 of Inl e \<Rightarrow> Ret (Some e) | Inr _ \<Rightarrow> Ret None))))"

definition kv_initialize :: "'w kv_env \<Rightarrow> ('w sys, goerr option) prog" where
  "kv_initialize env =
     act (on_world (ke_check_ready env)) (\<lambda>err.
       case err of
         Some e \<Rightarrow> Ret (Some (ErrWrap ''kubevirt prerequisites: %w'' [] e))
       | None \<Rightarrow> kv_poll env)"

text \<open>The delay after \<open>failures\<close> failed polls in a row, before the jitter.\<close>

definition backoff_delay :: "duration \<Rightarrow> int \<Rightarrow> duration" where
  "backoff_delay interval failures =
     min (wrap64 (interval * 2 ^ nat (min failures 6))) minute"

definition jitter_bound :: "duration \<Rightarrow> int" where
  "jitter_bound delay = max (delay div 4) 1"

text \<open>
  StartWatcher, for \<open>fuel\<close> firings of its timer: \<open>None\<close> while it is still
  watching, otherwise its answer, which is always nil.
\<close>

primrec kv_start_watcher :: "'w kv_env \<Rightarrow> nat \<Rightarrow> int \<Rightarrow> ('w sys, goerr option option) prog" where
  "kv_start_watcher env 0 failures = Ret None"
| "kv_start_watcher env (Suc fuel) failures =
     act (on_world (rt_done (ke_runtime env))) (\<lambda>done.
       case done of
         Some _ \<Rightarrow> Ret (Some None)
       | None \<Rightarrow>
           call (kv_poll env) (\<lambda>err.
             case err of
               Some _ \<Rightarrow>
                 let n = wrap64 (failures + 1);
                     delay = backoff_delay (k_poll_interval (ke_config env)) n
                 in act (on_world (ke_rand env (jitter_bound delay))) (\<lambda>jitter.
                    act (on_world (ke_reset_timer env (wrap64 (delay + jitter)))) (\<lambda>_.
                      kv_start_watcher env fuel n))
             | None \<Rightarrow>
                 act (on_world (ke_reset_timer env (k_poll_interval (ke_config env)))) (\<lambda>_.
                   kv_start_watcher env fuel 0)))"

section \<open>A poll keeps the registry's invariant\<close>

lemma kv_refresh_id [simp]: "r_sandbox_id (kv_refresh inst ob t rc) = r_sandbox_id rc"
  by (simp add: kv_refresh_def Let_def)

lemma kv_trust_preserves [inv_intro]:
  "(\<And>t. preserves (in_reg I) (k t)) \<Longrightarrow> preserves (in_reg I) (kv_trust_created_at env c k)"
  unfolding kv_trust_created_at_def Let_def by (intro inv_intro)

lemma kv_recover_preserves [inv_intro]: "preserves (in_reg core_inv) (kv_recover env i inst)"
  unfolding kv_recover_def by (intro inv_intro) assumption+

lemma kv_reconcile_preserves [inv_intro]: "preserves (in_reg core_inv) (kv_reconcile env i inst)"
  unfolding kv_reconcile_def by (intro inv_intro kv_refresh_id) assumption+

lemma kv_terminate_all_preserves [inv_intro]: "preserves (in_reg I) (kv_terminate_all env i ns)"
  unfolding kv_terminate_all_def by (intro inv_intro)

lemma kv_poll_sandbox_preserves [inv_intro]: "preserves (in_reg core_inv) (kv_poll_sandbox env i ms)"
  unfolding kv_poll_sandbox_def by (intro inv_intro)

lemma kv_poll_missing_preserves [inv_intro]: "preserves (in_reg core_inv) (kv_poll_missing env seen)"
  unfolding kv_poll_missing_def kv_missing_one_def by (intro inv_intro missing_id) assumption+

lemma kv_poll_expired_preserves [inv_intro]: "preserves (in_reg core_inv) (kv_poll_expired env)"
  unfolding kv_poll_expired_def kv_expire_one_def by (intro inv_intro kv_closure_ids) assumption+

lemma kv_poll_listed_preserves [inv_intro]: "preserves (in_reg core_inv) (kv_poll_listed env groups)"
  unfolding kv_poll_listed_def by (intro inv_intro)

lemma kv_poll_preserves [inv_intro]: "preserves (in_reg core_inv) (kv_poll env)"
  unfolding kv_poll_def by (intro inv_intro)

lemma kv_initialize_preserves [inv_intro]: "preserves (in_reg core_inv) (kv_initialize env)"
  unfolding kv_initialize_def by (intro inv_intro)

lemma kv_start_watcher_preserves [inv_intro]:
  "preserves (in_reg core_inv) (kv_start_watcher env fuel failures)"
  by (induction fuel arbitrary: failures) (auto intro!: inv_intro simp: Let_def)

end
