(* ===== verification/Passes.thy ===== *)
theory Passes
  imports Sys
begin

text \<open>
  What the reconciliations of both drivers share: an operation on one sandbox leaves the
  records of the others alone, and a pass over a snapshot of the registry treats every
  record once. A pass that ranges over a snapshot and works on one record at a time is
  described by what its body makes of one record.
\<close>

section \<open>Unconditional updates\<close>

lemma update_record_hit:
  "reg_lookup r i = Some rc \<Longrightarrow>
   fst (update_record i fn r) = (clone_record (fn rc), True) \<and>
   reg_lookup (snd (update_record i fn r)) = (reg_lookup r)(i \<mapsto> clone_record (fn rc))"
  unfolding update_record_def by (rule reg.upd_hit) simp_all

lemma update_record_miss:
  "reg_lookup r i = None \<Longrightarrow> update_record i fn r = ((zero_record, False), r)"
  unfolding update_record_def by (rule reg.upd_miss) simp

lemma update_record_lookup:
  "reg_lookup (snd (update_record i fn r)) =
     (case reg_lookup r i of None \<Rightarrow> reg_lookup r
      | Some rc \<Rightarrow> (reg_lookup r)(i \<mapsto> clone_record (fn rc)))"
  using update_record_hit update_record_miss by (auto split: option.split)

section \<open>Records an operation does not name\<close>

text \<open>An operation on one sandbox keeps the record of every other, in any interleaving.\<close>

definition keeps :: "bytestr \<Rightarrow> srecord option \<Rightarrow> registry \<Rightarrow> bool" where
  "keeps k v r \<longleftrightarrow> reg_lookup r k = v"

lemma keeps_update [inv_intro]: "keeps k v r \<Longrightarrow> i \<noteq> k \<Longrightarrow> keeps k v (snd (update_record i fn r))"
  by (auto simp: keeps_def update_record_lookup split: option.split)

lemma keeps_update_if [inv_intro]: "keeps k v r \<Longrightarrow> i \<noteq> k \<Longrightarrow> keeps k v (snd (update_if i p fn r))"
  using reg.upd_other [of k i p fn r] by (simp add: keeps_def)

lemma keeps_delete [inv_intro]: "keeps k v r \<Longrightarrow> i \<noteq> k \<Longrightarrow> keeps k v (snd (delete_record i r))"
  by (simp add: keeps_def)

lemma keeps_delete_if [inv_intro]: "keeps k v r \<Longrightarrow> i \<noteq> k \<Longrightarrow> keeps k v (snd (delete_if i p r))"
  using reg.del_other [of k i p r] by (simp add: keeps_def)

lemma add_lookup:
  "reg_lookup (snd (add_record (Some rc) r)) =
     (if reg_lookup r (r_sandbox_id rc) \<noteq> None then reg_lookup r
      else (reg_lookup r)(r_sandbox_id rc \<mapsto>
        clone_record (if r_lease rc = 0 then rc\<lparr>r_lease := reg_next_lease r + 1\<rparr> else rc)))"
  by (simp add: add_record_def Let_def)

lemma add_error: "fst (add_record (Some rc) r) = None \<longleftrightarrow> reg_lookup r (r_sandbox_id rc) = None"
  by (auto simp: add_record_def Let_def)

lemma keeps_add [inv_intro]: "keeps k v r \<Longrightarrow> r_sandbox_id rc \<noteq> k \<Longrightarrow> keeps k v (snd (add_record (Some rc) r))"
  by (simp add: keeps_def add_lookup)

lemma keeps_ops [inv_intro]:
  "keeps k v r \<Longrightarrow> keeps k v (broadcast ev r)"
  "keeps k v r \<Longrightarrow> keeps k v (broadcast_sandbox rc r)"
  "keeps k v r \<Longrightarrow> keeps k v (broadcast_deleted i r)"
  "keeps k v r \<Longrightarrow> keeps k v (snd (read_op f r))"
  "keeps k v (f r) \<Longrightarrow> keeps k v (snd (unit_op f r))"
  by (simp_all add: keeps_def broadcast_sandbox_def broadcast_deleted_def op_defs)

lemma keeps_run:
  "preserves (in_reg (keeps k (reg_lookup (sy_reg s) k))) p \<Longrightarrow>
   reg_lookup (sy_reg (snd (run p s))) k = reg_lookup (sy_reg s) k"
  using preserves_run [of "in_reg (keeps k (reg_lookup (sy_reg s) k))" p s]
  by (simp add: in_reg_def keeps_def)

section \<open>Grouping\<close>

text \<open>Both polls group what the provider lists by sandbox id, in the order of the listing.\<close>

lemma group_fold:
  fixes key :: "'a \<Rightarrow> bytestr"
  assumes "add = (\<lambda>x m. if key x = [] then m
     else AList.update (key x) ((case map_of m (key x) of None \<Rightarrow> [] | Some l \<Rightarrow> l) @ [x]) m)"
  shows "map_of (fold add xs m) i =
     (let new = filter (\<lambda>x. key x = i \<and> i \<noteq> []) xs
      in if new = [] then map_of m i
         else Some ((case map_of m i of None \<Rightarrow> [] | Some l \<Rightarrow> l) @ new))"
    and "distinct (map fst m) \<Longrightarrow> distinct (map fst (fold add xs m))"
  unfolding assms by (induction xs arbitrary: m) (auto simp: Let_def distinct_update_keys)

section \<open>The snapshot\<close>

text \<open>
  The runtime visits every key of a map once: what the language promises of a range.
\<close>

definition fair_order :: "'w runtime \<Rightarrow> bool" where
  "fair_order rt \<longleftrightarrow> (\<forall>ks w. mset (fst (rt_order rt ks w)) = mset ks)"

lemma fair_order_set: "fair_order rt \<Longrightarrow> set (fst (rt_order rt ks w)) = set ks"
  unfolding fair_order_def by (metis set_mset_mset)

lemma fair_order_distinct: "fair_order rt \<Longrightarrow> distinct ks \<Longrightarrow> distinct (fst (rt_order rt ks w))"
  unfolding fair_order_def by (metis mset_eq_imp_distinct_iff)

text \<open>The snapshot of a well-formed registry: every record once, under its own id.\<close>

lemma reg_lookup_None: "reg_lookup r k = None \<longleftrightarrow> k \<notin> set (map_keys (reg_records r))"
  by (simp add: reg_lookup_def map_keys_def map_of_eq_None_iff)

lemma snapshot_lookup:
  assumes "reg_ok r" and "set ks = set (map_keys (reg_records r))"
  shows "rc \<in> set (all_records ks r) \<longleftrightarrow> reg_lookup r (r_sandbox_id rc) = Some rc"
proof
  assume "rc \<in> set (all_records ks r)"
  then obtain k v where v: "rc = clone_record v" "reg_lookup r k = Some v"
    by (auto simp: all_records_def set_map_pick reg_lookup_def)
  then have "r_sandbox_id v = k" "clone_record v = v"
    using reg_okD [OF assms(1)] clone_record_id by blast+
  then show "reg_lookup r (r_sandbox_id rc) = Some rc" using v by simp
next
  assume a: "reg_lookup r (r_sandbox_id rc) = Some rc"
  then have "clone_record rc = rc" using reg_okD [OF assms(1)] clone_record_id by blast
  moreover have "r_sandbox_id rc \<in> set ks" using a reg_lookup_None [of r] assms(2) by force
  then have "rc \<in> set (map_pick ks (reg_records r))"
    using a unfolding set_map_pick reg_lookup_def by blast
  ultimately show "rc \<in> set (all_records ks r)" unfolding all_records_def set_map by force
qed

lemma snapshot_distinct:
  assumes "reg_ok r" and "distinct ks"
  shows "distinct (map r_sandbox_id (all_records ks r))"
proof -
  have "distinct (map r_sandbox_id (map clone_record (map_pick ks (reg_records r)))) \<and>
      r_sandbox_id ` set (map clone_record (map_pick ks (reg_records r))) \<subseteq> set ks"
    using assms(2)
  proof (induction ks)
    case Nil
    then show ?case by (simp add: map_pick_def)
  next
    case (Cons k ks)
    show ?case
    proof (cases "map_of (reg_records r) k")
      case None
      with Cons show ?thesis by (auto simp: map_pick_def List.map_filter_simps)
    next
      case (Some v)
      have "r_sandbox_id v = k" using reg_okD [OF assms(1), of k v] Some by (simp add: reg_lookup_def)
      with Some Cons show ?thesis by (auto simp: map_pick_def List.map_filter_simps image_subset_iff)
    qed
  qed
  then show ?thesis by (simp add: all_records_def)
qed

section \<open>A pass over the snapshot\<close>

text \<open>
  \<open>one\<close> says what the body makes of one record: it never returns early, the record of
  its sandbox afterwards satisfies \<open>P\<close>, and no other record changes. The same then
  holds of every record the pass visits.
\<close>

lemma record_loop_run:
  assumes one: "\<And>rc s r s'. run (body rc) s = (r, s') \<Longrightarrow>
      reg_lookup (sy_reg s) (r_sandbox_id rc) = Some rc \<Longrightarrow> spec_redacted (r_spec rc) \<Longrightarrow>
      r = Inr () \<and> P rc (reg_lookup (sy_reg s') (r_sandbox_id rc)) \<and>
      (\<forall>k. k \<noteq> r_sandbox_id rc \<longrightarrow> reg_lookup (sy_reg s') k = reg_lookup (sy_reg s) k)"
    and "distinct (map r_sandbox_id recs)"
    and "\<And>rc. rc \<in> set recs \<Longrightarrow> reg_lookup (sy_reg s) (r_sandbox_id rc) = Some rc \<and> spec_redacted (r_spec rc)"
    and "run (for_each recs (\<lambda>rc _. body rc) ()) s = (r, s')"
  shows "r = Inr () \<and> (\<forall>rc \<in> set recs. P rc (reg_lookup (sy_reg s') (r_sandbox_id rc))) \<and>
    (\<forall>k. k \<notin> r_sandbox_id ` set recs \<longrightarrow> reg_lookup (sy_reg s') k = reg_lookup (sy_reg s) k)"
  using assms(2-4)
proof (induction recs arbitrary: s)
  case Nil
  then show ?case by simp
next
  case (Cons rc recs)
  obtain b s1 where b: "run (body rc) s = (b, s1)" by fastforce
  have "reg_lookup (sy_reg s) (r_sandbox_id rc) = Some rc" "spec_redacted (r_spec rc)"
    using Cons.prems(2) [of rc] by simp_all
  note o1 = one [OF b this]
  have rest: "run (for_each recs (\<lambda>rc _. body rc) ()) s1 = (r, s')"
    using Cons.prems(3) b o1 by (simp add: run_call)
  have d: "distinct (map r_sandbox_id recs)" "r_sandbox_id rc \<notin> r_sandbox_id ` set recs"
    using Cons.prems(1) by auto
  have same: "reg_lookup (sy_reg s1) (r_sandbox_id x) = Some x \<and> spec_redacted (r_spec x)" if "x \<in> set recs" for x
  proof -
    have "r_sandbox_id x \<noteq> r_sandbox_id rc" using that d(2) by (auto simp: image_iff)
    then show ?thesis using o1 Cons.prems(2) [of x] that by simp
  qed
  note IH = Cons.IH [OF d(1) same rest]
  have "reg_lookup (sy_reg s') (r_sandbox_id rc) = reg_lookup (sy_reg s1) (r_sandbox_id rc)"
    using IH d(2) by blast
  then show ?case using IH o1 by auto
qed

text \<open>The whole pass: the snapshot is taken, the records that satisfy \<open>Q\<close> are visited.\<close>

lemma snapshot_pass_run:
  assumes one: "\<And>rc s r s'. run (body rc) s = (r, s') \<Longrightarrow>
      reg_lookup (sy_reg s) (r_sandbox_id rc) = Some rc \<Longrightarrow> spec_redacted (r_spec rc) \<Longrightarrow>
      r = Inr () \<and> P rc (reg_lookup (sy_reg s') (r_sandbox_id rc)) \<and>
      (\<forall>k. k \<noteq> r_sandbox_id rc \<longrightarrow> reg_lookup (sy_reg s') k = reg_lookup (sy_reg s) k)"
    and ok: "reg_ok (sy_reg s)" and fair: "fair_order rt"
    and sel: "\<And>ks. sel ks (sy_reg s) = filter Q (all_records ks (sy_reg s))"
    and run: "run (act (with_keys rt (\<lambda>ks. read_op (sel ks)))
        (\<lambda>recs. for_each recs (\<lambda>rc _. body rc) ())) s = (r, s')"
  shows "r = Inr ()"
    and "case reg_lookup (sy_reg s) k of
      None \<Rightarrow> reg_lookup (sy_reg s') k = None
    | Some rc \<Rightarrow>
        if Q rc then P rc (reg_lookup (sy_reg s') k) else reg_lookup (sy_reg s') k = Some rc"
proof -
  let ?kw = "rt_order rt (map_keys (reg_records (sy_reg s))) (sy_world s)"
  let ?all = "all_records (fst ?kw) (sy_reg s)"
  let ?recs = "filter Q ?all"
  have keys: "set (fst ?kw) = set (map_keys (reg_records (sy_reg s)))" "distinct (fst ?kw)"
    using ok fair_order_set [OF fair] fair_order_distinct [OF fair]
    by (auto simp: reg_ok_def map_keys_def)
  note look = snapshot_lookup [OF ok keys(1)]
  have d: "distinct (map r_sandbox_id ?recs)"
    by (rule distinct_map_filter [OF snapshot_distinct [OF ok keys(2)]])
  let ?s0 = "s\<lparr>sy_world := snd ?kw, sy_reg := sy_reg s\<rparr>"
  have at: "reg_lookup (sy_reg s) (r_sandbox_id rc) = Some rc" if "rc \<in> set ?recs" for rc
    using that look by simp
  have at0: "reg_lookup (sy_reg ?s0) (r_sandbox_id rc) = Some rc \<and> spec_redacted (r_spec rc)"
    if "rc \<in> set ?recs" for rc
    using at [OF that] reg_okD [OF ok at [OF that]] by simp
  have loop: "run (for_each ?recs (\<lambda>rc _. body rc) ()) ?s0 = (r, s')"
    using run by (simp add: run_with_keys Let_def read_op_def sel)
  note L = record_loop_run [where P = P, OF one d at0 loop]
  show "r = Inr ()" using L by blast
  show "case reg_lookup (sy_reg s) k of
      None \<Rightarrow> reg_lookup (sy_reg s') k = None
    | Some rc \<Rightarrow>
        if Q rc then P rc (reg_lookup (sy_reg s') k) else reg_lookup (sy_reg s') k = Some rc"
  proof (cases "reg_lookup (sy_reg s) k")
    case None
    then have "k \<notin> r_sandbox_id ` set ?recs" using at by force
    then show ?thesis using L None by simp
  next
    case (Some rc)
    have id: "r_sandbox_id rc = k" using reg_okD [OF ok Some] by simp
    show ?thesis
    proof (cases "Q rc")
      case True
      then have "rc \<in> set ?recs" using look Some id by simp
      then show ?thesis using L True id Some by auto
    next
      case False
      have "k \<notin> r_sandbox_id ` set ?recs" using at Some False by force
      then show ?thesis using L False Some by simp
    qed
  qed
qed

lemma is_expired_clone [simp]: "is_expired age now (clone_record rc) = is_expired age now rc"
  by (simp add: is_expired_def)

lemma expired_selection:
  "expired_records now ks r = filter (is_expired (effective_max_age (reg_limits r)) now) (all_records ks r)"
  by (simp add: expired_records_def all_records_def filter_map comp_def)

lemma all_selection: "all_records ks r = filter (\<lambda>_. True) (all_records ks r)"
  by simp

end
