(* ===== verification/KvProps.thy ===== *)
theory KvProps
  imports KvWatcher Passes
begin

text \<open>
  What the KubeVirt driver's operations do when nothing else runs between their steps, and
  what their guarded updates do when something did.
\<close>

section \<open>Creation\<close>

lemma kv_fail_run:
  "\<exists>st. fst (run (kv_fail env e) s) = Inl st \<and> sy_reg (snd (run (kv_fail env e) s)) = sy_reg s"
  by (simp add: kv_fail_def exec)

lemma kv_validate_run_reg [simp]: "sy_reg (snd (run (kv_validate env sbo) s)) = sy_reg s"
  by (simp add: kv_validate_def order_of_def exec)

text \<open>The commit: refused with the machine terminated, or done.\<close>

lemma kv_commit_refused_run:
  assumes "\<And>rc. reg_lookup (sy_reg s) (sb_id sb) = Some rc \<Longrightarrow> \<not> kv_may_commit lease (clone_record rc)"
  shows "run (kv_commit_launch env sb lease t i) s =
    ((Inl (Status Internal (ErrNew ''launched VM could not be committed; cleanup requested'')), True),
     s\<lparr>sy_world := snd (ke_terminate env (v_vm_name i) (sy_world s))\<rparr>)"
proof -
  have "update_if (sb_id sb) (kv_may_commit lease) (kv_commit i t) (sy_reg s) =
      ((zero_record, False), sy_reg s)"
    by (rule reg.upd_miss) (rule assms)
  then show ?thesis by (simp add: kv_commit_launch_def exec)
qed

lemma kv_commit_done_run:
  assumes "reg_lookup (sy_reg s) (sb_id sb) = Some rc" and "kv_may_commit lease (clone_record rc)"
  shows "fst (run (kv_commit_launch env sb lease t i) s) = (Inr (), False) \<and>
    reg_lookup (sy_reg (snd (run (kv_commit_launch env sb lease t i) s))) =
      (reg_lookup (sy_reg s))(sb_id sb \<mapsto> clone_record (kv_commit i t rc))"
  using reg.upd_hit [of "sy_reg s" "sb_id sb" rc "kv_may_commit lease" "kv_commit i t", OF assms]
  by (simp add: kv_commit_launch_def exec split_def broadcast_sandbox_def)

lemma kv_create_reserved_run:
  assumes "run (kv_create_reserved env sb ty t l) s = ((res, rb), s')"
    and at: "reg_lookup (sy_reg s) (sb_id sb) = Some rc"
  shows "(rb \<and> (\<exists>st. res = Inl st) \<and> sy_reg s' = sy_reg s) \<or>
    (\<not> rb \<and> res = Inr () \<and> kv_may_commit l (clone_record rc) \<and>
     (\<exists>spec w i. fst (ke_launch env spec w) = Inr i \<and> v_vm_name i \<noteq> [] \<and> vs_created_at spec = t \<and>
        vs_sandbox_id spec = sb_id sb \<and> vs_instance_type spec = ty \<and>
        reg_lookup (sy_reg s') = (reg_lookup (sy_reg s))(sb_id sb \<mapsto>
          clone_record (kv_commit (kv_complete t i) t rc))))"
proof -
  let ?life = "max_lifetime_string (sy_reg s)"
  let ?ow = "rt_order (ke_runtime env) sec_keys (sy_world s)"
  let ?ci = "render_cloud_init (ke_transport_lib env) (ke_print_table env) (fst ?ow)
      (kv_cloud_init_params env sb ?life t)"
  show ?thesis
  proof (cases ?ci)
    case (Inl e)
    with assms(1) show ?thesis by (auto simp: kv_create_reserved_def order_of_def exec)
  next
    case (Inr ci)
    let ?spec = "kv_vm_spec env sb ty ci t ?life"
    let ?lw = "ke_launch env ?spec (snd ?ow)"
    let ?s2 = "s\<lparr>sy_world := snd ?lw\<rparr>"
    have sp: "vs_created_at ?spec = t" "vs_sandbox_id ?spec = sb_id sb" "vs_instance_type ?spec = ty"
      by (simp_all add: kv_vm_spec_def Let_def)
    show ?thesis
    proof (cases "fst ?lw")
      case (Inl e)
      with assms(1) \<open>?ci = Inr ci\<close> kv_fail_run [of env e ?s2] show ?thesis
        by (auto simp: kv_create_reserved_def order_of_def exec split_def)
    next
      case (Inr i)
      show ?thesis
      proof (cases "v_vm_name i = []")
        case True
        with assms(1) \<open>?ci = Inr ci\<close> Inr show ?thesis
          by (auto simp: kv_create_reserved_def order_of_def exec)
      next
        case named: False
        have run: "run (kv_commit_launch env sb l t (kv_complete t i)) ?s2 = ((res, rb), s')"
          using assms(1) \<open>?ci = Inr ci\<close> Inr named by (auto simp: kv_create_reserved_def order_of_def exec)
        have at2: "reg_lookup (sy_reg ?s2) (sb_id sb) = Some rc" using at by simp
        show ?thesis
        proof (cases "kv_may_commit l (clone_record rc)")
          case True
          from kv_commit_done_run [OF at2 True, of env t "kv_complete t i"] run
          have "res = Inr () \<and> \<not> rb \<and> reg_lookup (sy_reg s') = (reg_lookup (sy_reg s))
              (sb_id sb \<mapsto> clone_record (kv_commit (kv_complete t i) t rc))" by simp
          with True Inr named sp show ?thesis by blast
        next
          case False
          then have "run (kv_commit_launch env sb l t (kv_complete t i)) ?s2 =
            ((Inl (Status Internal (ErrNew ''launched VM could not be committed; cleanup requested'')), True),
             ?s2\<lparr>sy_world := snd (ke_terminate env (v_vm_name (kv_complete t i)) (sy_world ?s2))\<rparr>)"
            by (intro kv_commit_refused_run) (use at2 in simp)
          with run show ?thesis by auto
        qed
      qed
    qed
  qed
qed

lemma kv_complete_fields [simp]:
  "v_vm_name (kv_complete t i) = v_vm_name i"
  "v_state (kv_complete t i) = (if v_state i = [] then ''Pending'' else v_state i)"
  "v_created_at (kv_complete t i) = (if is_zero (v_created_at i) then t else v_created_at i)"
  by (simp_all add: kv_complete_def Let_def)

lemma kv_launching_record_fields [simp]:
  "r_sandbox_id (kv_launching_record sb t) = sb_id sb"
  "r_instance_id (kv_launching_record sb t) = []"
  "r_state (kv_launching_record sb t) = ''launching''"
  "r_spec (kv_launching_record sb t) = sb_spec sb"
  by (simp_all add: kv_launching_record_def zero_record_def)

definition kv_created :: "'w kv_env \<Rightarrow> driver_sandbox \<Rightarrow> registry \<Rightarrow> registry \<Rightarrow> bool" where
  "kv_created env sb r r' \<longleftrightarrow>
     reg_lookup r (sb_id sb) = None \<and>
     int (length (reg_records r)) < effective_max_instances (reg_limits r) \<and>
     (\<exists>spec w i rc. fst (ke_launch env spec w) = Inr i \<and> vs_sandbox_id spec = sb_id sb \<and>
        kv_select_instance_type (ke_sort env) (sandbox_resources sb)
          (k_default_instance_type (ke_config env)) = Inr (vs_instance_type spec) \<and>
        reg_lookup r' = (reg_lookup r)(sb_id sb \<mapsto> rc) \<and> r_sandbox_id rc = sb_id sb \<and>
        v_vm_name i \<noteq> [] \<and> r_instance_id rc = v_vm_name i \<and>
        r_created_at rc = (if is_zero (v_created_at i) then vs_created_at spec else v_created_at i) \<and>
        r_state rc = (if v_state i = [] then ''Pending'' else v_state i) \<and>
        r_lease rc = reg_next_lease r + 1 \<and> r_spec rc = clone_redacted_spec (sb_spec sb))"

lemma lease_granted:
  assumes "reserve_with_lease rc r = (Inr l, r')"
  shows "reg_lookup r (r_sandbox_id rc) = None" and "l = reg_next_lease r + 1"
    and "int (length (reg_records r)) < effective_max_instances (reg_limits r)"
    and "reg_lookup r' = (reg_lookup r)(r_sandbox_id rc \<mapsto> clone_record (rc\<lparr>r_lease := l\<rparr>))"
proof -
  show "int (length (reg_records r)) < effective_max_instances (reg_limits r)"
    using assms by (auto simp: reserve_with_lease_def Let_def split: if_splits)
qed (use reg.rsv_ok [OF assms] reserve_next [OF assms] in auto)

lemma kv_create_after_reserve:
  assumes run: "run (call (kv_create_reserved env sb ty t l) (\<lambda>(res, rb).
        if rb then act (on_reg (unit_op (rollback (sb_id sb)))) (\<lambda>_. Ret res) else Ret res)) s1 = (res, s')"
    and rsv: "reserve_with_lease (kv_launching_record sb t) r = (Inr l, sy_reg s1)"
    and ty: "kv_select_instance_type (ke_sort env) (sandbox_resources sb)
      (k_default_instance_type (ke_config env)) = Inr ty"
  shows "(\<exists>st. res = Inl st) \<and> reg_lookup (sy_reg s') = reg_lookup r \<or>
    res = Inr () \<and> kv_created env sb r (sy_reg s')"
proof -
  obtain res1 rb s2 where b: "run (kv_create_reserved env sb ty t l) s1 = ((res1, rb), s2)"
    by (metis surj_pair)
  note g = lease_granted [OF rsv, simplified]
  let ?rc = "clone_record ((kv_launching_record sb t)\<lparr>r_lease := l\<rparr>)"
  have at: "reg_lookup (sy_reg s1) (sb_id sb) = Some ?rc" by (simp add: g(4))
  from kv_create_reserved_run [OF b at] show ?thesis
  proof
    assume a: "rb \<and> (\<exists>st. res1 = Inl st) \<and> sy_reg s2 = sy_reg s1"
    then have "res = res1" "sy_reg s' = rollback (sb_id sb) (sy_reg s1)"
      using run b by (auto simp: run_call exec)
    then show ?thesis using a g by (simp add: rollback_lookup fun_upd_idem)
  next
    assume a: "\<not> rb \<and> res1 = Inr () \<and> kv_may_commit l (clone_record ?rc) \<and>
     (\<exists>spec w i. fst (ke_launch env spec w) = Inr i \<and> v_vm_name i \<noteq> [] \<and> vs_created_at spec = t \<and>
        vs_sandbox_id spec = sb_id sb \<and> vs_instance_type spec = ty \<and>
        reg_lookup (sy_reg s2) = (reg_lookup (sy_reg s1))(sb_id sb \<mapsto>
          clone_record (kv_commit (kv_complete t i) t ?rc)))"
    then obtain spec w i where l: "fst (ke_launch env spec w) = Inr i" "v_vm_name i \<noteq> []"
      "vs_created_at spec = t" "vs_sandbox_id spec = sb_id sb" "vs_instance_type spec = ty"
      "reg_lookup (sy_reg s2) = (reg_lookup (sy_reg s1))(sb_id sb \<mapsto>
          clone_record (kv_commit (kv_complete t i) t ?rc))" by blast
    have s2: "res = Inr ()" "s' = s2" using run b a by (auto simp: run_call exec)
    let ?new = "clone_record (kv_commit (kv_complete t i) t ?rc)"
    have new: "reg_lookup (sy_reg s') = (reg_lookup r)(sb_id sb \<mapsto> ?new)" using s2 l(6) g(4) by simp
    have "kv_created env sb r (sy_reg s')"
      unfolding kv_created_def using l(1-4) g(1-3) ty [folded l(5)] new
      by (intro conjI exI [of _ spec] exI [of _ w] exI [of _ i] exI [of _ ?new]) (simp_all add: kv_commit_def)
    then show ?thesis using s2 by blast
  qed
qed

lemma kv_create_outcome_core:
  assumes "run (kv_create_sandbox env sbo) s = (res, s')"
  shows "(\<exists>st. res = Inl st) \<and> reg_lookup (sy_reg s') = reg_lookup (sy_reg s) \<or>
    (\<exists>sb. sbo = Some sb \<and> res = Inr () \<and> kv_created env sb (sy_reg s) (sy_reg s'))"
proof -
  obtain v s0 where v: "run (kv_validate env sbo) s = (v, s0)" by fastforce
  have r0: "sy_reg s0 = sy_reg s" using kv_validate_run_reg [of env sbo s] v by simp
  show ?thesis
  proof (cases "\<exists>st. v = Inl st \<or> sbo = None")
    case True
    then show ?thesis using assms v r0
      by (auto simp: kv_create_sandbox_def run_call split: sum.splits)
  next
    case False
    then obtain sb where sb: "sbo = Some sb" "v = Inr ()" by (cases v) auto
    show ?thesis
    proof (cases "kv_select_instance_type (ke_sort env) (sandbox_resources sb) (k_default_instance_type (ke_config env))")
      case (Inl e)
      then show ?thesis using assms v r0 sb by (auto simp: kv_create_sandbox_def run_call)
    next
      case (Inr ty)
      let ?nw = "rt_now (ke_runtime env) (sy_world s0)"
      let ?t = "fst ?nw"
      obtain x r1 where rv: "reserve_with_lease (kv_launching_record sb ?t) (sy_reg s) = (x, r1)" by fastforce
      show ?thesis
      proof (cases x)
        case (Inl e)
        then show ?thesis using assms v r0 sb \<open>kv_select_instance_type _ _ _ = _\<close> rv
            reg.rsv_err [OF rv [unfolded Inl]]
          by (auto simp: kv_create_sandbox_def run_call run_now_of run_on_reg)
      next
        case (Inr l)
        let ?s1 = "s0\<lparr>sy_world := snd ?nw, sy_reg := r1\<rparr>"
        have "run (call (kv_create_reserved env sb ty ?t l) (\<lambda>(res, rb).
            if rb then act (on_reg (unit_op (rollback (sb_id sb)))) (\<lambda>_. Ret res) else Ret res)) ?s1 = (res, s')"
          using assms v r0 sb \<open>kv_select_instance_type _ _ _ = _\<close> rv Inr
          by (simp add: kv_create_sandbox_def run_call [of "kv_validate env (Some sb)"] run_now_of run_on_reg)
        from kv_create_after_reserve [OF this _ \<open>kv_select_instance_type _ _ _ = _\<close>] show ?thesis
          using rv Inr sb by simp
      qed
    qed
  qed
qed

end
