(* ===== verification/KvPoll.thy ===== *)
theory KvPoll
  imports KvProps
begin

text \<open>
  A poll of the KubeVirt driver: the machine it keeps, the record of every sandbox after
  its three passes, and a deletion that is accepted while the machine is being launched.
\<close>

section \<open>A deletion while the machine is launched\<close>

text \<open>A reference that means one reserved sandbox: its id, or a name no other reservation has.\<close>

definition means_reservation :: "registry \<Rightarrow> sandbox_ref \<Rightarrow> srecord \<Rightarrow> bool" where
  "means_reservation r req rc \<longleftrightarrow>
     ref_id req = r_sandbox_id rc \<and> ref_name req = [] \<and> r_sandbox_id rc \<noteq> [] \<or>
     ref_id req = [] \<and> ref_name req = r_name rc \<and> r_name rc \<noteq> [] \<and>
       (\<forall>k x. reg_lookup r k = Some x \<and> r_instance_id x = [] \<and> r_name x = r_name rc \<longrightarrow> x = rc)"

lemma kv_mark_hit:
  assumes "\<not> kv_skip_deletion i nm rc" and "kv_launching rc" and "clone_record rc = rc"
    and "reg_lookup (sy_reg s) (r_sandbox_id rc) = Some rc"
  shows "fst (run (kv_mark_one env i nm rc) s) = Inl () \<and>
    (\<exists>t. reg_lookup (sy_reg (snd (run (kv_mark_one env i nm rc) s))) =
       (reg_lookup (sy_reg s))(r_sandbox_id rc \<mapsto> clone_record (kv_delete_requested t rc)))"
proof -
  let ?nw = "rt_now (ke_runtime env) (sy_world s)"
  let ?p = "\<lambda>c. r_lease c = r_lease rc \<and> kv_launching c"
  have p: "?p (clone_record rc)" using assms(2,3) by simp
  note hit = reg.upd_hit [of "sy_reg s" "r_sandbox_id rc" rc ?p "kv_delete_requested (fst ?nw)", OF assms(4) p]
  show ?thesis using hit assms(1)
    by (auto simp: kv_mark_one_def exec Let_def split_def broadcast_sandbox_def)
qed

lemma kv_mark_loop:
  assumes "\<not> kv_skip_deletion i nm rc" and "kv_launching rc" and "clone_record rc = rc"
    and "reg_lookup (sy_reg s) (r_sandbox_id rc) = Some rc"
    and "rc \<in> set recs" and "\<And>x. x \<in> set recs \<Longrightarrow> \<not> kv_skip_deletion i nm x \<Longrightarrow> x = rc"
  shows "fst (run (for_each recs (\<lambda>x _. kv_mark_one env i nm x) ()) s) = Inl () \<and>
    (\<exists>t. reg_lookup (sy_reg (snd (run (for_each recs (\<lambda>x _. kv_mark_one env i nm x) ()) s))) =
       (reg_lookup (sy_reg s))(r_sandbox_id rc \<mapsto> clone_record (kv_delete_requested t rc)))"
  using assms(5,6)
proof (induction recs)
  case (Cons x recs)
  show ?case
  proof (cases "kv_skip_deletion i nm x")
    case False
    then have "x = rc" using Cons.prems(2) by simp
    from kv_mark_hit [OF assms(1-4), of env] obtain t where
      "fst (run (kv_mark_one env i nm rc) s) = Inl ()"
      "reg_lookup (sy_reg (snd (run (kv_mark_one env i nm rc) s))) =
         (reg_lookup (sy_reg s))(r_sandbox_id rc \<mapsto> clone_record (kv_delete_requested t rc))" by blast
    then show ?thesis using \<open>x = rc\<close>
      by (intro conjI exI [of _ t]) (simp_all add: run_call split_def)
  next
    case True
    then have "rc \<in> set recs" using Cons.prems(1) assms(1) by auto
    with Cons True show ?thesis by (simp add: run_call kv_mark_one_def)
  qed
qed simp

text \<open>The deletion is accepted and the reservation is marked.\<close>

lemma kv_delete_launching_run:
  assumes ok: "reg_ok (sy_reg s)" and fair: "fair_order (ke_runtime env)"
    and at: "reg_lookup (sy_reg s) i = Some rc" and l: "kv_launching rc"
    and ref: "means_reservation (sy_reg s) req rc"
  shows "fst (run (kv_delete_sandbox env req) s) = Inr True \<and>
    (\<exists>t. reg_lookup (sy_reg (snd (run (kv_delete_sandbox env req) s))) =
       (reg_lookup (sy_reg s))(i \<mapsto> clone_record (kv_delete_requested t rc)))"
proof -
  let ?kw = "rt_order (ke_runtime env) (map_keys (reg_records (sy_reg s))) (sy_world s)"
  let ?recs = "all_records (fst ?kw) (sy_reg s)"
  let ?s0 = "s\<lparr>sy_world := snd ?kw, sy_reg := sy_reg s\<rparr>"
  let ?i = "ref_id req" and ?nm = "ref_name req"
  have keys: "set (fst ?kw) = set (map_keys (reg_records (sy_reg s)))"
    using fair_order_set [OF fair] by simp
  note look = snapshot_lookup [OF ok keys]
  have id: "r_sandbox_id rc = i" "clone_record rc = rc" using reg_okD [OF ok at] clone_record_id by auto
  have one: "(?i = []) \<noteq> (?nm = [])" using ref by (auto simp: means_reservation_def)
  have hit: "\<not> kv_skip_deletion ?i ?nm rc"
    using ref l by (auto simp: means_reservation_def kv_skip_deletion_def kv_launching_def)
  have only: "x = rc" if "x \<in> set ?recs" "\<not> kv_skip_deletion ?i ?nm x" for x
  proof -
    have x: "reg_lookup (sy_reg s) (r_sandbox_id x) = Some x" using that(1) look by simp
    show ?thesis using ref
      unfolding means_reservation_def
    proof (elim disjE conjE)
      assume "?i = r_sandbox_id rc" "r_sandbox_id rc \<noteq> []"
      with that(2) id(1) x at show ?thesis by (auto simp: kv_skip_deletion_def)
    next
      assume "?nm = r_name rc" "r_name rc \<noteq> []"
        "\<forall>k x. reg_lookup (sy_reg s) k = Some x \<and> r_instance_id x = [] \<and> r_name x = r_name rc \<longrightarrow> x = rc"
      with that(2) x show ?thesis by (auto simp: kv_skip_deletion_def)
    qed
  qed
  have mem: "rc \<in> set ?recs" using look at id by simp
  have at0: "reg_lookup (sy_reg ?s0) (r_sandbox_id rc) = Some rc" using at id(1) by simp
  have "fst (run (for_each ?recs (\<lambda>x _. kv_mark_one env ?i ?nm x) ()) ?s0) = Inl () \<and>
    (\<exists>t. reg_lookup (sy_reg (snd (run (for_each ?recs (\<lambda>x _. kv_mark_one env ?i ?nm x) ()) ?s0))) =
       (reg_lookup (sy_reg ?s0))(i \<mapsto> clone_record (kv_delete_requested t rc)))"
    using kv_mark_loop [OF hit l id(2) at0 mem only, of env] unfolding id(1) .
  then show ?thesis using one
    by (auto simp: kv_delete_sandbox_def kv_mark_launching_deletion_def run_call run_with_keys Let_def
        read_op_def split_def)
qed

section \<open>The machine a poll keeps\<close>

definition kv_kept :: "'w kv_env \<Rightarrow> vm_inst list \<Rightarrow> vm_inst" where
  "kv_kept env ms = vm_live env ms ! keeper_index (vm_live env ms)"

lemma keeper_index_less: "live \<noteq> [] \<Longrightarrow> keeper_index live < length live"
  by (simp add: keeper_index_def Let_def)

lemma keeper_before:
  assumes "j < keeper_index live" and "live \<noteq> []"
  shows "vm_finished (live ! j)"
proof -
  have "j < length (takeWhile vm_finished live)"
    using assms(1) by (auto simp: keeper_index_def Let_def split: if_splits)
  then show ?thesis by (metis nth_mem set_takeWhileD takeWhile_nth)
qed

lemma keeper_finished:
  assumes "live \<noteq> []" and "vm_finished (live ! keeper_index live)"
  shows "keeper_index live = 0 \<and> (\<forall>m \<in> set live. vm_finished m)"
proof -
  let ?k = "length (takeWhile vm_finished live)"
  have "\<not> ?k < length live"
  proof
    assume k: "?k < length live"
    then have "\<not> vm_finished (live ! ?k)" by (rule nth_length_takeWhile)
    with assms(2) k show False by (simp add: keeper_index_def Let_def)
  qed
  then have "takeWhile vm_finished live = live"
    using length_takeWhile_le [of vm_finished live] by (metis le_neq_implies_less takeWhile_eq_take take_all)
  with \<open>\<not> ?k < length live\<close> show ?thesis
    by (metis keeper_index_def set_takeWhileD)
qed

lemma vm_live_set:
  "vm_sorter (ke_sort_vms env) \<Longrightarrow> set (vm_live env ms) = {m \<in> set ms. \<not> is_terminal_state (v_state m)}"
  using slice_sort.sort_set [OF vm_sorter.axioms] by (auto simp: vm_live_def)

text \<open>
  The keeper is live; it is finished only when every live machine is, and no live machine
  that is no more finished than the keeper precedes it.
\<close>

lemma kv_kept_spec:
  assumes srt: "vm_sorter (ke_sort_vms env)" and ne: "vm_live env ms \<noteq> []"
  shows "kv_kept env ms \<in> set ms \<and> \<not> is_terminal_state (v_state (kv_kept env ms))"
    and "vm_finished (kv_kept env ms) \<Longrightarrow> m \<in> set ms \<Longrightarrow> \<not> is_terminal_state (v_state m) \<Longrightarrow> vm_finished m"
    and "m \<in> set ms \<Longrightarrow> \<not> is_terminal_state (v_state m) \<Longrightarrow> vm_finished m = vm_finished (kv_kept env ms) \<Longrightarrow>
      \<not> vm_older m (kv_kept env ms)"
proof -
  let ?l = "vm_live env ms"
  let ?k = "keeper_index ?l"
  have lt: "?k < length ?l" by (rule keeper_index_less [OF ne])
  then have "kv_kept env ms \<in> set ?l" by (simp add: kv_kept_def)
  then show "kv_kept env ms \<in> set ms \<and> \<not> is_terminal_state (v_state (kv_kept env ms))"
    using vm_live_set [OF srt] by auto
  show "vm_finished m" if "vm_finished (kv_kept env ms)" "m \<in> set ms" "\<not> is_terminal_state (v_state m)"
    using keeper_finished [OF ne] that vm_live_set [OF srt] by (auto simp: kv_kept_def)
  assume m: "m \<in> set ms" "\<not> is_terminal_state (v_state m)" "vm_finished m = vm_finished (kv_kept env ms)"
  then have "m \<in> set ?l" using vm_live_set [OF srt] by auto
  then obtain j where j: "j < length ?l" "m = ?l ! j" by (metis in_set_conv_nth)
  have "?k \<le> j"
  proof (rule ccontr)
    assume "\<not> ?k \<le> j"
    then have "vm_finished m" using keeper_before [of j ?l] ne j by simp
    then have "?k = 0" using keeper_finished [OF ne] m(3) by (simp add: kv_kept_def)
    with \<open>\<not> ?k \<le> j\<close> show False by simp
  qed
  moreover have "sorted_wrt (\<lambda>a b. \<not> vm_older b a) ?l"
    unfolding vm_live_def
    by (rule sorted_wrt_filter) (rule slice_sort.sort_ordered [OF vm_sorter.axioms [OF srt]], simp)
  moreover have "\<not> vm_older m m" by (simp add: vm_older_def)
  ultimately show "\<not> vm_older m (kv_kept env ms)"
    using j sorted_wrt_nth_less [of "\<lambda>a b. \<not> vm_older b a" ?l ?k j]
    by (cases "?k = j") (simp_all add: kv_kept_def)
qed


section \<open>The first pass\<close>

lemma keeps_closures [inv_intro]:
  "keeps k v r \<Longrightarrow> i \<noteq> k \<Longrightarrow> keeps k v (snd (update_if i p fn r))"
  "keeps k v r \<Longrightarrow> i \<noteq> k \<Longrightarrow> keeps k v (snd (delete_if i p r))"
  by (rule keeps_update_if keeps_delete_if; assumption)+

lemma kv_reconcile_keeps:
  assumes "v_sandbox_id x = i" and "i \<noteq> k"
  shows "preserves (in_reg (keeps k v)) (kv_reconcile env i x)"
  unfolding kv_reconcile_def kv_recover_def Let_def
  by (intro inv_intro) (use assms in \<open>auto simp: keeps_def op_defs\<close>)

lemma kv_refresh_fields [simp]:
  "r_instance_id (kv_refresh inst ob t rc) = v_vm_name inst"
  "r_state (kv_refresh inst ob t rc) = ob"
  "r_missing_polls (kv_refresh inst ob t rc) = 0"
  by (simp_all add: kv_refresh_def Let_def)

text \<open>The state a poll gives to the record of a listed sandbox.\<close>

definition polled_state :: "srecord option \<Rightarrow> vm_inst \<Rightarrow> bytestr" where
  "polled_state v m = (case v of None \<Rightarrow> v_state m | Some rc \<Rightarrow> observed_state rc m)"

definition kv_tracked :: "srecord option \<Rightarrow> vm_inst \<Rightarrow> srecord option \<Rightarrow> bool" where
  "kv_tracked v0 m v \<longleftrightarrow>
     (\<exists>rc. v = Some rc \<and> r_instance_id rc = v_vm_name m \<and> r_missing_polls rc = 0 \<and>
        r_state rc = polled_state v0 m)"

lemma kv_trust_run:
  "\<exists>w t. run (kv_trust_created_at env c k) s = run (k t) (s\<lparr>sy_world := w\<rparr>)"
  by (auto simp: kv_trust_created_at_def exec Let_def)

lemma kv_recover_run:
  assumes "reg_lookup (sy_reg s) (v_sandbox_id inst) = None"
  shows "fst (run (kv_recover env i inst) s) = Inr () \<and>
    kv_tracked None inst (reg_lookup (sy_reg (snd (run (kv_recover env i inst) s))) (v_sandbox_id inst))"
proof -
  let ?now = "fst (rt_now (ke_runtime env) (sy_world s))"
  let ?s1 = "s\<lparr>sy_world := snd (rt_now (ke_runtime env) (sy_world s))\<rparr>"
  let ?k = "\<lambda>created. act (on_reg (add_record (Some ((kv_record_from_instance ?now inst)\<lparr>r_created_at := created\<rparr>))))
      (\<lambda>err. case err of
         Some e \<Rightarrow> Ret (Inl (ErrWrap ''track recovered sandbox %s: %w'' [AStr i] e))
       | None \<Rightarrow> act (on_reg (unit_op (broadcast_sandbox
           ((kv_record_from_instance ?now inst)\<lparr>r_created_at := created\<rparr>)))) (\<lambda>_. Ret (Inr ())))"
  have r: "run (kv_recover env i inst) s = run (kv_trust_created_at env (v_created_at inst) ?k) ?s1"
    by (simp add: kv_recover_def exec Let_def)
  obtain w t where t: "run (kv_trust_created_at env (v_created_at inst) ?k) ?s1 = run (?k t) (?s1\<lparr>sy_world := w\<rparr>)"
    using kv_trust_run [of env "v_created_at inst" ?k ?s1] by blast
  let ?rc = "(kv_record_from_instance ?now inst)\<lparr>r_created_at := t\<rparr>"
  have "fst (add_record (Some ?rc) (sy_reg s)) = None" using assms by (simp add: add_error)
  then show ?thesis unfolding r t using assms
    by (simp add: exec broadcast_sandbox_def add_lookup kv_tracked_def polled_state_def)
qed

lemma kv_reconcile_run:
  assumes "\<not> is_terminal_state (v_state inst)" and "v_sandbox_id inst = i"
  shows "fst (run (kv_reconcile env i inst) s) = Inr () \<and>
    kv_tracked (reg_lookup (sy_reg s) i) inst (reg_lookup (sy_reg (snd (run (kv_reconcile env i inst) s))) i)"
proof (cases "reg_lookup (sy_reg s) i")
  case None
  then have "run (kv_reconcile env i inst) s = run (kv_recover env i inst) s"
    using assms(1) by (simp add: kv_reconcile_def exec get_record_def)
  then show ?thesis using kv_recover_run [of s inst env i] None assms(2) by simp
next
  case (Some rc)
  let ?ob = "observed_state rc inst"
  have ob: "observed_state (clone_record rc) inst = ?ob" by (simp add: observed_state_def)
  show ?thesis
  proof (cases "r_state rc \<noteq> ?ob \<or> r_instance_id rc \<noteq> v_vm_name inst \<or> r_missing_polls rc \<noteq> 0")
    case True
    let ?t = "fst (rt_now (ke_runtime env) (sy_world s))"
    let ?p = "kv_same_generation (clone_record rc)"
    have "?p (clone_record rc)" by (simp add: kv_same_generation_def)
    from reg.upd_hit [of "sy_reg s" i rc ?p "kv_refresh inst ?ob ?t", OF Some this]
    show ?thesis using assms(1) Some True ob
      by (auto simp: kv_reconcile_def exec get_record_def split_def broadcast_sandbox_def kv_tracked_def
          polled_state_def Let_def)
  next
    case False
    then show ?thesis using assms(1) Some ob
      by (auto simp: kv_reconcile_def exec get_record_def kv_tracked_def polled_state_def Let_def)
  qed
qed

lemma kv_terminate_all_reg [simp]: "sy_reg (snd (run (kv_terminate_all env i ns) s)) = sy_reg s"
  using preserves_run [OF kv_terminate_all_preserves, of "\<lambda>r. r = sy_reg s" s env i ns]
  by (simp add: in_reg_def)

text \<open>One group: nothing when no machine is live, else the duplicates are terminated first.\<close>

lemma kv_poll_sandbox_run:
  assumes srt: "vm_sorter (ke_sort_vms env)" and ms: "\<forall>m \<in> set ms. v_sandbox_id m = i"
    and run: "run (kv_poll_sandbox env i ms) s = (Inr b, s')"
  shows "b = (vm_live env ms \<noteq> [])"
    and "b \<Longrightarrow> kv_tracked (reg_lookup (sy_reg s) i) (kv_kept env ms) (reg_lookup (sy_reg s') i)"
    and "\<not> b \<Longrightarrow> s' = s"
    and "k \<noteq> i \<Longrightarrow> reg_lookup (sy_reg s') k = reg_lookup (sy_reg s) k"
proof -
  let ?m = "kv_kept env ms"
  have both: "if vm_live env ms = [] then \<not> b \<and> s' = s
    else b \<and> kv_tracked (reg_lookup (sy_reg s) i) ?m (reg_lookup (sy_reg s') i) \<and>
      (\<forall>k. k \<noteq> i \<longrightarrow> reg_lookup (sy_reg s') k = reg_lookup (sy_reg s) k)"
  proof (cases "vm_live env ms = []")
    case True
    then show ?thesis using run by (simp add: kv_poll_sandbox_def)
  next
    case False
    note kp = kv_kept_spec(1) [OF srt False]
    have id: "v_sandbox_id ?m = i" using kp ms by blast
    let ?dup = "if length (vm_live env ms) > 1 then kv_terminate_all env i (duplicate_names (vm_live env ms))
      else Ret (Inr ())"
    obtain r1 s1 where r1: "run ?dup s = (r1, s1)" by fastforce
    have "sy_reg (snd (run ?dup s)) = sy_reg s" by simp
    then have s1: "sy_reg s1 = sy_reg s" using r1 by (metis snd_conv)
    have ok: "r1 = Inr ()" using run False r1 by (cases r1) (auto simp: kv_poll_sandbox_def exec Let_def)
    obtain r2 s2 where r2: "run (kv_reconcile env i ?m) s1 = (r2, s2)" by fastforce
    note R = kv_reconcile_run [of ?m i env s1] kp id
    have "r2 = Inr ()" using R r2 by simp
    then have fin: "b" "s' = s2" using run False r1 ok r2
      by (auto simp: kv_poll_sandbox_def exec Let_def kv_kept_def)
    have other: "reg_lookup (sy_reg s2) k = reg_lookup (sy_reg s1) k" if "k \<noteq> i" for k
      using keeps_run [OF kv_reconcile_keeps [OF id]] that r2 by (metis snd_conv)
    show ?thesis using False R r2 fin s1 other by simp
  qed
  show "b = (vm_live env ms \<noteq> [])" using both by (auto split: if_splits)
  show "b \<Longrightarrow> kv_tracked (reg_lookup (sy_reg s) i) ?m (reg_lookup (sy_reg s') i)"
    using both by (auto split: if_splits)
  show "\<not> b \<Longrightarrow> s' = s" using both by (auto split: if_splits)
  show "k \<noteq> i \<Longrightarrow> reg_lookup (sy_reg s') k = reg_lookup (sy_reg s) k"
    using both by (auto split: if_splits)
qed


lemma vm_add_to_group_fold:
  "vm_add_to_group = (\<lambda>x m. if v_sandbox_id x = [] then m
     else AList.update (v_sandbox_id x)
       ((case map_of m (v_sandbox_id x) of None \<Rightarrow> [] | Some l \<Rightarrow> l) @ [x]) m)"
  by (intro ext) (simp add: vm_add_to_group_def)

definition vm_matches :: "bytestr \<Rightarrow> vm_inst list \<Rightarrow> vm_inst list" where
  "vm_matches i is = (if i = [] then [] else filter (\<lambda>x. v_sandbox_id x = i) is)"

lemma vm_by_sandbox_lookup:
  "map_of (vm_by_sandbox is) i = (if vm_matches i is = [] then None else Some (vm_matches i is))"
  unfolding vm_by_sandbox_def group_fold(1) [OF vm_add_to_group_fold] by (simp add: Let_def vm_matches_def)

lemma vm_by_sandbox_distinct: "distinct (map_keys (vm_by_sandbox is))"
  unfolding vm_by_sandbox_def map_keys_def by (rule group_fold(2) [OF vm_add_to_group_fold]) simp

lemma vm_matches_ids: "\<forall>m \<in> set (vm_matches i is). v_sandbox_id m = i"
  by (simp add: vm_matches_def)

lemma vm_live_Nil: "vm_sorter (ke_sort_vms env) \<Longrightarrow> vm_live env [] = []"
  using vm_live_set [of env "[]"] by simp

lemma kv_groups_run:
  assumes srt: "vm_sorter (ke_sort_vms env)" and "distinct ks"
    and "run (for_each ks
         (\<lambda>i seen.
            case map_of (vm_by_sandbox is) i of
              None \<Rightarrow> Ret (Inr seen)
            | Some matches \<Rightarrow>
                call (kv_poll_sandbox env i matches) (\<lambda>r.
                  case r of
                    Inl e \<Rightarrow> Ret (Inl e)
                  | Inr b \<Rightarrow> Ret (Inr (if b then i # seen else seen)))) seen0) s = (Inr seen, s')"
  shows "set seen = set seen0 \<union> {i \<in> set ks. vm_live env (vm_matches i is) \<noteq> []} \<and>
    (\<forall>i. if i \<in> set ks \<and> vm_live env (vm_matches i is) \<noteq> []
         then kv_tracked (reg_lookup (sy_reg s) i) (kv_kept env (vm_matches i is)) (reg_lookup (sy_reg s') i)
         else reg_lookup (sy_reg s') i = reg_lookup (sy_reg s) i)"
  using assms(2,3)
proof (induction ks arbitrary: seen0 s)
  case Nil
  then show ?case by simp
next
  case (Cons i ks)
  let ?ms = "vm_matches i is"
  have d: "i \<notin> set ks" "distinct ks" using Cons.prems(1) by auto
  let ?body = "\<lambda>i seen. case map_of (vm_by_sandbox is) i of
              None \<Rightarrow> Ret (Inr seen)
            | Some matches \<Rightarrow>
                call (kv_poll_sandbox env i matches) (\<lambda>r.
                  case r of
                    Inl e \<Rightarrow> Ret (Inl e)
                  | Inr b \<Rightarrow> Ret (Inr (if b then i # seen else seen)))"
  show ?case
  proof (cases "?ms = []")
    case True
    then have "run (for_each ks ?body seen0) s = (Inr seen, s')"
      using Cons.prems(2) by (simp add: run_call vm_by_sandbox_lookup)
    from Cons.IH [OF d(2) this] d(1) True vm_live_Nil [OF srt] show ?thesis by auto
  next
    case False
    obtain res s1 where r1: "run (kv_poll_sandbox env i ?ms) s = (res, s1)" by fastforce
    obtain b where b: "res = Inr b" and rest: "run (for_each ks ?body (if b then i # seen0 else seen0)) s1 = (Inr seen, s')"
      using Cons.prems(2) False r1 by (auto simp: run_call vm_by_sandbox_lookup split: sum.splits)
    note P = kv_poll_sandbox_run [OF srt vm_matches_ids r1 [unfolded b]]
    note IH = Cons.IH [OF d(2) rest]
    have i: "reg_lookup (sy_reg s') i = reg_lookup (sy_reg s1) i" using IH d(1) by auto
    have k: "reg_lookup (sy_reg s1) k = reg_lookup (sy_reg s) k" if "k \<noteq> i" for k using P(4) that by blast
    have "set seen = set seen0 \<union> {j \<in> set (i # ks). vm_live env (vm_matches j is) \<noteq> []}"
      using IH P(1) by auto
    moreover have "if j \<in> set (i # ks) \<and> vm_live env (vm_matches j is) \<noteq> []
         then kv_tracked (reg_lookup (sy_reg s) j) (kv_kept env (vm_matches j is)) (reg_lookup (sy_reg s') j)
         else reg_lookup (sy_reg s') j = reg_lookup (sy_reg s) j" for j
    proof (cases "j = i")
      case True
      then show ?thesis using i P(1-3) by auto
    next
      case False
      then show ?thesis using IH k [OF False] by (metis set_ConsD list.set_intros(2))
    qed
    ultimately show ?thesis by blast
  qed
qed

lemma kv_poll_listed_run:
  assumes srt: "vm_sorter (ke_sort_vms env)" and fair: "fair_order (ke_runtime env)"
    and run: "run (kv_poll_listed env (vm_by_sandbox is)) s = (Inr seen, s')"
  shows "i \<in> set seen \<longleftrightarrow> vm_live env (vm_matches i is) \<noteq> []"
    and "if vm_live env (vm_matches i is) \<noteq> []
      then kv_tracked (reg_lookup (sy_reg s) i) (kv_kept env (vm_matches i is)) (reg_lookup (sy_reg s') i)
      else reg_lookup (sy_reg s') i = reg_lookup (sy_reg s) i"
proof -
  let ?kw = "rt_order (ke_runtime env) (map_keys (vm_by_sandbox is)) (sy_world s)"
  have d: "distinct (fst ?kw)" by (rule fair_order_distinct [OF fair vm_by_sandbox_distinct])
  have live: "i \<in> set (fst ?kw)" if "vm_live env (vm_matches i is) \<noteq> []" for i
  proof -
    have "map_of (vm_by_sandbox is) i \<noteq> None"
      using that vm_live_Nil [OF srt] by (auto simp: vm_by_sandbox_lookup)
    then have "i \<in> set (map_keys (vm_by_sandbox is))" by (simp add: map_keys_def map_of_eq_None_iff)
    then show ?thesis using fair_order_set [OF fair] by blast
  qed
  note G = kv_groups_run [OF srt d run [unfolded kv_poll_listed_def run_order_of]]
  show "i \<in> set seen \<longleftrightarrow> vm_live env (vm_matches i is) \<noteq> []" using G live by auto
  show "if vm_live env (vm_matches i is) \<noteq> []
      then kv_tracked (reg_lookup (sy_reg s) i) (kv_kept env (vm_matches i is)) (reg_lookup (sy_reg s') i)
      else reg_lookup (sy_reg s') i = reg_lookup (sy_reg s) i"
    using G live [of i] by (auto split: if_splits)
qed

section \<open>Missing and expired sandboxes\<close>

text \<open>What a poll makes of one record whose sandbox it did not see.\<close>

definition kv_missing_outcome :: "'w kv_env \<Rightarrow> bytestr list \<Rightarrow> srecord \<Rightarrow> srecord option \<Rightarrow> bool" where
  "kv_missing_outcome env seen rc v \<longleftrightarrow>
     (if r_instance_id rc = [] \<or> r_sandbox_id rc \<in> set seen then v = Some rc
      else
        (let n = wrap64 (r_missing_polls rc + 1); rc' = rc\<lparr>r_missing_polls := n\<rparr>
         in if n < kv_missing_poll_threshold then v = Some rc'
            else (\<exists>w. fst (ke_terminate env (r_instance_id rc) w) = None) \<and> v = None \<or>
                 (\<exists>w. fst (ke_terminate env (r_instance_id rc) w) \<noteq> None) \<and> v = Some rc'))"

lemma kv_missing_one_run:
  assumes "run (kv_missing_one env seen rc) s = (r, s')"
    and at: "reg_lookup (sy_reg s) (r_sandbox_id rc) = Some rc" "spec_redacted (r_spec rc)"
  shows "r = Inr () \<and> kv_missing_outcome env seen rc (reg_lookup (sy_reg s') (r_sandbox_id rc)) \<and>
    (\<forall>k. k \<noteq> r_sandbox_id rc \<longrightarrow> reg_lookup (sy_reg s') k = reg_lookup (sy_reg s) k)"
proof (cases "r_instance_id rc = [] \<or> r_sandbox_id rc \<in> set seen")
  case True
  with assms show ?thesis by (auto simp: kv_missing_one_def kv_missing_outcome_def split: if_splits)
next
  case False
  let ?i = "r_sandbox_id rc"
  let ?fn = "\<lambda>r. r\<lparr>r_missing_polls := wrap64 (r_missing_polls r + 1)\<rparr>"
  let ?rc = "?fn rc"
  have cl: "clone_record rc = rc" "clone_record ?rc = ?rc" using at(2) by (simp_all add: clone_record_id)
  have p: "kv_same_machine rc (clone_record rc)" by (simp add: kv_same_machine_def)
  note hit = reg.upd_hit [of "sy_reg s" ?i rc "kv_same_machine rc" ?fn, OF at(1) p, unfolded cl]
  let ?r1 = "snd (update_if ?i (kv_same_machine rc) ?fn (sy_reg s))"
  show ?thesis
  proof (cases "r_missing_polls ?rc \<ge> kv_missing_poll_threshold")
    case under: False
    then show ?thesis using assms(1) False hit
      by (auto simp: kv_missing_one_def kv_missing_outcome_def exec split_def Let_def)
  next
    case over: True
    let ?q = "\<lambda>c. kv_same_machine ?rc c \<and> r_missing_polls c \<ge> kv_missing_poll_threshold"
    have at1: "reg_lookup ?r1 ?i = Some ?rc" using hit by simp
    have "?q (clone_record ?rc)" using over unfolding cl by (simp add: kv_same_machine_def)
    note del = reg.del_hit [of ?r1 ?i ?rc ?q, OF at1 this]
    let ?t = "ke_terminate env (r_instance_id rc) (sy_world s)"
    show ?thesis
    proof (cases "fst ?t")
      case None
      then show ?thesis using assms(1) False hit over del
        by (auto simp: kv_missing_one_def kv_missing_outcome_def exec split_def Let_def broadcast_deleted_def)
    next
      case (Some e)
      then show ?thesis using assms(1) False hit over
        by (auto simp: kv_missing_one_def kv_missing_outcome_def exec split_def Let_def)
    qed
  qed
qed

lemma kv_poll_missing_run:
  assumes "reg_ok (sy_reg s)" and "fair_order (ke_runtime env)"
    and "run (kv_poll_missing env seen) s = (r, s')"
  shows "r = Inr ()"
    and "case reg_lookup (sy_reg s) k of
      None \<Rightarrow> reg_lookup (sy_reg s') k = None
    | Some rc \<Rightarrow> kv_missing_outcome env seen rc (reg_lookup (sy_reg s') k)"
proof -
  note P = snapshot_pass_run [where body = "kv_missing_one env seen" and sel = all_records
      and P = "kv_missing_outcome env seen",
      OF kv_missing_one_run assms(1,2) all_selection assms(3) [unfolded kv_poll_missing_def]]
  show "r = Inr ()" by (rule P(1))
  show "case reg_lookup (sy_reg s) k of
      None \<Rightarrow> reg_lookup (sy_reg s') k = None
    | Some rc \<Rightarrow> kv_missing_outcome env seen rc (reg_lookup (sy_reg s') k)"
    using P(2) [of k] by (cases "reg_lookup (sy_reg s) k") simp_all
qed

definition kv_expire_outcome :: "'w kv_env \<Rightarrow> srecord \<Rightarrow> srecord option \<Rightarrow> bool" where
  "kv_expire_outcome env rc v \<longleftrightarrow>
     (if r_instance_id rc = [] \<or> r_state rc = ''deleting'' then v = Some rc
      else (\<exists>t w. fst (ke_terminate env (r_instance_id rc) w) = None \<and>
              v = Some (clone_record (kv_mark ''deleting'' t rc))) \<or>
           (\<exists>w. fst (ke_terminate env (r_instance_id rc) w) \<noteq> None \<and> v = Some rc))"

lemma kv_expire_one_run:
  assumes "run (kv_expire_one env rc) s = (r, s')"
    and at: "reg_lookup (sy_reg s) (r_sandbox_id rc) = Some rc" "spec_redacted (r_spec rc)"
  shows "r = Inr () \<and> kv_expire_outcome env rc (reg_lookup (sy_reg s') (r_sandbox_id rc)) \<and>
    (\<forall>k. k \<noteq> r_sandbox_id rc \<longrightarrow> reg_lookup (sy_reg s') k = reg_lookup (sy_reg s) k)"
proof (cases "r_instance_id rc = [] \<or> r_state rc = ''deleting''")
  case True
  with assms show ?thesis by (auto simp: kv_expire_one_def kv_expire_outcome_def split: if_splits)
next
  case False
  let ?tw = "ke_terminate env (r_instance_id rc) (sy_world s)"
  let ?now = "fst (rt_now (ke_runtime env) (snd ?tw))"
  have p: "kv_same_machine rc (clone_record rc)" by (simp add: kv_same_machine_def)
  note hit = reg.upd_hit [of "sy_reg s" "r_sandbox_id rc" rc "kv_same_machine rc" "kv_mark ''deleting'' ?now",
      OF at(1) p]
  show ?thesis
  proof (cases "fst ?tw")
    case None
    then show ?thesis using assms(1) False hit
      by (auto simp: kv_expire_one_def kv_expire_outcome_def exec split_def Let_def broadcast_sandbox_def)
  next
    case (Some e)
    then show ?thesis using assms(1) False at(1)
      by (auto simp: kv_expire_one_def kv_expire_outcome_def exec split_def Let_def)
  qed
qed

lemma kv_poll_expired_run:
  assumes "reg_ok (sy_reg s)" and "fair_order (ke_runtime env)"
    and "run (kv_poll_expired env) s = (r, s')"
  defines "now \<equiv> fst (rt_now (ke_runtime env) (sy_world s))"
    and "age \<equiv> effective_max_age (reg_limits (sy_reg s))"
  shows "r = Inr ()"
    and "case reg_lookup (sy_reg s) k of
      None \<Rightarrow> reg_lookup (sy_reg s') k = None
    | Some rc \<Rightarrow>
        if is_expired age now rc then kv_expire_outcome env rc (reg_lookup (sy_reg s') k)
        else reg_lookup (sy_reg s') k = Some rc"
proof -
  let ?s1 = "s\<lparr>sy_world := snd (rt_now (ke_runtime env) (sy_world s))\<rparr>"
  have ok: "reg_ok (sy_reg ?s1)" using assms(1) by simp
  have run: "run (act (with_keys (ke_runtime env) (\<lambda>ks. read_op (expired_records now ks)))
      (\<lambda>recs. for_each recs (\<lambda>rc _. kv_expire_one env rc) ())) ?s1 = (r, s')"
    using assms(3) by (simp add: kv_poll_expired_def run_now_of now_def)
  have sel: "expired_records now ks (sy_reg ?s1) = filter (is_expired age now) (all_records ks (sy_reg ?s1))" for ks
    by (simp add: expired_selection age_def)
  note P = snapshot_pass_run [where body = "kv_expire_one env" and sel = "expired_records now"
      and P = "kv_expire_outcome env" and Q = "is_expired age now",
      OF kv_expire_one_run ok assms(2) sel run]
  show "r = Inr ()" by (rule P(1))
  show "case reg_lookup (sy_reg s) k of
      None \<Rightarrow> reg_lookup (sy_reg s') k = None
    | Some rc \<Rightarrow>
        if is_expired age now rc then kv_expire_outcome env rc (reg_lookup (sy_reg s') k)
        else reg_lookup (sy_reg s') k = Some rc"
    using P(2) [of k] by simp
qed


section \<open>The whole poll\<close>

lemma kv_expire_keeps:
  "kv_expire_outcome env rc v \<Longrightarrow> \<exists>rc'. v = Some rc' \<and> r_instance_id rc' = r_instance_id rc \<and>
     r_missing_polls rc' = r_missing_polls rc \<and> r_state rc' \<in> {r_state rc, ''deleting''} \<and>
     (r_instance_id rc = [] \<longrightarrow> rc' = rc)"
  by (auto simp: kv_expire_outcome_def kv_mark_def split: if_splits)

abbreviation kv_everything :: "'w kv_env \<Rightarrow> vm_filter" where
  "kv_everything env \<equiv>
     \<lparr>vf_gateway_id = k_gateway_id (ke_config env), vf_sandbox_id = [], vf_name = []\<rparr>"

lemma kv_poll_passes:
  assumes "run (kv_poll env) s = (None, s')"
    and "fst (ke_list env (kv_everything env) (sy_world s)) = Inr is"
  shows "\<exists>w seen s1 s2. run (kv_poll_listed env (vm_by_sandbox is)) (s\<lparr>sy_world := w\<rparr>) = (Inr seen, s1) \<and>
    run (kv_poll_missing env seen) s1 = (Inr (), s2) \<and> run (kv_poll_expired env) s2 = (Inr (), s')"
proof -
  let ?s0 = "s\<lparr>sy_world := snd (ke_list env (kv_everything env) (sy_world s))\<rparr>"
  obtain r1 s1 where r1: "run (kv_poll_listed env (vm_by_sandbox is)) ?s0 = (r1, s1)" by fastforce
  then obtain seen where seen: "r1 = Inr seen"
    using assms by (cases r1) (auto simp: kv_poll_def exec)
  obtain r2 s2 where r2: "run (kv_poll_missing env seen) s1 = (r2, s2)" by fastforce
  then have r2u: "r2 = Inr ()"
    using assms r1 seen by (cases r2) (auto simp: kv_poll_def exec)
  obtain r3 s3 where r3: "run (kv_poll_expired env) s2 = (r3, s3)" by fastforce
  then have "r3 = Inr () \<and> s3 = s'"
    using assms r1 seen r2 r2u by (cases r3) (auto simp: kv_poll_def exec)
  with r1 seen r2 r2u r3 show ?thesis by blast
qed

lemma kv_poll_succeeds:
  assumes "core_inv (sy_reg s)" and "fair_order (ke_runtime env)"
    and "ke_list env (kv_everything env) (sy_world s) = (Inr is, w)"
    and "fst (run (kv_poll_listed env (vm_by_sandbox is)) (s\<lparr>sy_world := w\<rparr>)) = Inr seen"
  shows "fst (run (kv_poll env) s) = None"
proof -
  obtain s1 where s1: "run (kv_poll_listed env (vm_by_sandbox is)) (s\<lparr>sy_world := w\<rparr>) = (Inr seen, s1)"
    using assms(4) by (metis prod.collapse)
  have i0: "in_reg core_inv (s\<lparr>sy_world := w\<rparr>)" using assms(1) by (simp add: in_reg_def)
  have i1: "in_reg core_inv s1"
    using preserves_run [OF kv_poll_listed_preserves i0, of env "vm_by_sandbox is"] s1 by simp
  obtain r2 s2 where s2: "run (kv_poll_missing env seen) s1 = (r2, s2)" by fastforce
  have i2: "in_reg core_inv s2" using preserves_run [OF kv_poll_missing_preserves i1, of env seen] s2 by simp
  have ok: "reg_ok (sy_reg s1)" "reg_ok (sy_reg s2)" using i1 i2 by (simp_all add: in_reg_def core_inv_def)
  obtain r3 s3 where s3: "run (kv_poll_expired env) s2 = (r3, s3)" by fastforce
  have "r2 = Inr ()" by (rule kv_poll_missing_run(1) [OF ok(1) assms(2) s2])
  moreover have "r3 = Inr ()" by (rule kv_poll_expired_run(1) [OF ok(2) assms(2) s3])
  ultimately show ?thesis using assms(3) s1 s2 s3 by (simp add: kv_poll_def exec)
qed

lemma kv_poll_run:
  assumes srt: "vm_sorter (ke_sort_vms env)" and fair: "fair_order (ke_runtime env)"
    and inv: "core_inv (sy_reg s)" and run: "run (kv_poll env) s = (None, s')"
    and listed: "fst (ke_list env (kv_everything env) (sy_world s)) = Inr is"
  shows "if vm_live env (vm_matches i is) \<noteq> []
    then (let m = kv_kept env (vm_matches i is)
          in \<exists>rc. reg_lookup (sy_reg s') i = Some rc \<and> r_instance_id rc = v_vm_name m \<and>
               r_missing_polls rc = 0 \<and> r_state rc \<in> {polled_state (reg_lookup (sy_reg s) i) m, ''deleting''})
    else (case reg_lookup (sy_reg s) i of
            None \<Rightarrow> reg_lookup (sy_reg s') i = None
          | Some rc \<Rightarrow>
              if r_instance_id rc = [] then reg_lookup (sy_reg s') i = Some rc
              else (let n = wrap64 (r_missing_polls rc + 1)
                in n \<ge> 3 \<and> (\<exists>w. fst (ke_terminate env (r_instance_id rc) w) = None) \<and>
                     reg_lookup (sy_reg s') i = None \<or>
                   (n < 3 \<or> (\<exists>w. fst (ke_terminate env (r_instance_id rc) w) \<noteq> None)) \<and>
                     (\<exists>rc'. reg_lookup (sy_reg s') i = Some rc' \<and>
                        r_instance_id rc' = r_instance_id rc \<and> r_missing_polls rc' = n)))"
proof -
  obtain w seen s1 s2 where p: "run (kv_poll_listed env (vm_by_sandbox is)) (s\<lparr>sy_world := w\<rparr>) = (Inr seen, s1)"
    "run (kv_poll_missing env seen) s1 = (Inr (), s2)" "run (kv_poll_expired env) s2 = (Inr (), s')"
    using kv_poll_passes [OF run listed] by blast
  have i0: "in_reg core_inv (s\<lparr>sy_world := w\<rparr>)" using inv by (simp add: in_reg_def)
  have i1: "in_reg core_inv s1"
    using preserves_run [OF kv_poll_listed_preserves i0, of env "vm_by_sandbox is"] p(1) by simp
  have i2: "in_reg core_inv s2" using preserves_run [OF kv_poll_missing_preserves i1, of env seen] p(2) by simp
  have ok: "reg_ok (sy_reg s1)" "reg_ok (sy_reg s2)" using i1 i2 by (simp_all add: in_reg_def core_inv_def)
  note L = kv_poll_listed_run [OF srt fair p(1), of i, simplified]
  note M = kv_poll_missing_run(2) [OF ok(1) fair p(2), of i]
  note E = kv_poll_expired_run(2) [OF ok(2) fair p(3), of i]
  have E': "\<exists>rc'. reg_lookup (sy_reg s') i = Some rc' \<and> r_instance_id rc' = r_instance_id rc \<and>
      r_missing_polls rc' = r_missing_polls rc \<and> r_state rc' \<in> {r_state rc, ''deleting''} \<and>
      (r_instance_id rc = [] \<longrightarrow> rc' = rc)" if "reg_lookup (sy_reg s2) i = Some rc" for rc
    using E that kv_expire_keeps [of env rc] by (auto split: if_splits)
  show ?thesis
  proof (cases "vm_live env (vm_matches i is) \<noteq> []")
    case True
    let ?m = "kv_kept env (vm_matches i is)"
    obtain rc where rc: "reg_lookup (sy_reg s1) i = Some rc" "r_instance_id rc = v_vm_name ?m"
      "r_missing_polls rc = 0" "r_state rc = polled_state (reg_lookup (sy_reg s) i) ?m"
      using L(2) True by (auto simp: kv_tracked_def)
    have "r_sandbox_id rc \<in> set seen" using L(1) True reg_okD [OF ok(1) rc(1)] by simp
    then have "reg_lookup (sy_reg s2) i = Some rc" using M rc(1) by (simp add: kv_missing_outcome_def)
    from E' [OF this] rc True show ?thesis by (auto simp: Let_def)
  next
    case False
    have s1: "reg_lookup (sy_reg s1) i = reg_lookup (sy_reg s) i" using L(2) False by simp
    show ?thesis
    proof (cases "reg_lookup (sy_reg s) i")
      case None
      then have "reg_lookup (sy_reg s2) i = None" using M s1 by simp
      then show ?thesis using E False None by simp
    next
      case (Some rc)
      have ns: "r_sandbox_id rc \<notin> set seen" using L(1) False reg_okD [OF ok(1)] s1 Some by simp
      have M': "kv_missing_outcome env seen rc (reg_lookup (sy_reg s2) i)" using M s1 Some by simp
      show ?thesis
      proof (cases "reg_lookup (sy_reg s2) i")
        case None
        then have "reg_lookup (sy_reg s') i = None" using E by simp
        then show ?thesis using M' None False Some ns
          by (auto simp: kv_missing_outcome_def kv_missing_poll_threshold_def Let_def split: if_splits)
      next
        case (Some rc2)
        from E' [OF this] show ?thesis
          using M' Some False \<open>reg_lookup (sy_reg s) i = Some rc\<close> ns
          by (auto simp: kv_missing_outcome_def kv_missing_poll_threshold_def Let_def split: if_splits)
      qed
    qed
  qed
qed

end
