(* ===== verification/Ec2Props.thy ===== *)
theory Ec2Props
  imports Ec2Watcher Passes
begin

text \<open>
  What the EC2 driver's operations do when nothing else runs between their steps: the
  outcomes of a creation, the effect of a poll on each record, the retirement of
  missing sandboxes and the termination of expired ones.
\<close>

section \<open>Creation\<close>

lemma fail_run:
  "\<exists>st. fst (run (ec2_fail env e) s) = Inl st \<and> sy_reg (snd (run (ec2_fail env e) s)) = sy_reg s"
  by (simp add: ec2_fail_def exec)

lemma fail_run_reg [simp]: "sy_reg (snd (run (ec2_fail env e) s)) = sy_reg s"
  by (simp add: ec2_fail_def exec)

lemma validate_run_reg [simp]: "sy_reg (snd (run (ec2_validate env sbo) s)) = sy_reg s"
  by (simp add: ec2_validate_def order_of_def exec)

text \<open>After the reservation: rolled back and the registry as before, or committed.\<close>

lemma create_reserved_run:
  assumes "run (ec2_create_reserved env sb ty t) s = ((res, rb), s')"
    and "reg_lookup (sy_reg s) (sb_id sb) = Some rc"
  shows "(rb \<and> (\<exists>st. res = Inl st) \<and> sy_reg s' = sy_reg s) \<or>
    (\<not> rb \<and> res = Inr () \<and>
     (\<exists>spec w i. fst (ee_launch env spec w) = Inr i \<and> ls_created_at spec = t \<and>
        ls_sandbox_id spec = sb_id sb \<and> ls_instance_type spec = ty \<and>
        reg_lookup (sy_reg s') = (reg_lookup (sy_reg s))(sb_id sb \<mapsto>
          clone_record (ec2_commit (if i_state i = [] then i\<lparr>i_state := ''pending''\<rparr> else i) t rc))))"
proof -
  let ?r = "sy_reg s"
  let ?life = "max_lifetime_string ?r"
  let ?ow = "rt_order (ee_runtime env) sec_keys (sy_world s)"
  let ?s1 = "s\<lparr>sy_world := snd ?ow\<rparr>"
  let ?ud = "render_user_data (ee_transport_lib env) (ee_print_table env) (fst ?ow)
      (ec2_user_data_params env sb ?life)"
  show ?thesis
  proof (cases ?ud)
    case (Inl e)
    with assms(1) show ?thesis
      by (auto simp: ec2_create_reserved_def order_of_def exec)
  next
    case (Inr ud)
    let ?spec = "ec2_launch_spec env sb ty ud t ?life"
    let ?lw = "ee_launch env ?spec (snd ?ow)"
    have sp: "ls_created_at ?spec = t" "ls_sandbox_id ?spec = sb_id sb" "ls_instance_type ?spec = ty"
      by (simp_all add: ec2_launch_spec_def Let_def)
    show ?thesis
    proof (cases "fst ?lw")
      case (Inl e)
      with assms(1) Inr fail_run [of env e "s\<lparr>sy_world := snd ?lw\<rparr>"] show ?thesis
        by (auto simp: ec2_create_reserved_def order_of_def exec split_def)
    next
      case (Inr i)
      let ?i = "if i_state i = [] then i\<lparr>i_state := ''pending''\<rparr> else i"
      note hit = update_record_hit [OF assms(2), of "ec2_commit ?i t"]
      have "res = Inr () \<and> \<not> rb \<and>
          reg_lookup (sy_reg s') = (reg_lookup ?r)(sb_id sb \<mapsto> clone_record (ec2_commit ?i t rc))"
        using assms(1) Inr \<open>?ud = Inr ud\<close> hit
        by (auto simp: ec2_create_reserved_def order_of_def exec Let_def split_def
            broadcast_sandbox_def)
      with Inr sp show ?thesis by blast
    qed
  qed
qed

text \<open>A refused reservation changes nothing; a granted one adds the record.\<close>

lemma reserve_refused: "reserve rc r = (Some e, r') \<Longrightarrow> r' = r"
  by (auto simp: reserve_def split: prod.splits sum.splits dest: reg.rsv_err)

lemma reserve_granted:
  assumes "reserve rc r = (None, r')"
  shows "reg_lookup r (r_sandbox_id rc) = None"
    and "int (length (reg_records r)) < effective_max_instances (reg_limits r)"
    and "\<exists>l. reg_lookup r' = (reg_lookup r)(r_sandbox_id rc \<mapsto> clone_record (rc\<lparr>r_lease := l\<rparr>))"
proof -
  obtain l where l: "reserve_with_lease rc r = (Inr l, r')"
    using assms by (auto simp: reserve_def split: prod.splits sum.splits)
  show "reg_lookup r (r_sandbox_id rc) = None" using reg.rsv_ok [OF l] by simp
  show "int (length (reg_records r)) < effective_max_instances (reg_limits r)"
    using l by (auto simp: reserve_with_lease_def Let_def split: if_splits)
  show "\<exists>l. reg_lookup r' = (reg_lookup r)(r_sandbox_id rc \<mapsto> clone_record (rc\<lparr>r_lease := l\<rparr>))"
    using reg.rsv_ok [OF l] by blast
qed

lemma launching_record [simp]:
  "r_sandbox_id (ec2_launching_record sb t) = sb_id sb"
  "r_instance_id (ec2_launching_record sb t) = []"
  "r_name (ec2_launching_record sb t) = sb_name sb"
  "r_spec (ec2_launching_record sb t) = sb_spec sb"
  by (simp_all add: ec2_launching_record_def zero_record_def)

definition ec2_created :: "'w ec2_env \<Rightarrow> driver_sandbox \<Rightarrow> registry \<Rightarrow> registry \<Rightarrow> bool" where
  "ec2_created env sb r r' \<longleftrightarrow>
     reg_lookup r (sb_id sb) = None \<and>
     int (length (reg_records r)) < effective_max_instances (reg_limits r) \<and>
     (\<exists>spec w i rc. fst (ee_launch env spec w) = Inr i \<and> ls_sandbox_id spec = sb_id sb \<and>
        ec2_select_instance_type (ee_sort env) (sandbox_resources sb)
          (e_default_instance (ee_config env)) = Inr (ls_instance_type spec) \<and>
        reg_lookup r' = (reg_lookup r)(sb_id sb \<mapsto> rc) \<and> r_sandbox_id rc = sb_id sb \<and>
        r_instance_id rc = i_id i \<and> r_created_at rc = i_created_at i \<and>
        r_state rc = (if i_state i = [] then ''pending'' else i_state i) \<and>
        r_spec rc = clone_redacted_spec (sb_spec sb))"

lemma create_after_reserve:
  assumes "run (call (ec2_create_reserved env sb ty t) (\<lambda>(res, rb).
        if rb then act (on_reg (unit_op (rollback (sb_id sb)))) (\<lambda>_. Ret res) else Ret res)) s1 = (res, s')"
    and rsv: "reserve (ec2_launching_record sb t) r = (None, sy_reg s1)"
    and ty: "ec2_select_instance_type (ee_sort env) (sandbox_resources sb)
      (e_default_instance (ee_config env)) = Inr ty"
  shows "(\<exists>st. res = Inl st) \<and> reg_lookup (sy_reg s') = reg_lookup r \<or>
    res = Inr () \<and> ec2_created env sb r (sy_reg s')"
proof -
  obtain res1 rb s2 where b: "run (ec2_create_reserved env sb ty t) s1 = ((res1, rb), s2)"
    by (metis surj_pair)
  from reserve_granted [OF rsv] obtain l where g: "reg_lookup r (sb_id sb) = None"
    "int (length (reg_records r)) < effective_max_instances (reg_limits r)"
    "reg_lookup (sy_reg s1) = (reg_lookup r)(sb_id sb \<mapsto> clone_record ((ec2_launching_record sb t)\<lparr>r_lease := l\<rparr>))"
    by auto
  let ?rc = "clone_record ((ec2_launching_record sb t)\<lparr>r_lease := l\<rparr>)"
  have at: "reg_lookup (sy_reg s1) (sb_id sb) = Some ?rc" by (simp add: g(3))
  from create_reserved_run [OF b at] show ?thesis
  proof
    assume a: "rb \<and> (\<exists>st. res1 = Inl st) \<and> sy_reg s2 = sy_reg s1"
    then have "res = res1" "sy_reg s' = rollback (sb_id sb) (sy_reg s1)"
      using assms(1) b by (auto simp: run_call exec)
    then show ?thesis using a g by (simp add: rollback_lookup fun_upd_idem)
  next
    assume a: "\<not> rb \<and> res1 = Inr () \<and> (\<exists>spec w i. fst (ee_launch env spec w) = Inr i \<and>
        ls_created_at spec = t \<and> ls_sandbox_id spec = sb_id sb \<and> ls_instance_type spec = ty \<and>
        reg_lookup (sy_reg s2) = (reg_lookup (sy_reg s1))(sb_id sb \<mapsto> clone_record
          (ec2_commit (if i_state i = [] then i\<lparr>i_state := ''pending''\<rparr> else i) t ?rc)))"
    then obtain spec w i where l: "fst (ee_launch env spec w) = Inr i" "ls_sandbox_id spec = sb_id sb"
      "ls_instance_type spec = ty" "reg_lookup (sy_reg s2) = (reg_lookup (sy_reg s1))(sb_id sb \<mapsto> clone_record
          (ec2_commit (if i_state i = [] then i\<lparr>i_state := ''pending''\<rparr> else i) t ?rc))" by blast
    have s2: "res = Inr ()" "s' = s2" using assms(1) b a by (auto simp: run_call exec)
    let ?new = "clone_record (ec2_commit (if i_state i = [] then i\<lparr>i_state := ''pending''\<rparr> else i) t ?rc)"
    have "reg_lookup (sy_reg s') = (reg_lookup r)(sb_id sb \<mapsto> ?new)" using s2 l(4) g(3) by simp
    moreover have "r_sandbox_id ?new = sb_id sb" "r_instance_id ?new = i_id i"
      "r_created_at ?new = i_created_at i"
      "r_state ?new = (if i_state i = [] then ''pending'' else i_state i)"
      "r_spec ?new = clone_redacted_spec (sb_spec sb)"
      by (simp_all add: ec2_commit_def)
    ultimately have "ec2_created env sb r (sy_reg s')"
      unfolding ec2_created_def using l(1,2) g(1,2) ty [folded l(3)]
      by (intro conjI exI [of _ spec] exI [of _ w] exI [of _ i] exI [of _ ?new])
    then show ?thesis using s2 by blast
  qed
qed

lemma ec2_create_outcome_core:
  assumes "run (ec2_create_sandbox env sbo) s = (res, s')"
  shows "(\<exists>st. res = Inl st) \<and> reg_lookup (sy_reg s') = reg_lookup (sy_reg s) \<or>
    (\<exists>sb. sbo = Some sb \<and> res = Inr () \<and> ec2_created env sb (sy_reg s) (sy_reg s'))"
proof -
  obtain v s0 where v: "run (ec2_validate env sbo) s = (v, s0)" by fastforce
  have r0: "sy_reg s0 = sy_reg s" using validate_run_reg [of env sbo s] v by simp
  show ?thesis
  proof (cases "\<exists>st. v = Inl st \<or> sbo = None")
    case True
    then show ?thesis using assms v r0
      by (auto simp: ec2_create_sandbox_def run_call split: sum.splits)
  next
    case False
    then obtain sb where sb: "sbo = Some sb" "v = Inr ()" by (cases v) auto
    show ?thesis
    proof (cases "ec2_select_instance_type (ee_sort env) (sandbox_resources sb) (e_default_instance (ee_config env))")
      case (Inl e)
      then show ?thesis using assms v r0 sb by (auto simp: ec2_create_sandbox_def run_call)
    next
      case (Inr ty)
      let ?nw = "rt_now (ee_runtime env) (sy_world s0)"
      let ?t = "fst ?nw"
      obtain err r1 where rv: "reserve (ec2_launching_record sb ?t) (sy_reg s) = (err, r1)" by fastforce
      show ?thesis
      proof (cases err)
        case (Some e)
        then show ?thesis using assms v r0 sb Inr rv reserve_refused [OF rv [unfolded Some]]
          by (auto simp: ec2_create_sandbox_def run_call run_now_of run_on_reg)
      next
        case None
        let ?s1 = "s0\<lparr>sy_world := snd ?nw, sy_reg := r1\<rparr>"
        have "run (call (ec2_create_reserved env sb ty ?t) (\<lambda>(res, rb).
            if rb then act (on_reg (unit_op (rollback (sb_id sb)))) (\<lambda>_. Ret res) else Ret res)) ?s1 = (res, s')"
          using assms v r0 sb Inr rv None
          by (simp add: ec2_create_sandbox_def run_call [of "ec2_validate env (Some sb)"] run_now_of run_on_reg)
        from create_after_reserve [OF this _ Inr] show ?thesis using rv None sb by simp
      qed
    qed
  qed
qed

lemma poll_sandbox_keeps:
  assumes "\<forall>x \<in> set (ee_sort_instances env older ms). i_sandbox_id x = i" and "i \<noteq> k"
  shows "preserves (in_reg (keeps k v)) (ec2_poll_sandbox env i ms)"
proof -
  have rec: "preserves (in_reg (keeps k v)) (ec2_reconcile env i x)" if "i_sandbox_id x = i" for x
    unfolding ec2_reconcile_def ec2_recover_def Let_def
    by (intro inv_intro) (use assms(2) that in \<open>auto simp: keeps_def op_defs\<close>)
  show ?thesis unfolding ec2_poll_sandbox_def
    by (intro inv_intro rec) (use assms(1) in auto)
qed

section \<open>What a poll makes of one sandbox\<close>

definition tracked :: "ec2_inst \<Rightarrow> registry \<Rightarrow> bool" where
  "tracked inst r \<longleftrightarrow>
     (\<exists>rc. reg_lookup r (i_sandbox_id inst) = Some rc \<and> r_instance_id rc = i_id inst \<and>
        r_state rc = i_state inst \<and> r_missing_polls rc = 0)"

text \<open>
  The creation time a recovery settles on, when it starts in the world \<open>w\<close>: the listed one,
  unless it is unknown or more than five minutes ahead of the clock.
\<close>

definition trusted_at :: "'w ec2_env \<Rightarrow> time \<Rightarrow> 'w \<Rightarrow> bool" where
  "trusted_at env c w \<longleftrightarrow> \<not> is_zero c \<and> c \<le> fst (rt_now (ee_runtime env) w) + 5 * minute"

definition distrusted_at :: "'w ec2_env \<Rightarrow> time \<Rightarrow> 'w \<Rightarrow> time" where
  "distrusted_at env c w =
     fst (rt_now (ee_runtime env) (if is_zero c then w else snd (rt_now (ee_runtime env) w)))"

lemma trust_run:
  "\<exists>w. run (ec2_trust_created_at env c k) s =
     run (k (if trusted_at env c (sy_world s) then c
             else fail_closed_created_at (ee_config env) (distrusted_at env c (sy_world s))))
       (s\<lparr>sy_world := w\<rparr>)"
  by (cases "is_zero c"; cases "c > fst (rt_now (ee_runtime env) (sy_world s)) + 5 * minute")
    (auto simp: ec2_trust_created_at_def exec Let_def trusted_at_def distrusted_at_def)

lemma recover_run:
  assumes "run (ec2_recover env i inst) s = (Inr (), s')"
  defines "w \<equiv> snd (rt_now (ee_runtime env) (sy_world s))"
  shows "\<exists>rc. reg_lookup (sy_reg s') (i_sandbox_id inst) = Some rc \<and> r_instance_id rc = i_id inst \<and>
    r_state rc = i_state inst \<and> r_missing_polls rc = 0 \<and>
    r_created_at rc = (if trusted_at env (i_created_at inst) w then i_created_at inst
      else fail_closed_created_at (ee_config env) (distrusted_at env (i_created_at inst) w))"
proof -
  let ?now = "fst (rt_now (ee_runtime env) (sy_world s))"
  let ?s1 = "s\<lparr>sy_world := w\<rparr>"
  let ?k = "\<lambda>created. act (on_reg (add_record (Some ((ec2_record_from_instance ?now inst)\<lparr>r_created_at := created\<rparr>))))
      (\<lambda>err. case err of
         Some e \<Rightarrow> Ret (Inl (ErrWrap ''track recovered sandbox %s: %w'' [AStr i] e))
       | None \<Rightarrow> act (on_reg (unit_op (broadcast_sandbox
           ((ec2_record_from_instance ?now inst)\<lparr>r_created_at := created\<rparr>)))) (\<lambda>_. Ret (Inr ())))"
  let ?t = "if trusted_at env (i_created_at inst) w then i_created_at inst
      else fail_closed_created_at (ee_config env) (distrusted_at env (i_created_at inst) w)"
  have r: "run (ec2_trust_created_at env (i_created_at inst) ?k) ?s1 = (Inr (), s')"
    using assms(1) unfolding w_def by (simp add: ec2_recover_def exec Let_def)
  have y: "sy_world ?s1 = w" by simp
  obtain w2 where t: "run (ec2_trust_created_at env (i_created_at inst) ?k) ?s1 =
      run (?k ?t) (?s1\<lparr>sy_world := w2\<rparr>)"
    using trust_run [of env "i_created_at inst" ?k ?s1] unfolding y by blast
  let ?rc = "(ec2_record_from_instance ?now inst)\<lparr>r_created_at := ?t\<rparr>"
  have run: "run (?k ?t) (?s1\<lparr>sy_world := w2\<rparr>) = (Inr (), s')" using r t by simp
  have none: "fst (add_record (Some ?rc) (sy_reg s)) = None"
    using run by (cases "fst (add_record (Some ?rc) (sy_reg s))") (simp_all add: exec)
  then have s': "sy_reg s' = broadcast_sandbox ?rc (snd (add_record (Some ?rc) (sy_reg s)))"
    using run by (auto simp: exec)
  have "reg_lookup (sy_reg s) (i_sandbox_id inst) = None" using none by (simp add: add_error)
  then have "reg_lookup (sy_reg s') (i_sandbox_id inst) =
      Some (clone_record (?rc\<lparr>r_lease := reg_next_lease (sy_reg s) + 1\<rparr>))"
    by (simp add: s' broadcast_sandbox_def add_lookup)
  then show ?thesis by auto
qed

lemma refresh_fields [simp]:
  "r_instance_id (ec2_refresh inst t rc) = i_id inst"
  "r_state (ec2_refresh inst t rc) = i_state inst"
  "r_missing_polls (ec2_refresh inst t rc) = 0"
  by (simp_all add: ec2_refresh_def Let_def)

lemma reconcile_run:
  assumes "run (ec2_reconcile env i inst) s = (r, s')" and "i_sandbox_id inst = i"
  shows "(i_state inst = ''terminated'' \<longrightarrow> r = Inr () \<and> reg_lookup (sy_reg s') i = None) \<and>
    (i_state inst \<noteq> ''terminated'' \<and> r = Inr () \<longrightarrow> tracked inst (sy_reg s'))"
proof (cases "i_state inst = ''terminated''")
  case True
  have "run (ec2_reconcile env i inst) s =
      (if snd (fst (delete_record i (sy_reg s)))
       then (Inr (), s\<lparr>sy_reg := broadcast_deleted i (snd (delete_record i (sy_reg s)))\<rparr>)
       else (Inr (), s\<lparr>sy_reg := snd (delete_record i (sy_reg s))\<rparr>))"
    using True by (simp add: ec2_reconcile_def exec split_def)
  with assms(1) True show ?thesis by (auto simp: broadcast_deleted_def split: if_splits)
next
  case live: False
  show ?thesis
  proof (cases "reg_lookup (sy_reg s) i")
    case None
    then have "run (ec2_reconcile env i inst) s = run (ec2_recover env i inst) s"
      using live by (simp add: ec2_reconcile_def exec get_record_def)
    with assms live show ?thesis using recover_run [of env i inst s s'] by (auto simp: tracked_def)
  next
    case (Some rc)
    then show ?thesis
    proof (cases "r_state rc \<noteq> i_state inst \<or> r_instance_id rc \<noteq> i_id inst \<or> r_missing_polls rc \<noteq> 0")
      case True
      let ?t = "fst (rt_now (ee_runtime env) (sy_world s))"
      have "reg_lookup (sy_reg s') i = Some (clone_record (ec2_refresh inst ?t rc))"
        using assms(1) live Some True update_record_hit [OF Some, of "ec2_refresh inst ?t"]
        by (auto simp: ec2_reconcile_def exec get_record_def split_def broadcast_sandbox_def
            split: if_splits)
      with assms(2) live show ?thesis by (simp add: tracked_def)
    next
      case False
      with assms live Some show ?thesis
        by (auto simp: ec2_reconcile_def exec get_record_def tracked_def)
    qed
  qed
qed

text \<open>The instance a poll keeps: the oldest of the listed ones.\<close>

definition kept :: "'w ec2_env \<Rightarrow> ec2_inst list \<Rightarrow> ec2_inst" where
  "kept env ms = hd (ee_sort_instances env older ms)"

definition settled :: "'w ec2_env \<Rightarrow> bytestr \<Rightarrow> ec2_inst list \<Rightarrow> registry \<Rightarrow> bool" where
  "settled env i ms r \<longleftrightarrow>
     (if i_state (kept env ms) = ''terminated'' then reg_lookup r i = None else tracked (kept env ms) r)"

context instance_sorter begin

lemma kept_oldest:
  assumes "ee_sort_instances env = srt" and "ms \<noteq> []"
  shows "kept env ms \<in> set ms" and "\<forall>m \<in> set ms. \<not> older m (kept env ms)"
proof -
  obtain x ys where xs: "srt older ms = x # ys"
    using assms(2) sort_length [of ms] by (cases "srt older ms") auto
  have k: "kept env ms = x" by (simp add: kept_def assms(1) xs)
  note h = head_least [of ms x ys, OF _ xs]
  have irr: "\<not> older x x" using older_weak unfolding strict_weak_def by blast
  show "kept env ms \<in> set ms" using h(1) k by simp
  have "set ms = insert x (set ys)" using h(3) by (metis TrueI set_mset_add_mset_insert set_mset_mset)
  then show "\<forall>m \<in> set ms. \<not> older m (kept env ms)" using h(2) irr k by simp
qed

lemma poll_sandbox_run:
  assumes "run (ec2_poll_sandbox env i ms) s = (Inr (), s')"
    and srt: "ee_sort_instances env = srt" and ms: "ms \<noteq> []" "\<forall>m \<in> set ms. i_sandbox_id m = i"
  shows "settled env i ms (sy_reg s')"
    and "length ms > 1 \<Longrightarrow> \<exists>ds w'. ee_terminate env ds (sy_world s) = (None, w') \<and>
      set ds = i_id ` {m \<in> set (tl (srt older ms)). i_state m \<noteq> ''terminated''}"
proof -
  obtain x ys where xs: "srt older ms = x # ys"
    using ms(1) sort_length [of ms] by (cases "srt older ms") auto
  have k: "kept env ms = x" by (simp add: kept_def srt xs)
  have x: "i_sandbox_id x = i" using kept_oldest(1) [OF srt ms(1)] ms(2) k by simp
  have len: "length ms = Suc (length ys)" using sort_length [of ms] xs by simp
  let ?ds = "map i_id (filter (\<lambda>d. i_state d \<noteq> ''terminated'') ys)"
  let ?t = "ee_terminate env ?ds (sy_world s)"
  have split: "(ys = [] \<and> run (ec2_reconcile env i x) s = (Inr (), s')) \<or>
      (ys \<noteq> [] \<and> fst ?t = None \<and> run (ec2_reconcile env i x) (s\<lparr>sy_world := snd ?t\<rparr>) = (Inr (), s'))"
    using assms(1) by (auto simp: ec2_poll_sandbox_def srt xs exec split: option.splits if_splits)
  then obtain s0 where s0: "run (ec2_reconcile env i x) s0 = (Inr (), s')" by blast
  show "settled env i ms (sy_reg s')"
    using reconcile_run [OF s0 x] by (simp add: settled_def k)
  assume "length ms > 1"
  then have "ys \<noteq> []" using len by auto
  with split have "ee_terminate env ?ds (sy_world s) = (None, snd ?t)" by (metis prod.collapse)
  moreover have "set ?ds = i_id ` {m \<in> set (tl (srt older ms)). i_state m \<noteq> ''terminated''}"
    by (simp add: xs)
  ultimately show "\<exists>ds w'. ee_terminate env ds (sy_world s) = (None, w') \<and>
      set ds = i_id ` {m \<in> set (tl (srt older ms)). i_state m \<noteq> ''terminated''}" by blast
qed

text \<open>The first pass: every visited sandbox is settled, every other record untouched.\<close>

lemma poll_groups_run:
  assumes srt: "ee_sort_instances env = srt"
    and groups: "\<And>i ms. map_of groups i = Some ms \<Longrightarrow> ms \<noteq> [] \<and> (\<forall>m \<in> set ms. i_sandbox_id m = i)"
    and "distinct ks"
    and "run (for_each ks
         (\<lambda>i seen.
            case map_of groups i of
              None \<Rightarrow> Ret (Inr seen)
            | Some matches \<Rightarrow>
                call (ec2_poll_sandbox env i matches) (\<lambda>r.
                  case r of Inl e \<Rightarrow> Ret (Inl e) | Inr _ \<Rightarrow> Ret (Inr (i # seen)))) seen0) s = (Inr seen, s')"
  shows "set seen = set seen0 \<union> {i \<in> set ks. map_of groups i \<noteq> None} \<and>
    (\<forall>i \<in> set ks. \<forall>ms. map_of groups i = Some ms \<longrightarrow> settled env i ms (sy_reg s')) \<and>
    (\<forall>i. i \<notin> set ks \<or> map_of groups i = None \<longrightarrow>
       reg_lookup (sy_reg s') i = reg_lookup (sy_reg s) i)"
  using assms(3,4)
proof (induction ks arbitrary: seen0 s)
  case Nil
  then show ?case by simp
next
  case (Cons i ks)
  let ?body = "\<lambda>i seen. case map_of groups i of
              None \<Rightarrow> Ret (Inr seen)
            | Some matches \<Rightarrow>
                call (ec2_poll_sandbox env i matches) (\<lambda>r.
                  case r of Inl e \<Rightarrow> Ret (Inl e) | Inr _ \<Rightarrow> Ret (Inr (i # seen)))"
  show ?case
  proof (cases "map_of groups i")
    case None
    then have "run (for_each ks ?body seen0) s = (Inr seen, s')"
      using Cons.prems(2) by (simp add: run_call)
    from Cons.IH [OF _ this] Cons.prems(1) None show ?thesis by auto
  next
    case (Some ms)
    obtain res s1 where r1: "run (ec2_poll_sandbox env i ms) s = (res, s1)" by fastforce
    have res: "res = Inr ()" and rest: "run (for_each ks ?body (i # seen0)) s1 = (Inr seen, s')"
      using Cons.prems(2) Some r1 by (auto simp: run_call split: sum.splits)
    have ms: "ms \<noteq> []" "\<forall>m \<in> set ms. i_sandbox_id m = i" using groups [OF Some] by auto
    have st: "settled env i ms (sy_reg s1)" using poll_sandbox_run(1) r1 res srt ms by blast
    have frame: "reg_lookup (sy_reg s1) k = reg_lookup (sy_reg s) k" if "k \<noteq> i" for k
    proof -
      have "preserves (in_reg (keeps k (reg_lookup (sy_reg s) k))) (ec2_poll_sandbox env i ms)"
        by (rule poll_sandbox_keeps) (use srt ms(2) that in auto)
      from keeps_run [OF this] show ?thesis using r1 by simp
    qed
    note IH = Cons.IH [OF _ rest]
    have i: "i \<notin> set ks" "distinct ks" using Cons.prems(1) by auto
    have "reg_lookup (sy_reg s') i = reg_lookup (sy_reg s1) i" using IH i by blast
    moreover have "i_sandbox_id (kept env ms) = i" using kept_oldest(1) [OF srt ms(1)] ms(2) by blast
    ultimately have "settled env i ms (sy_reg s')" using st by (auto simp: settled_def tracked_def)
    moreover have "reg_lookup (sy_reg s1) k = reg_lookup (sy_reg s) k" if "map_of groups k = None" for k
      using frame [of k] that Some by (cases "k = i") auto
    ultimately show ?thesis using IH i(2) frame Some by auto
  qed
qed

end

text \<open>The groups of the listing.\<close>

lemma add_to_group_fold:
  "add_to_group = (\<lambda>x m. if i_sandbox_id x = [] then m
     else AList.update (i_sandbox_id x)
       ((case map_of m (i_sandbox_id x) of None \<Rightarrow> [] | Some l \<Rightarrow> l) @ [x]) m)"
  by (intro ext) (simp add: add_to_group_def)

lemma by_sandbox_lookup:
  "map_of (by_sandbox is) i =
     (let new = filter (\<lambda>x. i_sandbox_id x = i \<and> i \<noteq> []) is in if new = [] then None else Some new)"
  unfolding by_sandbox_def group_fold(1) [OF add_to_group_fold] by (simp add: Let_def)

lemma by_sandbox_distinct: "distinct (map_keys (by_sandbox is))"
  unfolding by_sandbox_def map_keys_def by (rule group_fold(2) [OF add_to_group_fold]) simp

context instance_sorter begin

lemma poll_listed_run:
  assumes "ee_sort_instances env = srt" and "fair_order (ee_runtime env)"
    and "run (ec2_poll_listed env (by_sandbox is)) s = (Inr seen, s')"
  shows "set seen = i_sandbox_id ` set is - {[]}"
    and "i \<in> set seen \<Longrightarrow> settled env i (filter (\<lambda>x. i_sandbox_id x = i) is) (sy_reg s')"
    and "i \<notin> set seen \<Longrightarrow> reg_lookup (sy_reg s') i = reg_lookup (sy_reg s) i"
proof -
  let ?g = "by_sandbox is"
  let ?kw = "rt_order (ee_runtime env) (map_keys ?g) (sy_world s)"
  have g: "ms \<noteq> [] \<and> (\<forall>m \<in> set ms. i_sandbox_id m = i)" if "map_of ?g i = Some ms" for i ms
    using that by (auto simp: by_sandbox_lookup Let_def split: if_splits)
  have d: "distinct (fst ?kw)" by (rule fair_order_distinct [OF assms(2) by_sandbox_distinct])
  have keys: "set (fst ?kw) = {i. map_of ?g i \<noteq> None}"
    using fair_order_set [OF assms(2)] by (auto simp: map_keys_def map_of_eq_None_iff)
  have run: "run (for_each (fst ?kw)
         (\<lambda>i seen.
            case map_of ?g i of
              None \<Rightarrow> Ret (Inr seen)
            | Some matches \<Rightarrow>
                call (ec2_poll_sandbox env i matches) (\<lambda>r.
                  case r of Inl e \<Rightarrow> Ret (Inl e) | Inr _ \<Rightarrow> Ret (Inr (i # seen)))) [])
         (s\<lparr>sy_world := snd ?kw\<rparr>) = (Inr seen, s')"
    using assms(3) by (simp add: ec2_poll_listed_def run_order_of)
  from poll_groups_run [OF assms(1) g d this]
  have seen: "set seen = {i. map_of ?g i \<noteq> None}"
    and st: "\<And>i ms. map_of ?g i = Some ms \<Longrightarrow> settled env i ms (sy_reg s')"
    and fr: "\<And>i. map_of ?g i = None \<Longrightarrow> reg_lookup (sy_reg s') i = reg_lookup (sy_reg s) i"
    by (auto simp: keys)
  show "set seen = i_sandbox_id ` set is - {[]}"
    unfolding seen by (auto simp: by_sandbox_lookup Let_def filter_empty_conv split: if_splits)
  show "i \<in> set seen \<Longrightarrow> settled env i (filter (\<lambda>x. i_sandbox_id x = i) is) (sy_reg s')"
    using st [of i] by (cases "i = []") (auto simp: seen by_sandbox_lookup Let_def split: if_splits)
  show "i \<notin> set seen \<Longrightarrow> reg_lookup (sy_reg s') i = reg_lookup (sy_reg s) i"
    using fr [of i] by (simp add: seen)
qed

end

section \<open>Missing sandboxes\<close>

definition after_missing :: "bytestr list \<Rightarrow> srecord \<Rightarrow> srecord option" where
  "after_missing seen rc =
     (if r_instance_id rc = [] \<or> r_sandbox_id rc \<in> set seen then Some rc
      else
        (let n = wrap64 (r_missing_polls rc + 1)
         in if n \<ge> missing_poll_threshold then None else Some (rc\<lparr>r_missing_polls := n\<rparr>)))"

lemma missing_one_run:
  assumes "run (ec2_missing_one seen rc) s = (r, s')"
    and at: "reg_lookup (sy_reg s) (r_sandbox_id rc) = Some rc" "spec_redacted (r_spec rc)"
  shows "r = Inr () \<and> reg_lookup (sy_reg s') (r_sandbox_id rc) = after_missing seen rc \<and>
    (\<forall>k. k \<noteq> r_sandbox_id rc \<longrightarrow> reg_lookup (sy_reg s') k = reg_lookup (sy_reg s) k)"
proof (cases "r_instance_id rc = [] \<or> r_sandbox_id rc \<in> set seen")
  case True
  from True have am: "after_missing seen rc = Some rc" by (simp only: after_missing_def if_True)
  from True assms(1) have "r = Inr () \<and> s' = s"
    by (cases "r_instance_id rc = []") (auto simp: ec2_missing_one_def)
  then show ?thesis using at by (simp add: am)
next
  case False
  let ?fn = "\<lambda>r. r\<lparr>r_missing_polls := wrap64 (r_missing_polls r + 1)\<rparr>"
  note hit = update_record_hit [OF at(1), of ?fn]
  have "clone_record (?fn rc) = ?fn rc" using at(2) by (intro clone_record_id) simp
  then show ?thesis using assms(1) False hit
    by (auto simp: after_missing_def ec2_missing_one_def exec split_def Let_def broadcast_deleted_def
        split: if_splits)
qed

lemma poll_missing_run:
  assumes "reg_ok (sy_reg s)" and "fair_order (ee_runtime env)"
    and "run (ec2_poll_missing env seen) s = (r, s')"
  shows "r = Inr ()"
    and "reg_lookup (sy_reg s') k = Option.bind (reg_lookup (sy_reg s) k) (after_missing seen)"
proof -
  note P = snapshot_pass_run [where body = "ec2_missing_one seen" and sel = all_records
      and P = "\<lambda>rc v. v = after_missing seen rc",
      OF missing_one_run assms(1,2) all_selection assms(3) [unfolded ec2_poll_missing_def]]
  show "r = Inr ()" by (rule P(1))
  show "reg_lookup (sy_reg s') k = Option.bind (reg_lookup (sy_reg s) k) (after_missing seen)"
    using P(2) [of k] by (cases "reg_lookup (sy_reg s) k") simp_all
qed

section \<open>Expired sandboxes\<close>

text \<open>The creation time given to an instance without a trustworthy one makes it expired.\<close>

lemma fail_closed_expired:
  assumes "0 < e_max_instance_age c" and "e_max_instance_age c \<le> 30 * 24 * hour"
    and "r_created_at rc = fail_closed_created_at c now" and "r_state rc \<noteq> ''terminated''"
    and "now \<le> later" and "\<not> is_zero (fail_closed_created_at c now)"
  shows "is_expired (e_max_instance_age c) later rc"
proof -
  let ?a = "e_max_instance_age c"
  have h: "?a \<le> 2592000000000000" using assms(2) by (simp add: hour_def minute_def second_def)
  have "fail_closed_created_at c now = now - ?a - second"
    using assms(1) h by (simp add: fail_closed_created_at_def wrap64_id min_int64_def max_int64_def second_def)
  moreover have "?a < time_sub later t \<longleftrightarrow> ?a < later - t" for t
    using assms(1) h by (intro time_sub_gt) (simp_all add: min_int64_def max_int64_def)
  ultimately show ?thesis
    using assms by (simp add: is_expired_def second_def)
qed

text \<open>One expired sandbox: its instance is asked to terminate, then it is marked.\<close>

lemma expire_one_run:
  assumes "run (ec2_expire_one env rc) s = (r, s')" and "reg_lookup (sy_reg s) (r_sandbox_id rc) = Some rc"
    and "r_instance_id rc \<noteq> []" and "r_state rc \<noteq> ''shutting-down''"
  shows "r = Inr ()"
    and "fst (ee_terminate env [r_instance_id rc] (sy_world s)) = None \<Longrightarrow>
      \<exists>t. reg_lookup (sy_reg s') (r_sandbox_id rc) = Some (clone_record (ec2_mark ''shutting-down'' t rc))"
    and "fst (ee_terminate env [r_instance_id rc] (sy_world s)) \<noteq> None \<Longrightarrow> sy_reg s' = sy_reg s"
  using assms update_record_hit [OF assms(2)]
  by (auto simp: ec2_expire_one_def exec Let_def split_def broadcast_sandbox_def split: option.splits)

end
