(* ===== verification/Ec2Poll.thy ===== *)
theory Ec2Poll
  imports Ec2Props
begin

text \<open>
  A whole poll of the EC2 driver, its three passes composed: what the expiry pass does to
  each record, and the record of every sandbox after a poll that succeeded.
\<close>

section \<open>The expiry pass\<close>

text \<open>What the pass makes of one expired record: marked when the provider accepted the
  termination, left alone when it refused it or there is nothing to terminate.\<close>

definition expire_outcome :: "'w ec2_env \<Rightarrow> srecord \<Rightarrow> srecord option \<Rightarrow> bool" where
  "expire_outcome env rc v \<longleftrightarrow>
     (if r_instance_id rc = [] \<or> r_state rc = ''shutting-down'' then v = Some rc
      else (\<exists>t w. fst (ee_terminate env [r_instance_id rc] w) = None \<and>
              v = Some (clone_record (ec2_mark ''shutting-down'' t rc))) \<or>
           (\<exists>w. fst (ee_terminate env [r_instance_id rc] w) \<noteq> None \<and> v = Some rc))"

lemma expire_one_outcome:
  assumes "run (ec2_expire_one env rc) s = (r, s')" and "reg_lookup (sy_reg s) (r_sandbox_id rc) = Some rc"
  shows "r = Inr () \<and> expire_outcome env rc (reg_lookup (sy_reg s') (r_sandbox_id rc)) \<and>
    (\<forall>k. k \<noteq> r_sandbox_id rc \<longrightarrow> reg_lookup (sy_reg s') k = reg_lookup (sy_reg s) k)"
proof (cases "r_instance_id rc = [] \<or> r_state rc = ''shutting-down''")
  case True
  with assms show ?thesis by (auto simp: ec2_expire_one_def expire_outcome_def)
next
  case False
  have other: "reg_lookup (sy_reg s') k = reg_lookup (sy_reg s) k" if "k \<noteq> r_sandbox_id rc" for k
  proof -
    have "preserves (in_reg (keeps k (reg_lookup (sy_reg s) k))) (ec2_expire_one env rc)"
      unfolding ec2_expire_one_def by (intro inv_intro) (use that in auto)
    from keeps_run [OF this] show ?thesis using assms(1) by simp
  qed
  note one = expire_one_run [OF assms(1,2)]
  show ?thesis
  proof (cases "fst (ee_terminate env [r_instance_id rc] (sy_world s))")
    case None
    then show ?thesis using one False other by (auto simp: expire_outcome_def)
  next
    case (Some e)
    then have "sy_reg s' = sy_reg s" using one False by auto
    then show ?thesis using one False other assms(2) Some by (auto simp: expire_outcome_def)
  qed
qed

lemma poll_expired_run:
  assumes "reg_ok (sy_reg s)" and "fair_order (ee_runtime env)"
    and "run (ec2_poll_expired env) s = (r, s')"
  defines "now \<equiv> fst (rt_now (ee_runtime env) (sy_world s))"
    and "age \<equiv> effective_max_age (reg_limits (sy_reg s))"
  shows "r = Inr ()"
    and "case reg_lookup (sy_reg s) k of
      None \<Rightarrow> reg_lookup (sy_reg s') k = None
    | Some rc \<Rightarrow>
        if is_expired age now rc then expire_outcome env rc (reg_lookup (sy_reg s') k)
        else reg_lookup (sy_reg s') k = Some rc"
proof -
  let ?s1 = "s\<lparr>sy_world := snd (rt_now (ee_runtime env) (sy_world s))\<rparr>"
  have ok: "reg_ok (sy_reg ?s1)" using assms(1) by simp
  have run: "run (act (with_keys (ee_runtime env) (\<lambda>ks. read_op (expired_records now ks)))
      (\<lambda>recs. for_each recs (\<lambda>rc _. ec2_expire_one env rc) ())) ?s1 = (r, s')"
    using assms(3) by (simp add: ec2_poll_expired_def run_now_of now_def)
  have sel: "expired_records now ks (sy_reg ?s1) = filter (is_expired age now) (all_records ks (sy_reg ?s1))" for ks
    by (simp add: expired_selection age_def)
  note P = snapshot_pass_run [where body = "ec2_expire_one env" and sel = "expired_records now"
      and P = "expire_outcome env" and Q = "is_expired age now", OF _ ok assms(2) sel run]
  show "r = Inr ()" by (rule P(1)) (rule expire_one_outcome)
  show "case reg_lookup (sy_reg s) k of
      None \<Rightarrow> reg_lookup (sy_reg s') k = None
    | Some rc \<Rightarrow>
        if is_expired age now rc then expire_outcome env rc (reg_lookup (sy_reg s') k)
        else reg_lookup (sy_reg s') k = Some rc"
  proof -
    have "case reg_lookup (sy_reg ?s1) k of
      None \<Rightarrow> reg_lookup (sy_reg s') k = None
    | Some rc \<Rightarrow>
        if is_expired age now rc then expire_outcome env rc (reg_lookup (sy_reg s') k)
        else reg_lookup (sy_reg s') k = Some rc"
      by (rule P(2)) (rule expire_one_outcome)
    then show ?thesis by simp
  qed
qed

section \<open>The whole poll\<close>

definition listed_ids :: "ec2_inst list \<Rightarrow> bytestr set" where
  "listed_ids is = i_sandbox_id ` set is - {[]}"

definition matches_of :: "bytestr \<Rightarrow> ec2_inst list \<Rightarrow> ec2_inst list" where
  "matches_of i is = filter (\<lambda>x. i_sandbox_id x = i) is"

lemma expire_outcome_keeps:
  "expire_outcome env rc v \<Longrightarrow> \<exists>rc'. v = Some rc' \<and> r_instance_id rc' = r_instance_id rc \<and>
     r_missing_polls rc' = r_missing_polls rc \<and> r_state rc' \<in> {r_state rc, ''shutting-down''} \<and>
     (r_instance_id rc = [] \<longrightarrow> rc' = rc)"
  by (auto simp: expire_outcome_def ec2_mark_def split: if_splits)

lemma after_missing_listed:
  "r_sandbox_id rc \<in> set seen \<Longrightarrow> after_missing seen rc = Some rc"
  by (simp add: after_missing_def)

text \<open>The passes of a poll that succeeded.\<close>

lemma poll_passes:
  assumes "run (ec2_poll env) s = (None, s')"
    and "fst (ee_list env \<lparr>if_gateway_id = e_gateway_id (ee_config env), if_sandbox_id = [],
           if_name = []\<rparr> (sy_world s)) = Inr is"
  shows "\<exists>w seen s1 s2. run (ec2_poll_listed env (by_sandbox is)) (s\<lparr>sy_world := w\<rparr>) = (Inr seen, s1) \<and>
    run (ec2_poll_missing env seen) s1 = (Inr (), s2) \<and> run (ec2_poll_expired env) s2 = (Inr (), s')"
proof -
  let ?lw = "ee_list env \<lparr>if_gateway_id = e_gateway_id (ee_config env), if_sandbox_id = [],
           if_name = []\<rparr> (sy_world s)"
  let ?s0 = "s\<lparr>sy_world := snd ?lw\<rparr>"
  obtain r1 s1 where r1: "run (ec2_poll_listed env (by_sandbox is)) ?s0 = (r1, s1)" by fastforce
  then obtain seen where seen: "r1 = Inr seen"
    using assms by (cases r1) (auto simp: ec2_poll_def exec)
  obtain r2 s2 where r2: "run (ec2_poll_missing env seen) s1 = (r2, s2)" by fastforce
  then have r2u: "r2 = Inr ()"
    using assms r1 seen by (cases r2) (auto simp: ec2_poll_def exec)
  obtain r3 s3 where r3: "run (ec2_poll_expired env) s2 = (r3, s3)" by fastforce
  then have "r3 = Inr () \<and> s3 = s'"
    using assms r1 seen r2 r2u by (cases r3) (auto simp: ec2_poll_def exec)
  with r1 seen r2 r2u r3 show ?thesis by blast
qed

text \<open>Only the listing and its first pass can fail a poll.\<close>

lemma poll_succeeds:
  assumes "core_inv (sy_reg s)" and "fair_order (ee_runtime env)"
    and "ee_list env \<lparr>if_gateway_id = e_gateway_id (ee_config env), if_sandbox_id = [],
           if_name = []\<rparr> (sy_world s) = (Inr is, w)"
    and "fst (run (ec2_poll_listed env (by_sandbox is)) (s\<lparr>sy_world := w\<rparr>)) = Inr seen"
  shows "fst (run (ec2_poll env) s) = None"
proof -
  obtain s1 where s1: "run (ec2_poll_listed env (by_sandbox is)) (s\<lparr>sy_world := w\<rparr>) = (Inr seen, s1)"
    using assms(4) by (metis prod.collapse)
  have i0: "in_reg core_inv (s\<lparr>sy_world := w\<rparr>)" using assms(1) by (simp add: in_reg_def)
  have i1: "in_reg core_inv s1"
    using preserves_run [OF ec2_poll_listed_preserves i0, of env "by_sandbox is"] s1 by simp
  obtain r2 s2 where s2: "run (ec2_poll_missing env seen) s1 = (r2, s2)" by fastforce
  have i2: "in_reg core_inv s2" using preserves_run [OF ec2_poll_missing_preserves i1, of env seen] s2 by simp
  have ok: "reg_ok (sy_reg s1)" "reg_ok (sy_reg s2)" using i1 i2 by (simp_all add: in_reg_def core_inv_def)
  obtain r3 s3 where s3: "run (ec2_poll_expired env) s2 = (r3, s3)" by fastforce
  have "r2 = Inr ()" by (rule poll_missing_run(1) [OF ok(1) assms(2) s2])
  moreover have "r3 = Inr ()" by (rule poll_expired_run(1) [OF ok(2) assms(2) s3])
  ultimately show ?thesis using assms(3) s1 s2 s3 by (simp add: ec2_poll_def exec)
qed

context instance_sorter begin

lemma poll_run:
  assumes srt: "ee_sort_instances env = srt" and fair: "fair_order (ee_runtime env)"
    and inv: "core_inv (sy_reg s)"
    and run: "run (ec2_poll env) s = (None, s')"
    and listed: "fst (ee_list env \<lparr>if_gateway_id = e_gateway_id (ee_config env), if_sandbox_id = [],
           if_name = []\<rparr> (sy_world s)) = Inr is"
  shows "if i \<in> listed_ids is
    then (let m = kept env (matches_of i is)
          in if i_state m = ''terminated'' then reg_lookup (sy_reg s') i = None
             else \<exists>rc. reg_lookup (sy_reg s') i = Some rc \<and> r_instance_id rc = i_id m \<and>
               r_missing_polls rc = 0 \<and> r_state rc \<in> {i_state m, ''shutting-down''})
    else (case reg_lookup (sy_reg s) i of
            None \<Rightarrow> reg_lookup (sy_reg s') i = None
          | Some rc \<Rightarrow>
              if r_instance_id rc = [] then reg_lookup (sy_reg s') i = Some rc
              else if wrap64 (r_missing_polls rc + 1) \<ge> 3 then reg_lookup (sy_reg s') i = None
              else \<exists>rc'. reg_lookup (sy_reg s') i = Some rc' \<and> r_instance_id rc' = r_instance_id rc \<and>
                r_missing_polls rc' = wrap64 (r_missing_polls rc + 1))"
proof -
  obtain w seen s1 s2 where p: "run (ec2_poll_listed env (by_sandbox is)) (s\<lparr>sy_world := w\<rparr>) = (Inr seen, s1)"
    "run (ec2_poll_missing env seen) s1 = (Inr (), s2)" "run (ec2_poll_expired env) s2 = (Inr (), s')"
    using poll_passes [OF run listed] by blast
  have i0: "in_reg core_inv (s\<lparr>sy_world := w\<rparr>)" using inv by (simp add: in_reg_def)
  have i1: "in_reg core_inv s1" using preserves_run [OF ec2_poll_listed_preserves i0, of env "by_sandbox is"] p(1) by simp
  have i2: "in_reg core_inv s2" using preserves_run [OF ec2_poll_missing_preserves i1, of env seen] p(2) by simp
  have ok: "reg_ok (sy_reg s1)" "reg_ok (sy_reg s2)" using i1 i2 by (simp_all add: in_reg_def core_inv_def)
  note L = poll_listed_run [OF srt fair p(1)]
  have seen: "set seen = listed_ids is" using L(1) by (simp add: listed_ids_def)
  note M = poll_missing_run(2) [OF ok(1) fair p(2)]
  note E = poll_expired_run(2) [OF ok(2) fair p(3)]
  show ?thesis
  proof (cases "i \<in> listed_ids is")
    case True
    let ?m = "kept env (matches_of i is)"
    have st: "settled env i (matches_of i is) (sy_reg s1)"
      using L(2) [of i] True seen by (simp add: matches_of_def)
    have i: "i_sandbox_id ?m = i"
    proof -
      have "matches_of i is \<noteq> []"
        using True by (auto simp: listed_ids_def matches_of_def filter_empty_conv)
      from kept_oldest(1) [OF srt this] show ?thesis by (simp add: matches_of_def)
    qed
    show ?thesis
    proof (cases "i_state ?m = ''terminated''")
      case gone: True
      then have "reg_lookup (sy_reg s1) i = None" using st by (simp add: settled_def)
      then have "reg_lookup (sy_reg s2) i = None" using M by simp
      then have "reg_lookup (sy_reg s') i = None" using E [of i] by simp
      with True gone show ?thesis by (simp add: Let_def)
    next
      case live: False
      then obtain rc where rc: "reg_lookup (sy_reg s1) i = Some rc" "r_instance_id rc = i_id ?m"
        "r_state rc = i_state ?m" "r_missing_polls rc = 0"
        using st i by (auto simp: settled_def tracked_def)
      have "r_sandbox_id rc \<in> set seen" using True seen reg_okD [OF ok(1) rc(1)] by simp
      then have "reg_lookup (sy_reg s2) i = Some rc" using M rc(1) by (simp add: after_missing_listed)
      then have "\<exists>rc'. reg_lookup (sy_reg s') i = Some rc' \<and> r_instance_id rc' = r_instance_id rc \<and>
          r_missing_polls rc' = r_missing_polls rc \<and> r_state rc' \<in> {r_state rc, ''shutting-down''}"
        using E [of i] expire_outcome_keeps by (fastforce split: if_splits)
      with True live rc show ?thesis by (simp add: Let_def)
    qed
  next
    case False
    have s1: "reg_lookup (sy_reg s1) i = reg_lookup (sy_reg s) i" using L(3) [of i] False seen by simp
    show ?thesis
    proof (cases "reg_lookup (sy_reg s) i")
      case None
      then have "reg_lookup (sy_reg s2) i = None" using M s1 by simp
      then show ?thesis using E [of i] False None by simp
    next
      case (Some rc)
      have "r_sandbox_id rc \<notin> set seen" using False seen reg_okD [OF ok(1)] s1 Some by simp
      then have s2: "reg_lookup (sy_reg s2) i =
          (if r_instance_id rc = [] then Some rc
           else if wrap64 (r_missing_polls rc + 1) \<ge> 3 then None
           else Some (rc\<lparr>r_missing_polls := wrap64 (r_missing_polls rc + 1)\<rparr>))"
        using M [of i] s1 Some by (simp add: after_missing_def missing_poll_threshold_def Let_def)
      show ?thesis
      proof (cases "reg_lookup (sy_reg s2) i")
        case None
        then show ?thesis using E [of i] False Some s2 by (auto split: if_splits)
      next
        case (Some rc2)
        then have "\<exists>rc'. reg_lookup (sy_reg s') i = Some rc' \<and> r_instance_id rc' = r_instance_id rc2 \<and>
            r_missing_polls rc' = r_missing_polls rc2 \<and> (r_instance_id rc2 = [] \<longrightarrow> rc' = rc2)"
          using E [of i] expire_outcome_keeps by (fastforce split: if_splits)
        then show ?thesis using False Some \<open>reg_lookup (sy_reg s) i = Some rc\<close> s2
          by (auto split: if_splits)
      qed
    qed
  qed
qed

end

end
