(* ===== verification/LibraryTheorems.thy ===== *)
theory LibraryTheorems
  imports Ec2Watcher
begin

text \<open>
  The properties of the shared libraries: input checks, resource quantities, instance
  selection, the rendered bootstrap documents and the configurations.
\<close>

section \<open>Input text\<close>

text \<open>The check of every text field against \<open>unicode.IsControl\<close> decodes UTF-8; it
  is equivalent to a scan for the bytes 0-31 and 127 and the two-byte forms of U+0080 to
  U+009F, also on malformed input.\<close>

theorem control_scan_equiv:
  "(ec2_validate_text nm v False mx = None \<longleftrightarrow> length v \<le> mx \<and> \<not> ctl_bytes (map byte v)) \<and>
   (ec2_validate_text nm v True mx = None \<longleftrightarrow> v \<noteq> [] \<and> length v \<le> mx \<and> \<not> ctl_bytes (map byte v))"
  by (simp add: ec2_validate_text_None has_control_bytes)

section \<open>Quantities\<close>

text \<open>C36: A decimal number, with a fraction or without, that does not overflow, parses to its
  correctly rounded value; CPU millicores are a thousandth of it, rounded again, and a memory
  suffix multiplies it by the bytes the Kubernetes documentation gives for that suffix, over
  the 2^20 bytes of a MiB.\<close>

theorem quantity_decimal_values:
  assumes "\<forall>c \<in> set (ds @ fs). is_digit c" and "ds @ fs \<noteq> []"
    and "round64 (of_nat (num (ds @ fs)) / 10 ^ length fs) = Fin x"
  shows "parse_cpu (decimal ds fs) = Inr (Fin x) \<and>
    parse_cpu (decimal ds fs @ ''m'') = Inr (round64 (x / 1000)) \<and>
    (\<forall>(u, bytes) \<in> set memory_units.
       parse_memory (decimal ds fs @ u) = Inr (round64 (of_nat bytes / 2 ^ 20 * x)))"
proof -
  have ok: "decimal_ok ds fs" and x: "round64 (decimal_value ds fs) = Fin x"
    using assms by (simp_all add: decimal_ok_def decimal_value_def)
  show ?thesis
    using parse_cpu_decimal_core [OF ok x] parse_memory_decimal_core [OF ok x] unit_factor by blast
qed

theorem quantity_decimal_values_witness:
  "parse_cpu ''1.5'' = Inr (Fin (3 / 2)) \<and> parse_memory ''1.5Gi'' = Inr (Fin 1536)"
proof -
  have v: "round64 (of_nat (num (''1'' @ ''5'')) / 10 ^ length ''5'') = Fin (3 / 2)"
    using round64_dyadic [of "3 / 2" 3 "- 1"] by (simp add: num_def digit_val_def byte_def pow2_def)
  have r: "round64 (of_nat (1024 ^ 3) / 2 ^ 20 * (3 / 2)) = Fin 1536"
    using round64_of_nat [of 1536] by simp
  have u: "(''Gi'', 1024 ^ 3) \<in> set memory_units" by (simp add: memory_units_def)
  have d: "\<forall>c \<in> set (''1'' @ ''5''). is_digit c" "''1'' @ ''5'' \<noteq> []" by (simp_all add: is_digit_def byte_def)
  have t: "decimal ''1'' ''5'' = ''1.5''" by (simp add: decimal_def)
  note P = quantity_decimal_values [OF d v, unfolded t]
  have "parse_memory (''1.5'' @ ''Gi'') = Inr (round64 (of_nat (1024 ^ 3) / 2 ^ 20 * (3 / 2)))"
    using bspec [OF conjunct2 [OF conjunct2 [OF P]] u] by simp
  with conjunct1 [OF P] r show ?thesis by simp
qed

text \<open>A CPU quantity that parses is a finite nonnegative number; a memory quantity
  that parses is one or plus infinity, never negative and never NaN.\<close>

theorem quantity_range:
  "(parse_cpu s = Inr v \<longrightarrow> (\<exists>x. v = Fin x \<and> 0 \<le> x \<and> x < 2 ^ 1024)) \<and>
   (parse_memory s = Inr v \<longrightarrow> v = PInf \<or> (\<exists>x. v = Fin x \<and> 0 \<le> x \<and> x < 2 ^ 1024))"
  using parse_cpu_range_core [of s v] parse_memory_range_core [of s v] by blast

theorem quantity_range_witness:
  "\<exists>v. parse_cpu ''4'' = Inr v \<and> (\<exists>x. v = Fin x \<and> 0 \<le> x \<and> x < 2 ^ 1024)"
proof -
  have "decimal_ok ''4'' []" by (simp add: decimal_ok_def is_digit_def byte_def)
  moreover have "round64 (decimal_value ''4'' []) = Fin 4"
    using round64_of_nat [of 4] by (simp add: decimal_value_def num_def digit_val_def byte_def)
  ultimately have "parse_cpu ''4'' = Inr (Fin 4)"
    using parse_cpu_decimal_core(1) [of "''4''" "[]" 4] by (simp add: decimal_def)
  with quantity_range [of "''4''" "Fin 4"] show ?thesis by blast
qed

text \<open>The finiteness check is made before the suffix is applied, so a memory
  quantity can overflow to infinity without an error: 1e307Ei is accepted.\<close>

theorem memory_overflow_accepted: "parse_memory ''1e307Ei'' = Inr PInf"
  by (rule parse_memory_overflow_core)

section \<open>Instance selection\<close>

text \<open>C35: With any lawful sort, the EC2 driver picks a catalog type that covers every
  quantity asked for, request and limit, such that no smaller type does; it fails only
  when no type of the catalog does.\<close>

theorem ec2_selection_least:
  assumes "spec_sorter srt" and "\<not> no_quantities q"
  shows "case ec2_select_instance_type srt (Some q) d of
      Inr name \<Rightarrow> \<exists>i \<in> set ec2_instance_types. is_name i = name \<and> satisfies q i \<and>
        (\<forall>j \<in> set ec2_instance_types. satisfies q j \<longrightarrow> \<not> smaller j i)
    | Inl _ \<Rightarrow> \<forall>i \<in> set ec2_instance_types. \<not> satisfies q i"
  using spec_sorter.select_from_Inr [OF assms(1), of ec2_instance_types q]
    spec_sorter.select_from_Inl [OF assms(1), of ec2_instance_types q] assms(2)
  by (auto simp: ec2_select_instance_type_def split: sum.split)

definition two_cpus :: resource_quantities where
  "two_cpus = \<lparr>cpu_request = ''2'', cpu_limit = [], memory_request = ''3Gi'', memory_limit = ''4Gi''\<rparr>"

theorem ec2_selection_least_witness:
  "spec_sorter insertion_sort \<and> \<not> no_quantities two_cpus \<and>
   (case ec2_select_instance_type insertion_sort (Some two_cpus) [] of
      Inr name \<Rightarrow> \<exists>i \<in> set ec2_instance_types. is_name i = name \<and> satisfies two_cpus i \<and>
        (\<forall>j \<in> set ec2_instance_types. satisfies two_cpus j \<longrightarrow> \<not> smaller j i)
    | Inl _ \<Rightarrow> \<forall>i \<in> set ec2_instance_types. \<not> satisfies two_cpus i)"
proof -
  have "\<not> no_quantities two_cpus" by (simp add: no_quantities_def two_cpus_def)
  with ec2_selection_least [OF ins.spec_sorter_axioms this, of "[]"] ins.spec_sorter_axioms
  show ?thesis by blast
qed

text \<open>The KubeVirt driver's choice covers the request and is least among the types
  that do, whatever the sort; it fails only when no type does.\<close>

theorem kv_selection_least:
  assumes "spec_sorter srt" and "\<not> no_quantities q"
  shows "case kv_select_instance_type srt (Some q) d of
      Inr name \<Rightarrow> \<exists>i \<in> set kv_instance_types. is_name i = name \<and> satisfies q i \<and>
        (\<forall>j \<in> set kv_instance_types. satisfies q j \<longrightarrow> \<not> smaller j i)
    | Inl _ \<Rightarrow> \<forall>i \<in> set kv_instance_types. \<not> satisfies q i"
  using spec_sorter.select_from_Inr [OF assms(1), of kv_instance_types q]
    spec_sorter.select_from_Inl [OF assms(1), of kv_instance_types q] assms(2)
  by (auto simp: kv_select_instance_type_def split: sum.split)

theorem kv_selection_least_witness:
  "spec_sorter insertion_sort_rev \<and> \<not> no_quantities two_cpus \<and>
   (case kv_select_instance_type insertion_sort_rev (Some two_cpus) [] of
      Inr name \<Rightarrow> \<exists>i \<in> set kv_instance_types. is_name i = name \<and> satisfies two_cpus i \<and>
        (\<forall>j \<in> set kv_instance_types. satisfies two_cpus j \<longrightarrow> \<not> smaller j i)
    | Inl _ \<Rightarrow> \<forall>i \<in> set kv_instance_types. \<not> satisfies two_cpus i)"
proof -
  have "\<not> no_quantities two_cpus" by (simp add: no_quantities_def two_cpus_def)
  with kv_selection_least [OF insr.spec_sorter_axioms this, of "[]"] insr.spec_sorter_axioms
  show ?thesis by blast
qed

text \<open>The EC2 catalog has no two types of equal size, so the choice is the same for
  every lawful sort although \<open>sort.Slice\<close> is not stable.\<close>

theorem ec2_selection_deterministic:
  assumes "spec_sorter s1" and "spec_sorter s2"
    and "ec2_select_instance_type s1 r d = Inr a" and "ec2_select_instance_type s2 r d = Inr b"
  shows "a = b"
proof (cases "r = None \<or> (\<exists>q. r = Some q \<and> no_quantities q)")
  case True
  with assms(3,4) show ?thesis by (auto simp: ec2_select_instance_type_def)
next
  case False
  then obtain q where q: "r = Some q" "\<not> no_quantities q" by (cases r) auto
  then have "select_from s1 ec2_instance_types q = Inr a" "select_from s2 ec2_instance_types q = Inr b"
    using assms(3,4) by (simp_all add: ec2_select_instance_type_def)
  from spec_sorter.select_from_Inr [OF assms(1) this(1)] obtain i where i:
    "i \<in> set ec2_instance_types" "is_name i = a" "satisfies q i"
    "\<forall>x \<in> set ec2_instance_types. satisfies q x \<longrightarrow> \<not> smaller x i" by blast
  from spec_sorter.select_from_Inr [OF assms(2) \<open>select_from s2 ec2_instance_types q = Inr b\<close>]
  obtain j where j: "j \<in> set ec2_instance_types" "is_name j = b" "satisfies q j"
    "\<forall>x \<in> set ec2_instance_types. satisfies q x \<longrightarrow> \<not> smaller x j" by blast
  from i j have "i = j" using ec2_no_ties [of i j] by blast
  with i j show ?thesis by simp
qed

theorem ec2_selection_deterministic_witness:
  "ec2_select_instance_type insertion_sort None ''c7i.large'' = Inr ''c7i.large'' \<and>
   ''c7i.large'' = (''c7i.large'' :: bytestr)"
  using ec2_selection_deterministic [OF ins.spec_sorter_axioms insr.spec_sorter_axioms,
      of None "''c7i.large''" "''c7i.large''" "''c7i.large''"]
  by (simp add: ec2_select_instance_type_def)

section \<open>Bootstrap\<close>

text \<open>A library that knows one plain-text endpoint, and parameters that use it.\<close>

definition plain_url :: url where
  "plain_url =
     \<lparr>u_scheme = ''http'', u_has_user = False, u_hostname = ''gw'', u_port = ''8080'',
      u_escaped_path = [], u_raw_query = [], u_fragment = []\<rparr>"

definition plain_lib :: transport_lib where
  "plain_lib =
     \<lparr>parse_request_uri = (\<lambda>s. if s = ''http://gw:8080'' then Some plain_url else None),
      append_certs = (\<lambda>_. False), x509_key_pair = (\<lambda>_ _. Inl ErrCanceled),
      parse_certificate = (\<lambda>_. None), verify_client_cert = (\<lambda>_ _ _. None)\<rparr>"

definition plain_transport :: transport_config where
  "plain_transport = zero_transport\<lparr>t_gateway_endpoint := ''http://gw:8080'', t_insecure := True\<rparr>"

definition plain_params :: security_params where
  "plain_params =
     \<lparr>sec_sandbox_id = ''sb'', sec_sandbox_token = ''tok'', sec_log_level = ''info'',
      sec_max_lifetime = ''8h0m0s''\<rparr>"

lemma plain_valid: "validate_transport plain_lib plain_transport = None"
proof -
  have "atoi ''8080'' = Some 8080" by code_simp
  then show ?thesis
    by (simp add: validate_transport_def validate_endpoint_def plain_lib_def plain_url_def
        plain_transport_def zero_transport_def)
qed

lemma no_ctl: "\<not> has_control ''sb''" "\<not> has_control ''tok''" "\<not> has_control ''info''"
  "\<not> has_control ''8h0m0s''" "\<not> has_control ''name''"
  unfolding has_control_bytes by code_simp+

lemma sec_keys_fields: "set sec_keys = fst ` set (sec_fields p)"
  by (simp add: sec_keys_def sec_fields_def)

text \<open>The fragment is rendered exactly when the transport is valid, the id, token and
  lifetime are there, and no parameter has a control character.\<close>

theorem security_block_rendered_iff:
  assumes "set ks = fst ` set (sec_fields p)"
  shows "(\<exists>out. render_security_block lib tbl ks c p = Inr out) \<longleftrightarrow>
    validate_transport lib c = None \<and>
    sec_sandbox_id p \<noteq> [] \<and> sec_sandbox_token p \<noteq> [] \<and> sec_max_lifetime p \<noteq> [] \<and>
    \<not> has_control (sec_sandbox_id p) \<and> \<not> has_control (sec_sandbox_token p) \<and>
    \<not> has_control (sec_log_level p) \<and> \<not> has_control (sec_max_lifetime p)"
  by (rule render_ok_iff [OF assms])

theorem security_block_rendered_iff_witness:
  "\<exists>out. render_security_block plain_lib (\<lambda>_. True) sec_keys plain_transport plain_params = Inr out"
  unfolding security_block_rendered_iff [OF sec_keys_fields]
  using plain_valid no_ctl by (simp add: plain_params_def)

text \<open>C17: Whatever bytes the parameters and certificates hold, the rendered YAML fragment
  reads back as exactly the files meant, with their permissions; the environment file has
  one line for each variable and the token file only the token's line, so no parameter can
  inject an entry, a file or a variable.\<close>

theorem security_block_reads_back:
  assumes "set ks = fst ` set (sec_fields p)"
    and "render_security_block lib tbl ks c p = Inr out"
  shows "read_entries (split_lines (out @ [newline])) = Some (security_files tbl c p) \<and>
    split_lines (unlines (env_lines tbl c p)) = env_lines tbl c p \<and>
    split_lines (sec_sandbox_token p @ [newline]) = [sec_sandbox_token p]"
  using render_security_block_reads_core [OF assms(2)] env_file_lines [of tbl c p]
    token_file_line [of "sec_sandbox_token p"] render_ok_iff [OF assms(1), of lib tbl c] assms(2)
  by blast

theorem security_block_reads_back_witness:
  "\<exists>out. render_security_block plain_lib (\<lambda>_. True) sec_keys plain_transport plain_params = Inr out \<and>
     read_entries (split_lines (out @ [newline])) =
       Some (security_files (\<lambda>_. True) plain_transport plain_params)"
proof -
  obtain out where out: "render_security_block plain_lib (\<lambda>_. True) sec_keys plain_transport plain_params = Inr out"
    using render_ok_iff [OF sec_keys_fields, of plain_lib "\<lambda>_. True" plain_transport plain_params]
      plain_valid no_ctl by (auto simp: plain_params_def)
  show ?thesis using security_block_reads_back [OF sec_keys_fields out] out by blast
qed

text \<open>The rendered documents are small for small parameters: bounds for the witnesses.\<close>

lemma length_hex_digits [simp]: "length (hex_digits w n) = w"
  by (induction w n rule: hex_digits.induct) simp_all

lemma length_take_rune: "length (take (snd (decode_rune (b # bs))) (b # bs)) \<le> 4"
  by (simp add: min_def split: list.split)

lemma length_quote_rune: "length raw \<le> 4 \<Longrightarrow> length (quote_rune tbl r raw) \<le> 10"
  by (simp add: quote_rune_def)

lemma sum_within: "b \<le> c \<Longrightarrow> c + 10 \<le> d \<Longrightarrow> a \<le> 10 \<Longrightarrow> a + b \<le> (d :: nat)"
  by simp

lemma length_quote_body: "length (quote_body tbl bs) \<le> 10 * length bs"
proof (induction tbl bs rule: quote_body.induct)
  case (2 tbl b bs)
  obtain r n where rn: "decode_rune (b # bs) = (r, n)" by fastforce
  have n: "1 \<le> n" using decode_rune_size [of "b # bs"] rn by simp
  have "length (take n (b # bs)) \<le> 4" using length_take_rune [of b bs] by (simp only: rn snd_conv)
  then have q: "length (quote_rune tbl r (take n (b # bs))) \<le> 10" by (rule length_quote_rune)
  have "length (quote_body tbl (drop n (b # bs))) \<le> 10 * (Suc (length bs) - n)" using "2.IH" rn by fastforce
  moreover have "10 * (Suc (length bs) - n) + 10 \<le> 10 * Suc (length bs)" using n by arith
  moreover have "length (if n = 1 \<and> r = rune_error then [backslash, CHR ''x''] @ hex_digits 2 b
      else quote_rune tbl r (take n (b # bs))) \<le> 10" using q by simp
  ultimately show ?case
    unfolding quote_body.simps rn prod.case length_append length_Cons by (blast intro: sum_within)
qed simp

lemma length_quote: "length (quote tbl s) \<le> 10 * length s + 2"
  using length_quote_body [of tbl "map byte s"] by (simp add: quote_def)

lemma length_b64_enc: "length (b64_enc bs) \<le> 4 * length bs"
  by (induction bs rule: b64_enc.induct) simp_all

lemma length_base64: "length (base64_encode s) \<le> 4 * length s"
  using length_b64_enc [of "map byte s"] by (simp add: base64_encode_def)

lemma length_unlines: "length (unlines ls) = sum_list (map length ls) + length ls"
  by (induction ls) simp_all

lemma trim_suffix_le: "length (trim_suffix s t) \<le> length s"
  by (simp add: trim_suffix_def)

lemma plain_files_length: "length (render_files (security_files (\<lambda>_. True) plain_transport plain_params)) \<le> 8000"
proof -
  have "length (unlines (env_lines (\<lambda>_. True) plain_transport plain_params)) \<le> 1500"
    using length_quote [of "\<lambda>_. True" "''sb''"] length_quote [of "\<lambda>_. True" sandbox_token_path]
      length_quote [of "\<lambda>_. True" "''http://gw:8080''"] length_quote [of "\<lambda>_. True" "''info''"]
    by (simp add: env_lines_def plain_transport_def plain_params_def length_unlines sandbox_token_path_def)
  then have "length (base64_encode (unlines (env_lines (\<lambda>_. True) plain_transport plain_params))) \<le> 6000"
    using length_base64 [of "unlines (env_lines (\<lambda>_. True) plain_transport plain_params)"] by linarith
  moreover have "length (base64_encode (''tok'' @ [newline])) \<le> 16"
    using length_base64 [of "''tok'' @ [newline]"] by simp
  ultimately show ?thesis
    unfolding render_files_def security_files_def
    by (intro order.trans [OF trim_suffix_le]) (simp add: plain_transport_def plain_params_def entry_lines_def file_of_def length_unlines
        environment_path_def sandbox_token_path_def)
qed

text \<open>C21: EC2 user data that is rendered decodes to at most 16384 bytes, carries exactly the
  files of the security block, and powers the instance off after the lifetime: an
  independent reader of the document finds a timer triggered by the lifetime after boot, the
  service it starts, the shutdown that service runs, no file written over them, and the boot
  commands that load the units and start the timer.\<close>

theorem user_data_bounded_and_armed:
  assumes "set ks = fst ` set (sec_fields q)" and "render_user_data lib tbl ks p = Inr out"
  shows "length (base64_decode out) \<le> 16384 \<and>
    powers_off_at ''OnBootSec'' (ud_max_lifetime p) (base64_decode out) \<and>
    encoded_files (split_lines (base64_decode out)) =
      security_files tbl (ud_transport p)
        \<lparr>sec_sandbox_id = ud_sandbox_id p, sec_sandbox_token = ud_sandbox_token p,
         sec_log_level = ud_log_level p, sec_max_lifetime = ud_max_lifetime p\<rparr>"
  using render_user_data_armed [OF assms] by (simp only: max_ec2_user_data_size_def)

text \<open>C22: KubeVirt cloud-init that is rendered fits the Secret limit, carries exactly the files
  of the security block, and powers the machine off at its expiry: the reader finds a timer
  triggered by a calendar time, its service, the shutdown and the boot commands, and the
  calendar time reads as the expiry, which is not zero, to the second.\<close>

theorem cloud_init_bounded_and_armed:
  assumes "render_cloud_init lib tbl ks p = Inr out"
  shows "length out \<le> 921600 \<and> \<not> is_zero (ci_expires_at p) \<and>
    powers_off_at ''OnCalendar'' (format_calendar (ci_expires_at p)) out \<and>
    (printable_time (ci_expires_at p) \<longrightarrow>
      calendar_time (format_calendar (ci_expires_at p)) =
        Some (ci_expires_at p - ci_expires_at p mod second)) \<and>
    encoded_files (split_lines out) =
      security_files tbl (ci_transport p)
        \<lparr>sec_sandbox_id = ci_sandbox_id p, sec_sandbox_token = ci_sandbox_token p,
         sec_log_level = ci_log_level p, sec_max_lifetime = ci_max_lifetime p\<rparr>"
  using render_cloud_init_armed [OF assms] calendar_reads_back
  by (simp only: max_kubevirt_cloud_init_size_def) blast

definition plain_user_data :: user_data_params where
  "plain_user_data =
     \<lparr>ud_transport = plain_transport, ud_sandbox_id = ''sb'', ud_sandbox_token = ''tok'',
      ud_log_level = ''info'', ud_max_lifetime = ''8h0m0s''\<rparr>"

lemma plain_block:
  "render_security_block plain_lib (\<lambda>_. True) sec_keys plain_transport
     \<lparr>sec_sandbox_id = ''sb'', sec_sandbox_token = ''tok'', sec_log_level = ''info'', sec_max_lifetime = ''8h0m0s''\<rparr> =
   Inr (render_files (security_files (\<lambda>_. True) plain_transport plain_params))"
proof -
  have "params_error sec_keys plain_params = None"
    using params_error_None [OF sec_keys_fields, of plain_params] no_ctl by (simp add: plain_params_def)
  then show ?thesis using plain_valid
    unfolding plain_params_def [symmetric] by (simp add: render_security_block_def)
qed

lemma plain_user_data_rendered: "\<exists>out. render_user_data plain_lib (\<lambda>_. True) sec_keys plain_user_data = Inr out"
proof -
  let ?b = "render_files (security_files (\<lambda>_. True) plain_transport plain_params)"
  have "length (ec2_template ?b ''8h0m0s'') \<le> 16384"
    using plain_files_length
    by (simp add: ec2_template_def length_unlines ec2_timer_head_def ec2_timer_tail_def shutdown_line_def mode_line_def)
  then show ?thesis
    by (simp add: render_user_data_def plain_user_data_def plain_block max_ec2_user_data_size_def Let_def)
qed

theorem user_data_bounded_and_armed_witness:
  "\<exists>out. render_user_data plain_lib (\<lambda>_. True) sec_keys plain_user_data = Inr out \<and>
     length (base64_decode out) \<le> 16384 \<and>
     powers_off_at ''OnBootSec'' ''8h0m0s'' (base64_decode out)"
proof -
  obtain out where r: "render_user_data plain_lib (\<lambda>_. True) sec_keys plain_user_data = Inr out"
    using plain_user_data_rendered by blast
  from user_data_bounded_and_armed [OF sec_keys_fields r] r show ?thesis by (simp add: plain_user_data_def)
qed

definition plain_cloud_init :: cloud_init_params where
  "plain_cloud_init =
     \<lparr>ci_transport = plain_transport, ci_sandbox_id = ''sb'', ci_sandbox_token = ''tok'',
      ci_log_level = ''info'', ci_max_lifetime = ''8h0m0s'', ci_expires_at = 1\<rparr>"

theorem cloud_init_bounded_and_armed_witness:
  "\<exists>out. render_cloud_init plain_lib (\<lambda>_. True) sec_keys plain_cloud_init = Inr out \<and>
     length out \<le> 921600 \<and> powers_off_at ''OnCalendar'' ''0001-01-01 00:00:00 UTC'' out"
proof -
  let ?b = "render_files (security_files (\<lambda>_. True) plain_transport plain_params)"
  have c: "length (format_calendar 1) \<le> 100" by code_simp
  have "length (kv_template ?b (format_calendar 1)) \<le> 921600"
    using plain_files_length c
    by (simp add: kv_template_def length_unlines kv_timer_head_def kv_timer_tail_def shutdown_line_def mode_line_def)
  then have r: "render_cloud_init plain_lib (\<lambda>_. True) sec_keys plain_cloud_init =
      Inr (kv_template ?b (format_calendar 1))"
    by (simp add: render_cloud_init_def plain_cloud_init_def plain_block max_kubevirt_cloud_init_size_def
        Let_def is_zero_def)
  have "format_calendar (ci_expires_at plain_cloud_init) = ''0001-01-01 00:00:00 UTC''" by code_simp
  with cloud_init_bounded_and_armed [OF r] r show ?thesis by auto
qed


section \<open>Transport and configurations\<close>

text \<open>C16: A transport configuration that loads names an absolute endpoint without
  credentials, path or query whose port is in range; plain http is accepted only when
  insecure is set, and otherwise the client certificate and key match and verify against
  the configured CA.\<close>

theorem loaded_transport_is_safe:
  assumes "load_transport_config lib rd ep ca cert key insecure = Inr c"
  shows "t_gateway_endpoint c = ep \<and> t_insecure c = insecure \<and>
    (\<exists>u. parse_request_uri lib ep = Some u \<and> u_hostname u \<noteq> [] \<and> \<not> u_has_user u \<and>
       u_scheme u = (if insecure then ''http'' else ''https'') \<and>
       (u_port u \<noteq> [] \<longrightarrow> (\<exists>v. atoi (u_port u) = Some v \<and> 1 \<le> v \<and> v \<le> 65535))) \<and>
    (\<not> insecure \<longrightarrow> append_certs lib (t_ca_cert_pem c) \<and>
       (\<exists>leaf chain. x509_key_pair lib (t_client_cert_pem c) (t_client_key_pem c) = Inr (leaf # chain) \<and>
          verify_client_cert lib leaf (t_ca_cert_pem c) chain = None))"
  using load_transport_valid [OF assms] validate_transport_scheme [of lib c] validate_transport_tls [of lib c]
  by auto

definition tls_lib :: transport_lib where
  "tls_lib =
     \<lparr>parse_request_uri = (\<lambda>_. Some (plain_url\<lparr>u_scheme := ''https''\<rparr>)),
      append_certs = (\<lambda>s. s = ''CA''), x509_key_pair = (\<lambda>c k. if c = ''C'' \<and> k = ''K'' then Inr [''leaf''] else Inl ErrCanceled),
      parse_certificate = (\<lambda>_. None), verify_client_cert = (\<lambda>_ ca _. if ca = ''CA'' then None else Some ErrCanceled)\<rparr>"

definition tls_files :: "bytestr \<Rightarrow> goerr + bytestr" where
  "tls_files p = (if p = ''a'' then Inr ''CA'' else if p = ''b'' then Inr ''C'' else Inr ''K'')"

theorem loaded_transport_is_safe_witness:
  "\<exists>c. load_transport_config tls_lib tls_files ''https://gw:8080'' ''a'' ''b'' ''c'' False = Inr c \<and>
     append_certs tls_lib (t_ca_cert_pem c)"
proof -
  have a: "atoi ''8080'' = Some 8080" by code_simp
  obtain c where c: "load_transport_config tls_lib tls_files ''https://gw:8080'' ''a'' ''b'' ''c'' False = Inr c"
    using a by (simp add: load_transport_config_def read_required_file_def tls_files_def tls_lib_def
        validate_transport_def validate_endpoint_def validate_certs_def plain_url_def zero_transport_def
        Let_def max_tls_file_size_def)
  show ?thesis using loaded_transport_is_safe [OF c] c by blast
qed

text \<open>The EC2 configuration is accepted exactly when every identifier has its AWS form,
  the transport is valid, the gateway id is present and within 256 bytes, no field holds a
  line break, and the interval, disk, capacity and age are in their ranges.\<close>

theorem ec2_config_valid_iff:
  assumes "set ks = fst ` set (ec2_config_fields c)"
  shows "ec2_validate_config lib ks c = None \<longleftrightarrow>
    id_pattern ''ami-'' (e_ami_id c) \<and> id_pattern ''subnet-'' (e_subnet_id c) \<and>
    id_pattern ''sg-'' (e_security_group_id c) \<and> validate_transport lib (e_transport c) = None \<and>
    instance_pattern (e_default_instance c) \<and> region_pattern (e_region c) \<and>
    e_gateway_id c \<noteq> [] \<and> length (e_gateway_id c) \<le> 256 \<and> \<not> line_break (e_gateway_id c) \<and>
    \<not> line_break (e_region c) \<and> \<not> line_break (e_key_name c) \<and>
    in_range 0 hour (e_poll_interval c) \<and> in_range 0 16384 (e_disk_size_gb c) \<and>
    in_range 0 1000 (e_max_instances c) \<and> in_range 0 (30 * 24 * hour) (e_max_instance_age c)"
  by (rule ec2_validate_config_core [OF assms])

definition ec2_sample_config :: ec2_config where
  "ec2_sample_config =
     ec2_default_config\<lparr>e_ami_id := ''ami-0a'', e_subnet_id := ''subnet-0b'',
       e_security_group_id := ''sg-0c'', e_gateway_id := ''gw1'', e_transport := plain_transport\<rparr>"

definition ec2_config_keys :: "bytestr list" where
  "ec2_config_keys =
     [''AMIID'', ''SubnetID'', ''SecurityGroupID'', ''GatewayID'', ''DefaultInstance'', ''Region'', ''KeyName'']"

lemma ec2_config_keys: "set ec2_config_keys = fst ` set (ec2_config_fields c)"
  by (simp add: ec2_config_keys_def ec2_config_fields_def)

theorem ec2_config_valid_iff_witness:
  "ec2_validate_config plain_lib ec2_config_keys ec2_sample_config = None"
proof -
  have "id_pattern ''ami-'' ''ami-0a''" "id_pattern ''subnet-'' ''subnet-0b''" "id_pattern ''sg-'' ''sg-0c''"
    "instance_pattern ''c7i.4xlarge''" "region_pattern ''us-east-1''"
    "\<not> line_break ''gw1''" "\<not> line_break ''us-east-1''" "\<not> line_break []" by code_simp+
  then show ?thesis
    unfolding ec2_config_valid_iff [OF ec2_config_keys]
    by (simp add: ec2_sample_config_def ec2_default_config_def plain_valid in_range_def hour_def
        minute_def second_def)
qed

text \<open>The KubeVirt configuration is accepted exactly when its names are Kubernetes
  names, a storage class is set, the transport is valid, the disk is between 1Gi and 16Ti,
  and the interval, capacity and age are in their ranges.\<close>

theorem kv_config_valid_iff:
  assumes "set ks = fst ` set (kv_config_fields c)"
  shows "kv_validate_config lib klib ks c = None \<longleftrightarrow>
    k_namespace c \<noteq> [] \<and> dns1123_label klib (k_namespace c) \<and>
    k_boot_source c \<noteq> [] \<and> dns1123_subdomain klib (k_boot_source c) \<and>
    k_boot_source_namespace c \<noteq> [] \<and> dns1123_label klib (k_boot_source_namespace c) \<and>
    k_default_instance_type c \<noteq> [] \<and> dns1123_subdomain klib (k_default_instance_type c) \<and>
    (k_default_preference c = [] \<or> dns1123_subdomain klib (k_default_preference c)) \<and>
    k_storage_class c \<noteq> [] \<and> dns1123_subdomain klib (k_storage_class c) \<and>
    validate_transport lib (k_transport c) = None \<and>
    k_gateway_id c \<noteq> [] \<and> length (k_gateway_id c) \<le> 256 \<and>
    k_disk_size c \<noteq> [] \<and> (\<exists>q. parse_quantity klib (k_disk_size c) = Inr q \<and> gib \<le> q \<and> q \<le> 16 * tib) \<and>
    in_range 0 hour (k_poll_interval c) \<and> in_range 0 1000 (k_max_instances c) \<and>
    in_range 0 (30 * 24 * hour) (k_max_instance_age c) \<and>
    (\<forall>f \<in> set (kv_config_fields c). \<not> line_break (snd f))"
  by (rule kv_validate_config_core [OF assms])

definition kv_sample_config :: kv_config where
  "kv_sample_config =
     kv_default_config\<lparr>k_storage_class := ''fast'', k_gateway_id := ''gw1'', k_transport := plain_transport\<rparr>"

definition sample_k8s :: k8s_lib where
  "sample_k8s =
     \<lparr>dns1123_label = (\<lambda>s. s \<in> {''openshell'', ''openshift-virtualization-os-images''}),
      dns1123_subdomain = (\<lambda>s. s \<in> {''fedora'', ''cx1.4xlarge'', ''fast''}),
      parse_quantity = (\<lambda>s. if s = ''100Gi'' then Inr (100 * gib) else Inl ErrCanceled)\<rparr>"

definition kv_config_keys :: "bytestr list" where
  "kv_config_keys =
     [''Namespace'', ''BootSource'', ''BootSourceNamespace'', ''DefaultInstanceType'',
      ''DefaultPreference'', ''StorageClass'', ''GatewayID'', ''DiskSize'']"

lemma kv_config_keys: "set kv_config_keys = fst ` set (kv_config_fields c)"
  by (simp add: kv_config_keys_def kv_config_fields_def)

theorem kv_config_valid_iff_witness:
  "kv_validate_config plain_lib sample_k8s kv_config_keys kv_sample_config = None"
proof -
  have "\<forall>s \<in> {''openshell'', ''fedora'', ''openshift-virtualization-os-images'', ''cx1.4xlarge'', [],
      ''fast'', ''gw1'', ''100Gi''}. \<not> line_break s" by code_simp
  then show ?thesis
    unfolding kv_config_valid_iff [OF kv_config_keys]
    by (simp add: kv_sample_config_def kv_default_config_def kv_config_fields_def sample_k8s_def plain_valid
        in_range_def hour_def minute_def second_def gib_def tib_def)
qed

end
