(* ===== verification/RegistryTheorems.thy ===== *)
theory RegistryTheorems
  imports Ec2Watcher
begin

text \<open>
  The properties of pkg/safeguards: generations and leases, reservations, and what the
  watchers of the registry see.
\<close>

definition demo_limits :: limits where
  "demo_limits = \<lparr>max_instances = 2, max_instance_age = 8 * hour\<rparr>"

definition demo_record :: srecord where
  "demo_record = zero_record\<lparr>r_sandbox_id := ''a'', r_name := ''n'', r_state := ''launching''\<rparr>"

text \<open>The registry after the sandbox was reserved once and rolled back.\<close>

definition demo_registry :: registry where
  "demo_registry = rollback ''a'' (snd (reserve_with_lease demo_record (new_registry demo_limits)))"

lemma demo_registry_simp:
  "demo_registry = (new_registry demo_limits)\<lparr>reg_next_lease := 1\<rparr>"
  by (simp add: demo_registry_def reserve_with_lease_def rollback_def new_registry_def reg_lookup_def
      demo_record_def zero_record_def effective_max_instances_def demo_limits_def Let_def)

text \<open>C9: A commit guarded by a lease of an earlier generation of a sandbox id changes
  nothing and says so, whatever else the guard asks: once the id was reserved again, a
  delayed commit of the first creation cannot touch the new record.\<close>

theorem stale_lease_commit_rejected:
  assumes "lease_issued r l" and "leases_left r" and "reserve_with_lease rc r = (Inr l', r')"
  shows "update_if (r_sandbox_id rc) (\<lambda>c. r_lease c = l \<and> q c) fn r' = ((zero_record, False), r')"
  by (rule reg.delayed_commit_rejected [OF assms])

theorem stale_lease_commit_rejected_witness:
  "\<exists>r'. reserve_with_lease demo_record demo_registry = (Inr 2, r') \<and>
     update_if ''a'' (\<lambda>c. r_lease c = 1 \<and> r_state c = ''launching'') (\<lambda>c. c\<lparr>r_state := ''running''\<rparr>) r' =
       ((zero_record, False), r')"
proof -
  have "lease_issued demo_registry 1" "leases_left demo_registry"
    by (simp_all add: demo_registry_simp lease_issued_def leases_left_def)
  moreover obtain r' where "reserve_with_lease demo_record demo_registry = (Inr 2, r')"
    by (simp add: reserve_with_lease_def demo_registry_simp new_registry_def reg_lookup_def
        effective_max_instances_def demo_limits_def Let_def)
  ultimately show ?thesis
    using stale_lease_commit_rejected [of demo_registry 1 demo_record 2 r' "\<lambda>c. r_state c = ''launching''"]
    by (simp add: demo_record_def)
qed

text \<open>A reservation that is rolled back leaves every lookup as it was.\<close>

theorem reserve_rollback_restores:
  assumes "r_instance_id rc = []" and "reserve_with_lease rc r = (Inr l, r')"
  shows "reg_lookup (rollback (r_sandbox_id rc) r') = reg_lookup r"
  by (rule reg.reserve_rollback [OF assms(2,1)])

theorem reserve_rollback_restores_witness:
  "\<exists>r'. reserve_with_lease demo_record (new_registry demo_limits) = (Inr 1, r') \<and>
     reg_lookup (rollback ''a'' r') = Map.empty"
proof -
  obtain r' where "reserve_with_lease demo_record (new_registry demo_limits) = (Inr 1, r')"
    by (simp add: reserve_with_lease_def new_registry_def reg_lookup_def
        effective_max_instances_def demo_limits_def Let_def)
  then show ?thesis using reserve_rollback_restores [of demo_record "new_registry demo_limits" 1 r']
    by (simp add: demo_record_def zero_record_def)
qed

text \<open>A broadcast reaches every open watcher whose buffer has room, in order and
  without blocking; it closes the channel of a watcher whose buffer is full; it never
  touches a closed channel and no channel operation panics.\<close>

theorem broadcast_delivers_or_disconnects:
  assumes "watch_ok r" and "ch < length (reg_chans r)"
  shows "(let c = reg_chans r ! ch; c' = reg_chans (broadcast ev r) ! ch
    in c' = (if ch_closed c then c
             else if length (ch_buf c) < 64 then c\<lparr>ch_buf := ch_buf c @ [ev]\<rparr>
             else c\<lparr>ch_closed := True\<rparr>)) \<and> \<not> reg_panic (broadcast ev r)"
  using broadcast_chan [OF assms, of ev] watch_ok_broadcast [OF assms(1), of ev] assms
  by (auto simp: after_broadcast_def full_def watch_ok_def watch_buffer_size_def Let_def)

theorem broadcast_delivers_or_disconnects_witness:
  "reg_chans (broadcast (EvDeleted ''a'') (snd (subscribe [] (new_registry demo_limits)))) ! 0 =
     \<lparr>ch_buf = [EvDeleted ''a''], ch_closed = False\<rparr>"
proof -
  let ?r = "snd (subscribe [] (new_registry demo_limits))"
  have "watch_ok ?r" by (rule watch_ok_subscribe) simp
  moreover have "0 < length (reg_chans ?r)" "reg_chans ?r ! 0 = \<lparr>ch_buf = [], ch_closed = False\<rparr>"
    by (simp_all add: subscribe_def new_registry_def)
  ultimately show ?thesis
    using broadcast_delivers_or_disconnects [of ?r 0 "EvDeleted ''a''"] by (simp add: Let_def)
qed

text \<open>C12: After Subscribe, in any order of broadcasts, receives, other subscriptions and
  removals, what a subscriber received together with what waits in its buffer is a prefix
  of the events broadcast since, and all of them while its channel is open: no event is
  lost, repeated or reordered without the channel being closed.\<close>

theorem subscriber_sees_prefix:
  assumes "watch_ok r"
  shows "case subscribe ks r of ((ch, recs), r1) \<Rightarrow>
    case watch_run ch ops r1 of (got, sent, r2) \<Rightarrow>
      prefix (got @ ch_buf (reg_chans r2 ! ch)) sent \<and>
      (ch_closed (reg_chans r2 ! ch) \<or> got @ ch_buf (reg_chans r2 ! ch) = sent) \<and> \<not> reg_panic r2"
proof -
  obtain ch recs r1 where s: "subscribe ks r = ((ch, recs), r1)" by (metis surj_pair)
  obtain got sent r2 where w: "watch_run ch ops r1 = (got, sent, r2)" by (metis surj_pair)
  show ?thesis using subscriber_sees [OF assms s w] s w by auto
qed

theorem subscriber_sees_prefix_witness:
  "case subscribe [] (new_registry demo_limits) of ((ch, recs), r1) \<Rightarrow>
    case watch_run ch [OpBroadcast (EvDeleted ''a''), OpReceive 0, OpBroadcast (EvDeleted ''b'')] r1 of
      (got, sent, r2) \<Rightarrow> prefix (got @ ch_buf (reg_chans r2 ! ch)) sent"
proof -
  let ?ops = "[OpBroadcast (EvDeleted ''a''), OpReceive 0, OpBroadcast (EvDeleted ''b'')]"
  have "watch_ok (new_registry demo_limits)" by simp
  from subscriber_sees_prefix [OF this, of ?ops "[]"] show ?thesis by (auto split: prod.splits)
qed

end
