(* ===== verification/Ec2Theorems.thy ===== *)
theory Ec2Theorems
  imports Ec2Props LibraryTheorems RegistryTheorems
begin

text \<open>
  The properties of the EC2 driver: requests, the AWS adapter, creation, and the
  reconciliation of a poll.
\<close>

section \<open>Requests\<close>

text \<open>A sandbox that asks for nothing special.\<close>

definition plain_template :: driver_template where
  "plain_template =
     \<lparr>tm_image = [], tm_agent_socket_path = [], tm_labels = [], tm_environment = [],
      tm_resources = None, tm_platform_config = None, tm_driver_config = None\<rparr>"

definition plain_spec :: driver_spec where
  "plain_spec =
     \<lparr>sp_log_level = [], sp_environment = [], sp_template = Some plain_template,
      sp_resource_requirements = None, sp_sandbox_token = ''tok''\<rparr>"

definition plain_sandbox :: driver_sandbox where
  "plain_sandbox =
     \<lparr>sb_id = ''sb'', sb_name = ''name'', sb_namespace = [], sb_spec = Some plain_spec,
      sb_status = None, sb_workspace = []\<rparr>"

text \<open>C29: A create request is accepted exactly when the sandbox has an id, a name, a spec
  and a template, every text is within its size and free of control characters, the log
  level is known, no GPU is asked for and every quantity given parses.\<close>

theorem ec2_request_valid_iff:
  assumes "set ck = set cpu_keys" and "set mk = set mem_keys"
  shows "ec2_validate_sandbox ck mk sbo = None \<longleftrightarrow>
    (\<exists>sb sp tm. sbo = Some sb \<and> sb_spec sb = Some sp \<and> sp_template sp = Some tm \<and>
       sb_id sb \<noteq> [] \<and> length (sb_id sb) \<le> 256 \<and> sb_name sb \<noteq> [] \<and> length (sb_name sb) \<le> 246 \<and>
       length (sb_namespace sb) \<le> 256 \<and> length (sb_workspace sb) \<le> 256 \<and>
       length (sp_sandbox_token sp) \<le> 16 * 1024 \<and>
       \<not> has_control (sb_id sb) \<and> \<not> has_control (sb_name sb) \<and> \<not> has_control (sb_namespace sb) \<and>
       \<not> has_control (sb_workspace sb) \<and> \<not> has_control (sp_sandbox_token sp) \<and>
       sp_log_level sp \<in> log_levels \<and> \<not> gpu_requested sp \<and>
       (\<forall>q. tm_resources tm = Some q \<longrightarrow>
          quantity_ok parse_cpu (cpu_request q) \<and> quantity_ok parse_cpu (cpu_limit q) \<and>
          quantity_ok parse_memory (memory_request q) \<and> quantity_ok parse_memory (memory_limit q)))"
  by (rule ec2_validate_sandbox_core) (use assms in \<open>simp_all add: cpu_keys_def mem_keys_def\<close>)

theorem ec2_request_valid_iff_witness: "ec2_validate_sandbox cpu_keys mem_keys (Some plain_sandbox) = None"
  unfolding ec2_request_valid_iff [OF refl refl]
  using no_ctl
  by (simp add: plain_sandbox_def plain_spec_def plain_template_def log_levels_def gpu_requested_def)

text \<open>C31: A provider error never reaches the client: the status carries one of six fixed
  messages with its code, and cancellation and deadline take precedence over what AWS said.\<close>

theorem ec2_provider_error_sanitized:
  "(\<exists>c m. ec2_provider_error c1 c2 err = Status c (ErrNew m) \<and> (c, m) \<in> ec2_provider_messages) \<and>
   (errors_is err ErrCanceled \<or> c1 = Some CtxCanceled \<longleftrightarrow>
      status_code (ec2_provider_error c1 c2 err) = Canceled)"
  using ec2_provider_error_sanitized_core [of c1 c2 err]
  by (auto simp: ec2_provider_error_def ec2_api_status_def Let_def split: option.split)

section \<open>The AWS adapter\<close>

text \<open>C32: The tags of a launch read back as the sandbox they were written for, creation
  time to the nanosecond: a driver that restarts recovers every sandbox from its tags.\<close>

theorem launch_tags_roundtrip:
  assumes "printable_time (ls_created_at spec)"
  shows "normalize_instance (tagged_raw spec i None st) =
    \<lparr>i_id = i, i_sandbox_id = ls_sandbox_id spec, i_name = ls_name spec,
     i_namespace = ls_namespace spec, i_workspace = ls_workspace spec, i_state = to_string st,
     i_created_at = ls_created_at spec\<rparr>"
  by (rule normalize_tagged_core [OF assms])

definition demo_spec :: launch_spec where
  "demo_spec =
     \<lparr>ls_sandbox_id = ''sb'', ls_name = ''name'', ls_namespace = [], ls_workspace = [],
      ls_gateway_id = ''gw1'', ls_image_id = ''ami-0a'', ls_instance_type = ''c7i.large'',
      ls_subnet_id = ''subnet-0b'', ls_security_group_id = ''sg-0c'', ls_key_name = [],
      ls_user_data = [], ls_client_token = [], ls_use_spot = False, ls_disk_size_gb = 20,
      ls_created_at = 63000000000000000123, ls_max_lifetime = ''8h0m0s''\<rparr>"

theorem launch_tags_roundtrip_witness:
  "i_created_at (normalize_instance (tagged_raw demo_spec ''i-1'' None None)) = 63000000000000000123 \<and>
   i_sandbox_id (normalize_instance (tagged_raw demo_spec ''i-1'' None None)) = ''sb''"
proof -
  have "printable_time (ls_created_at demo_spec)"
    by (simp add: printable_time_def demo_spec_def day_ns_def second_def)
  from launch_tags_roundtrip [OF this] show ?thesis by (simp add: demo_spec_def)
qed

text \<open>C34: Listing ends and is complete: over a service whose pages end, as many rounds as
  pages give every instance of every reservation of every page, in order.\<close>

theorem list_all_pages:
  assumes "serves api (list_filters f) pages" and "pages \<noteq> []" and "length pages \<le> fuel"
  shows "aws_list api fuel f w = Some (Inr (map normalize_instance (concat (concat pages))), w)"
  by (rule aws_list_core [OF assms])

definition demo_raw :: raw_instance where
  "demo_raw = tagged_raw demo_spec ''i-1'' (Some 5) (Some ''running'')"

definition demo_api :: "unit ec2_api" where
  "demo_api =
     \<lparr>run_instances = (\<lambda>ri w. (Inr (Some [demo_raw]), w)), terminate_instances = (\<lambda>_ w. (None, w)),
      stop_instances = (\<lambda>_ w. (None, w)), next_page = (\<lambda>_ n w. (Inr ([[demo_raw]], n = 0), w))\<rparr>"

theorem list_all_pages_witness:
  "aws_list demo_api 2 \<lparr>if_gateway_id = ''gw1'', if_sandbox_id = [], if_name = []\<rparr> () =
     Some (Inr [normalize_instance demo_raw, normalize_instance demo_raw], ())"
proof -
  have "serves demo_api (list_filters f) [[[demo_raw]], [[demo_raw]]]" for f
    by (auto simp: serves_def demo_api_def less_Suc_eq)
  from list_all_pages [OF this, of 2] show ?thesis by simp
qed

text \<open>A launch that succeeds gives an instance with an identity and, when the request
  carried a creation time, with one too, so that its age is always bounded; a malformed
  response is an error.\<close>

theorem launch_answers_usable:
  assumes "aws_launch api spec w = (Inr i, w')" and "\<not> is_zero (ls_created_at spec)"
  shows "i_id i \<noteq> [] \<and> \<not> is_zero (i_created_at i)"
  by (rule aws.launch_ok [OF assms])

theorem launch_answers_usable_witness:
  "\<exists>i. aws_launch demo_api demo_spec () = (Inr i, ()) \<and> i_id i \<noteq> [] \<and> \<not> is_zero (i_created_at i)"
proof -
  have "i_id (normalize_instance demo_raw) = ''i-1''"
    by (simp add: normalize_instance_def demo_raw_def tagged_raw_def to_string_def Let_def)
  then obtain i where i: "aws_launch demo_api demo_spec () = (Inr i, ())"
    by (simp add: aws_launch_def demo_api_def Let_def)
  have "\<not> is_zero (ls_created_at demo_spec)" by (simp add: is_zero_def demo_spec_def)
  from launch_answers_usable [OF i this] i show ?thesis by blast
qed

end
