(* ===== verification/Ec2DriverTheorems.thy ===== *)
theory Ec2DriverTheorems
  imports Ec2Poll Ec2Theorems
begin

text \<open>
  The properties of the EC2 driver's handlers and of its reconciliation, each with a run of
  the driver in a small world: a provider that lists the given instances and accepts
  every call, a clock that stands still.
\<close>

definition demo_runtime :: "unit runtime" where
  "demo_runtime =
     \<lparr>rt_now = (\<lambda>w. (64000000000000000000, w)), rt_order = (\<lambda>ks w. (ks, w)), rt_ctx_err = (\<lambda>w. (None, w)),
      rt_sha256 = (\<lambda>_. []), rt_send = (\<lambda>_ w. (None, w)), rt_done = (\<lambda>w. (None, w))\<rparr>"

definition demo_inst :: ec2_inst where
  "demo_inst =
     \<lparr>i_id = ''i-1'', i_sandbox_id = ''sb'', i_name = ''name'', i_namespace = [], i_workspace = [],
      i_state = ''running'', i_created_at = 63999999000000000000\<rparr>"

definition demo_env :: "ec2_inst list \<Rightarrow> unit ec2_env" where
  "demo_env is =
     \<lparr>ee_config = ec2_sample_config, ee_runtime = demo_runtime, ee_launch = (\<lambda>_ w. (Inr demo_inst, w)),
      ee_list = (\<lambda>_ w. (Inr is, w)), ee_stop = (\<lambda>_ w. (None, w)), ee_terminate = (\<lambda>_ w. (None, w)),
      ee_transport_lib = plain_lib, ee_print_table = (\<lambda>_. True), ee_sort = insertion_sort,
      ee_sort_instances = insertion_sort\<rparr>"

definition demo_sys :: "unit sys" where
  "demo_sys = \<lparr>sy_reg = new_registry demo_limits, sy_world = ()\<rparr>"

lemma demo_env_simps [simp]:
  "ee_runtime (demo_env is) = demo_runtime" "ee_config (demo_env is) = ec2_sample_config"
  "ee_sort_instances (demo_env is) = insertion_sort" "ee_list (demo_env is) f w = (Inr is, w)"
  "ee_terminate (demo_env is) ids w = (None, w)"
  by (simp_all add: demo_env_def)

lemma demo_runtime_simps [simp]:
  "rt_now demo_runtime w = (64000000000000000000, w)" "rt_order demo_runtime ks w = (ks, w)"
  "rt_ctx_err demo_runtime w = (None, w)"
  by (simp_all add: demo_runtime_def)

lemma unit_world [simp]: "(s :: unit sys)\<lparr>sy_world := u\<rparr> = s"
  by (cases s) simp

lemma demo_fair: "fair_order demo_runtime"
  by (simp add: fair_order_def)

section \<open>Creation\<close>

text \<open>C7: CreateSandbox either fails and every lookup of the registry is as before, or it
  succeeds: the sandbox id was free, the registry below its limit, the machine type
  selected for the request was launched for that id, and the registry now also holds the
  launched instance under the id, without the sandbox token.\<close>

theorem ec2_create_outcome:
  "case run (ec2_create_sandbox env sbo) s of (res, s') \<Rightarrow>
     (\<exists>st. res = Inl st) \<and> reg_lookup (sy_reg s') = reg_lookup (sy_reg s) \<or>
     (\<exists>sb. sbo = Some sb \<and> res = Inr () \<and> ec2_created env sb (sy_reg s) (sy_reg s'))"
  using ec2_create_outcome_core [of env sbo s] by (auto split: prod.split)

section \<open>Reconciliation\<close>

text \<open>C5: After a poll that succeeded, a sandbox with listed instances is tracked with the
  identity and state of the instance kept (or marked as shutting down when it expired),
  and has no record when the instance kept is terminated; a sandbox without listed
  instances keeps its record while it is a reservation, counts one more missing poll, and
  loses its record at the third.\<close>

theorem ec2_poll_reconciles:
  assumes "instance_sorter (ee_sort_instances env)" and "fair_order (ee_runtime env)"
    and "core_inv (sy_reg s)"
    and "run (ec2_poll env) s = (None, s')"
    and "fst (ee_list env \<lparr>if_gateway_id = e_gateway_id (ee_config env), if_sandbox_id = [],
           if_name = []\<rparr> (sy_world s)) = Inr is"
  shows "if i \<in> listed_ids is
    then (let m = kept env (matches_of i is)
          in if i_state m = ''terminated'' then reg_lookup (sy_reg s') i = None
             else \<exists>rc. reg_lookup (sy_reg s') i = Some rc \<and> r_instance_id rc = i_id m \<and>
               r_missing_polls rc = 0 \<and> r_state rc \<in> {i_state m, ''shutting-down''})
    else (case reg_lookup (sy_reg s) i of
            None \<Rightarrow> reg_lookup (sy_reg s') i = None
          | Some rc \<Rightarrow>
              if r_instance_id rc = [] then reg_lookup (sy_reg s') i = Some rc
              else if wrap64 (r_missing_polls rc + 1) \<ge> 3 then reg_lookup (sy_reg s') i = None
              else \<exists>rc'. reg_lookup (sy_reg s') i = Some rc' \<and> r_instance_id rc' = r_instance_id rc \<and>
                r_missing_polls rc' = wrap64 (r_missing_polls rc + 1))"
  by (rule instance_sorter.poll_run [OF assms(1) refl assms(2-5)])

lemma demo_sorter: "instance_sorter (ee_sort_instances (demo_env is))"
  using ins_inst.instance_sorter_axioms by simp

lemma demo_by_sandbox: "by_sandbox [demo_inst] = [(''sb'', [demo_inst])]"
  by (simp add: by_sandbox_def add_to_group_def demo_inst_def)

lemma demo_recover:
  "run (ec2_poll (demo_env [demo_inst])) demo_sys = (None, snd (run (ec2_poll (demo_env [demo_inst])) demo_sys))"
proof -
  let ?env = "demo_env [demo_inst]"
  let ?rc = "ec2_record_from_instance 64000000000000000000 demo_inst"
  have t: "\<not> is_zero (i_created_at demo_inst)" by (simp add: is_zero_def demo_inst_def)
  have "\<not> i_created_at demo_inst > 64000000000000000000 + 5 * minute"
    by (simp add: demo_inst_def minute_def second_def)
  moreover have "fst (add_record (Some (?rc\<lparr>r_created_at := i_created_at demo_inst\<rparr>)) (sy_reg demo_sys)) = None"
    by (simp add: add_error demo_sys_def)
  ultimately have rec: "fst (run (ec2_recover ?env ''sb'' demo_inst) demo_sys) = Inr ()"
    using t by (simp add: ec2_recover_def ec2_trust_created_at_def exec Let_def)
  have "fst (run (ec2_reconcile ?env ''sb'' demo_inst) demo_sys) = Inr ()"
    using rec by (simp add: ec2_reconcile_def exec get_record_def demo_sys_def) (simp add: demo_inst_def)
  then have "fst (run (ec2_poll_sandbox ?env ''sb'' [demo_inst]) demo_sys) = Inr ()"
    by (simp add: ec2_poll_sandbox_def insertion_sort_def)
  then have "fst (run (ec2_poll_listed ?env (by_sandbox [demo_inst])) (demo_sys\<lparr>sy_world := ()\<rparr>)) = Inr [''sb'']"
    by (simp add: ec2_poll_listed_def demo_by_sandbox exec map_keys_def split_def)
  then have "fst (run (ec2_poll ?env) demo_sys) = None"
    by (intro poll_succeeds) (simp_all add: demo_sys_def demo_fair)
  then show ?thesis by (metis prod.collapse)
qed

theorem ec2_poll_reconciles_witness:
  "\<exists>rc. reg_lookup (sy_reg (snd (run (ec2_poll (demo_env [demo_inst])) demo_sys))) ''sb'' = Some rc \<and>
     r_instance_id rc = ''i-1'' \<and> r_missing_polls rc = 0"
proof -
  have "core_inv (sy_reg demo_sys)" by (simp add: demo_sys_def)
  note P = ec2_poll_reconciles [OF demo_sorter _ this demo_recover, of "[demo_inst]" "''sb''"]
  have "kept (demo_env [demo_inst]) (matches_of ''sb'' [demo_inst]) = demo_inst"
    by (simp add: kept_def matches_of_def insertion_sort_def demo_inst_def)
  then show ?thesis using P demo_fair by (auto simp: listed_ids_def demo_inst_def Let_def)
qed


text \<open>C23: The expiry pass asks for the termination of every expired record with an
  instance that is not shutting down already: the record is marked as shutting down, or
  the provider refused and it stays for the next poll.\<close>

theorem ec2_expired_are_terminated:
  assumes "core_inv (sy_reg s)" and "fair_order (ee_runtime env)"
    and "run (ec2_poll_expired env) s = (r, s')" and "reg_lookup (sy_reg s) i = Some rc"
    and "is_expired (effective_max_age (reg_limits (sy_reg s)))
           (fst (rt_now (ee_runtime env) (sy_world s))) rc"
    and "r_instance_id rc \<noteq> []" and "r_state rc \<noteq> ''shutting-down''"
  shows "r = Inr () \<and>
    ((\<exists>w t. fst (ee_terminate env [r_instance_id rc] w) = None \<and>
        reg_lookup (sy_reg s') i = Some (clone_record (ec2_mark ''shutting-down'' t rc))) \<or>
     (\<exists>w. fst (ee_terminate env [r_instance_id rc] w) \<noteq> None \<and> reg_lookup (sy_reg s') i = Some rc))"
proof -
  have ok: "reg_ok (sy_reg s)" using assms(1) by (simp add: core_inv_def)
  note E = poll_expired_run [OF ok assms(2,3)]
  have "expire_outcome env rc (reg_lookup (sy_reg s') i)" using E(2) [of i] assms(4,5) by simp
  then show ?thesis using E(1) assms(6,7) by (auto simp: expire_outcome_def)
qed

text \<open>A registry that tracks an instance created eleven hours ago.\<close>

definition old_record :: srecord where
  "old_record = zero_record\<lparr>r_sandbox_id := ''sb'', r_name := ''name'', r_instance_id := ''i-1'',
     r_state := ''running'', r_created_at := 63999960000000000000\<rparr>"

definition old_sys :: "unit sys" where
  "old_sys = \<lparr>sy_reg = snd (add_record (Some old_record) (new_registry demo_limits)), sy_world = ()\<rparr>"

lemma new_registry_next: "reg_next_lease (new_registry l) = 0"
  by (simp add: new_registry_def)

lemma old_sys_lookup: "reg_lookup (sy_reg old_sys) ''sb'' = Some (old_record\<lparr>r_lease := 1\<rparr>)"
  by (simp add: old_sys_def add_lookup new_registry_next old_record_def zero_record_def clone_record_def
      clone_redacted_spec_def clone_status_def)

lemma old_sys_inv: "core_inv (sy_reg old_sys)"
  unfolding old_sys_def by (simp add: core_add)

theorem ec2_expired_are_terminated_witness:
  "\<exists>t. reg_lookup (sy_reg (snd (run (ec2_poll_expired (demo_env [])) old_sys))) ''sb'' =
     Some (clone_record (ec2_mark ''shutting-down'' t (old_record\<lparr>r_lease := 1\<rparr>)))"
proof -
  have lim: "reg_limits (sy_reg old_sys) = demo_limits"
    by (simp add: old_sys_def add_record_def new_registry_def old_record_def zero_record_def reg_lookup_def Let_def)
  have "is_expired (effective_max_age (reg_limits (sy_reg old_sys)))
      (fst (rt_now (ee_runtime (demo_env [])) (sy_world old_sys))) (old_record\<lparr>r_lease := 1\<rparr>)"
    unfolding lim by (simp add: is_expired_def old_record_def zero_record_def demo_limits_def effective_max_age_def
        is_zero_def time_sub_def min_int64_def max_int64_def hour_def minute_def second_def)
  moreover have "r_instance_id (old_record\<lparr>r_lease := 1\<rparr>) \<noteq> []" "r_state (old_record\<lparr>r_lease := 1\<rparr>) \<noteq> ''shutting-down''"
    by (simp_all add: old_record_def)
  moreover have "fair_order (ee_runtime (demo_env []))" by (simp add: demo_fair)
  ultimately show ?thesis
    using ec2_expired_are_terminated [OF old_sys_inv _ prod.collapse [symmetric] old_sys_lookup,
        of "demo_env []"] by simp
qed

text \<open>Of several instances of a sandbox a poll keeps one that no other precedes in age
  and identity, and asks for the termination of all the others that still exist in one
  accepted call.\<close>

theorem ec2_poll_keeps_oldest:
  assumes "instance_sorter (ee_sort_instances env)" and "length ms > 1"
    and "\<forall>m \<in> set ms. i_sandbox_id m = i" and "run (ec2_poll_sandbox env i ms) s = (Inr (), s')"
  shows "\<exists>others ds w'. mset ms = add_mset (kept env ms) (mset others) \<and>
    (\<forall>m \<in> set ms. \<not> older m (kept env ms)) \<and>
    set ds = i_id ` {m \<in> set others. i_state m \<noteq> ''terminated''} \<and>
    ee_terminate env ds (sy_world s) = (None, w')"
proof -
  let ?srt = "ee_sort_instances env"
  have ne: "ms \<noteq> []" using assms(2) by auto
  note K = instance_sorter.kept_oldest [OF assms(1) refl ne]
  obtain x ys where xs: "?srt older ms = x # ys"
    using ne instance_sorter.axioms [OF assms(1)] slice_sort.sort_length
    by (metis length_0_conv list.exhaust)
  have k: "kept env ms = x" "tl (?srt older ms) = ys" by (simp_all add: kept_def xs)
  have m: "mset ms = add_mset (kept env ms) (mset ys)"
    using slice_sort.head_least(3) [OF instance_sorter.axioms [OF assms(1)] _ xs] k by simp
  from instance_sorter.poll_sandbox_run(2) [OF assms(1,4) refl ne assms(3,2)]
  obtain ds w' where d: "ee_terminate env ds (sy_world s) = (None, w')"
    "set ds = i_id ` {m \<in> set ys. i_state m \<noteq> ''terminated''}" using k by auto
  with m K(2) show ?thesis by blast
qed

definition newer_inst :: ec2_inst where
  "newer_inst = demo_inst\<lparr>i_id := ''i-2'', i_created_at := 63999999500000000000\<rparr>"

theorem ec2_poll_keeps_oldest_witness:
  "run (ec2_poll_sandbox (demo_env []) ''sb'' [newer_inst, demo_inst]) old_sys = (Inr (), old_sys) \<and>
     \<not> older newer_inst (kept (demo_env []) [newer_inst, demo_inst])"
proof -
  have s: "insertion_sort older [newer_inst, demo_inst] = [demo_inst, newer_inst]"
    by (simp add: insertion_sort_def older_def newer_inst_def demo_inst_def)
  have "run (ec2_reconcile (demo_env []) ''sb'' demo_inst) old_sys = (Inr (), old_sys)"
    by (simp add: ec2_reconcile_def exec get_record_def old_sys_lookup)
      (simp add: demo_inst_def old_record_def zero_record_def)
  then have r: "run (ec2_poll_sandbox (demo_env []) ''sb'' [newer_inst, demo_inst]) old_sys = (Inr (), old_sys)"
    by (simp add: ec2_poll_sandbox_def s exec)
  have "\<forall>m \<in> set [newer_inst, demo_inst]. i_sandbox_id m = ''sb''"
    by (simp add: newer_inst_def demo_inst_def)
  from ec2_poll_keeps_oldest [OF demo_sorter _ this r] have
    "\<forall>m \<in> set [newer_inst, demo_inst]. \<not> older m (kept (demo_env []) [newer_inst, demo_inst])" by auto
  with r show ?thesis by simp
qed


text \<open>C24: An instance found without a record is tracked under its sandbox id; when its
  creation time is unknown or more than five minutes in the future, the record gets one
  that makes it expired from that moment on, so that no instance escapes the age limit.\<close>

theorem ec2_recovery_fails_closed:
  assumes "run (ec2_recover env i inst) s = (Inr (), s')" and "i_state inst \<noteq> ''terminated''"
    and "0 < e_max_instance_age (ee_config env)" and "e_max_instance_age (ee_config env) \<le> 30 * 24 * hour"
    and "\<And>w. 31 * 24 * hour < fst (rt_now (ee_runtime env) w)"
  defines "w \<equiv> snd (rt_now (ee_runtime env) (sy_world s))"
  shows "\<exists>rc. reg_lookup (sy_reg s') (i_sandbox_id inst) = Some rc \<and> r_instance_id rc = i_id inst \<and>
    (if trusted_at env (i_created_at inst) w then r_created_at rc = i_created_at inst
     else \<forall>later \<ge> distrusted_at env (i_created_at inst) w.
       is_expired (e_max_instance_age (ee_config env)) later rc)"
proof -
  let ?c = "ee_config env" and ?d = "distrusted_at env (i_created_at inst) w"
  obtain rc where rc: "reg_lookup (sy_reg s') (i_sandbox_id inst) = Some rc" "r_instance_id rc = i_id inst"
    "r_state rc = i_state inst"
    "r_created_at rc = (if trusted_at env (i_created_at inst) w then i_created_at inst
       else fail_closed_created_at ?c ?d)"
    using recover_run [OF assms(1)] unfolding w_def by blast
  have now: "31 * 24 * hour < ?d" unfolding distrusted_at_def by (rule assms(5))
  have h: "e_max_instance_age ?c \<le> 2592000000000000" using assms(4) by (simp add: hour_def minute_def second_def)
  then have "fail_closed_created_at ?c ?d > 0"
    using assms(3) now
    by (simp add: fail_closed_created_at_def wrap64_id min_int64_def max_int64_def hour_def minute_def second_def)
  then have nz: "\<not> is_zero (fail_closed_created_at ?c ?d)" by (simp add: is_zero_def)
  have "is_expired (e_max_instance_age ?c) later rc"
    if "\<not> trusted_at env (i_created_at inst) w" "?d \<le> later" for later
    using fail_closed_expired [OF assms(3,4) _ _ that(2) nz, of rc] that(1) rc(3,4) assms(2) by simp
  with rc show ?thesis by auto
qed

theorem ec2_recovery_fails_closed_witness:
  "\<exists>rc. reg_lookup (sy_reg (snd (run (ec2_recover (demo_env []) ''sb'' (demo_inst\<lparr>i_created_at := zero_time\<rparr>)) demo_sys))) ''sb'' = Some rc \<and>
     is_expired (8 * hour) 64000000000000000000 rc"
proof -
  let ?inst = "demo_inst\<lparr>i_created_at := zero_time\<rparr>"
  let ?run = "run (ec2_recover (demo_env []) ''sb'' ?inst) demo_sys"
  have z: "is_zero (i_created_at ?inst)" by (simp add: is_zero_def)
  have "fst (add_record (Some ((ec2_record_from_instance 64000000000000000000 ?inst)\<lparr>r_created_at := t\<rparr>)) (sy_reg demo_sys)) = None"
    for t by (simp add: add_error demo_sys_def)
  then have "fst ?run = Inr ()"
    using z by (simp add: ec2_recover_def ec2_trust_created_at_def exec Let_def)
  then have r: "?run = (Inr (), snd ?run)" by (metis prod.collapse)
  have st: "i_state ?inst \<noteq> ''terminated''" by (simp add: demo_inst_def)
  have a: "e_max_instance_age (ee_config (demo_env [])) = 8 * hour"
    by (simp add: ec2_sample_config_def ec2_default_config_def default_max_instance_age_def)
  have n: "31 * 24 * hour < fst (rt_now (ee_runtime (demo_env [])) w)" for w
    by (simp add: hour_def minute_def second_def)
  have b: "0 < e_max_instance_age (ee_config (demo_env []))" "e_max_instance_age (ee_config (demo_env [])) \<le> 30 * 24 * hour"
    unfolding a by (simp_all add: hour_def minute_def second_def)
  have t: "\<not> trusted_at (demo_env []) zero_time w" "distrusted_at (demo_env []) zero_time w = 64000000000000000000" for w
    by (simp_all add: trusted_at_def distrusted_at_def is_zero_def)
  have "i_created_at ?inst = zero_time" "i_sandbox_id ?inst = ''sb''" by (simp_all add: demo_inst_def)
  with ec2_recovery_fails_closed [OF r st b n] show ?thesis unfolding a by (auto simp: t)
qed

section \<open>Deletion\<close>

text \<open>Deleting a tracked sandbox asks the provider to terminate its instance: when it
  accepts, the answer is true and exactly that record is marked as shutting down; when it
  refuses, the answer is an error and the registry is as before.\<close>

theorem ec2_delete_tracked:
  assumes "reg_lookup (sy_reg s) i = Some rc" and "r_instance_id rc \<noteq> []" and "i \<noteq> []"
    and "r_sandbox_id rc = i"
  shows "case run (ec2_delete_sandbox env \<lparr>ref_id = i, ref_name = []\<rparr>) s of (res, s') \<Rightarrow>
    (case ee_terminate env [r_instance_id rc] (sy_world s) of
       (None, w) \<Rightarrow> res = Inr True \<and>
         reg_lookup (sy_reg s') = (reg_lookup (sy_reg s))
           (i \<mapsto> clone_record (ec2_mark ''shutting-down'' (fst (rt_now (ee_runtime env) w)) rc))
     | (Some e, w) \<Rightarrow> (\<exists>st. res = Inl st) \<and> sy_reg s' = sy_reg s)"
proof -
  have r: "run (ec2_resolve env i []) s = (Inr (clone_record rc), s)"
    using assms(1-3) by (simp add: ec2_resolve_def exec get_record_def)
  obtain x w where xw: "ee_terminate env [r_instance_id rc] (sy_world s) = (x, w)" by fastforce
  show ?thesis
  proof (cases x)
    case None
    then show ?thesis using r xw assms(4) update_record_hit [OF assms(1)]
      by (simp add: ec2_delete_sandbox_def exec split_def Let_def broadcast_sandbox_def)
  next
    case (Some e)
    then show ?thesis using r xw fail_run [of env e "s\<lparr>sy_world := w\<rparr>"]
      by (auto simp: ec2_delete_sandbox_def exec split_def)
  qed
qed

theorem ec2_delete_tracked_witness:
  "fst (run (ec2_delete_sandbox (demo_env []) \<lparr>ref_id = ''sb'', ref_name = []\<rparr>) old_sys) = Inr True"
proof -
  have "r_instance_id (old_record\<lparr>r_lease := 1\<rparr>) \<noteq> []" "r_sandbox_id (old_record\<lparr>r_lease := 1\<rparr>) = ''sb''"
    by (simp_all add: old_record_def)
  then show ?thesis using ec2_delete_tracked [OF old_sys_lookup, of "demo_env []"]
    by (simp add: split_def)
qed

section \<open>Defects\<close>

text \<open>C39: When a sandbox id is used again while EC2 still lists the terminated instance of
  its first use, a poll keeps the terminated instance because it is older, has the live
  instance of the new sandbox terminated and drops the record or reservation.\<close>

theorem ec2_recreated_sandbox_lost:
  assumes "instance_sorter (ee_sort_instances env)"
    and "i_state old = ''terminated''" and "i_state new \<noteq> ''terminated''"
    and "i_created_at old < i_created_at new"
    and "ee_terminate env [i_id new] (sy_world s) = (None, w)"
  shows "case run (ec2_poll_sandbox env i [new, old]) s of (res, s') \<Rightarrow>
    res = Inr () \<and> sy_world s' = w \<and> reg_lookup (sy_reg s') i = None"
proof -
  let ?s = "ee_sort_instances env older [new, old]"
  have ol: "older old new" using assms(4) by (simp add: older_def)
  note ax = instance_sorter.axioms [OF assms(1)]
  have "mset ?s = mset [new, old]" by (rule slice_sort.sort_perm [OF ax])
  moreover have "sorted_wrt (\<lambda>a b. \<not> older b a) ?s" by (rule slice_sort.sort_ordered [OF ax]) simp
  moreover obtain a b where ab: "?s = [a, b]"
    using slice_sort.sort_length [OF ax, of "[new, old]"] by (auto simp: length_Suc_conv)
  ultimately have "?s = [old, new]" using ol
    by (auto simp: add_eq_conv_ex)
  then have "run (ec2_poll_sandbox env i [new, old]) s = run (ec2_reconcile env i old) (s\<lparr>sy_world := w\<rparr>)"
    using assms(3,5) by (simp add: ec2_poll_sandbox_def exec)
  then show ?thesis using assms(2)
    by (auto simp: ec2_reconcile_def exec split_def broadcast_deleted_def)
qed

theorem ec2_recreated_sandbox_lost_witness:
  "reg_lookup (sy_reg (snd (run (ec2_poll_sandbox (demo_env []) ''sb''
     [newer_inst, demo_inst\<lparr>i_state := ''terminated''\<rparr>]) old_sys))) ''sb'' = None"
  using ec2_recreated_sandbox_lost [of "demo_env []" "demo_inst\<lparr>i_state := ''terminated''\<rparr>" newer_inst old_sys "()" "''sb''"]
    demo_sorter by (simp add: split_def newer_inst_def) (simp add: demo_inst_def)

text \<open>Resolving a sandbox that only the provider knows records its instance with
  whatever creation time it has: without one the record never expires, unlike a record
  the reconciliation adds.\<close>

theorem ec2_resolve_trusts_creation_time:
  assumes "i \<noteq> []" and "reg_lookup (sy_reg s) i = None"
    and "ee_list env \<lparr>if_gateway_id = e_gateway_id (ee_config env), if_sandbox_id = i, if_name = []\<rparr>
           (sy_world s) = (Inr [inst], w)"
    and "i_state inst \<noteq> ''terminated''" and "i_sandbox_id inst = i" and "is_zero (i_created_at inst)"
  shows "\<exists>rc. reg_lookup (sy_reg (snd (run (ec2_get_sandbox env \<lparr>ref_id = i, ref_name = []\<rparr>) s))) i = Some rc \<and>
    r_instance_id rc = i_id inst \<and> (\<forall>age now. \<not> is_expired age now rc)"
proof -
  have "run (ec2_resolve env i []) s = run (ec2_resolve_remote env i []) s"
    using assms(1,2) by (simp add: ec2_resolve_def exec get_record_def)
  then show ?thesis using assms(2-6)
    by (simp add: ec2_get_sandbox_def ec2_resolve_remote_def exec Let_def add_lookup is_expired_def)
qed

theorem ec2_resolve_trusts_creation_time_witness:
  "\<exists>rc. reg_lookup (sy_reg (snd (run (ec2_get_sandbox (demo_env [demo_inst\<lparr>i_created_at := zero_time\<rparr>])
     \<lparr>ref_id = ''sb'', ref_name = []\<rparr>) demo_sys))) ''sb'' = Some rc \<and>
     \<not> is_expired (8 * hour) 64000000000000000000 rc"
  using ec2_resolve_trusts_creation_time [of "''sb''" demo_sys
      "demo_env [demo_inst\<lparr>i_created_at := zero_time\<rparr>]" "demo_inst\<lparr>i_created_at := zero_time\<rparr>" "()"]
  by (auto simp: demo_sys_def demo_inst_def is_zero_def)

end
