(* ===== verification/KvTheorems.thy ===== *)
theory KvTheorems
  imports KvPoll Ec2DriverTheorems
begin

text \<open>
  The properties of the KubeVirt driver: requests, creation against concurrent deletion,
  reconciliation, backoff.
\<close>

definition demo_vm :: vm_inst where
  "demo_vm =
     \<lparr>v_vm_name = ''openshell-1'', v_sandbox_id = ''sb'', v_name = ''name'', v_namespace = [],
      v_workspace = [], v_state = ''Running'', v_vmi_phase = ''Running'', v_ip = [],
      v_created_at = 63999999000000000000\<rparr>"

definition demo_kv :: "vm_inst list \<Rightarrow> unit kv_env" where
  "demo_kv is =
     \<lparr>ke_config = kv_sample_config, ke_runtime = demo_runtime, ke_check_ready = (\<lambda>w. (None, w)),
      ke_launch = (\<lambda>_ w. (Inr demo_vm, w)), ke_list = (\<lambda>_ w. (Inr is, w)),
      ke_stop = (\<lambda>_ w. (None, w)), ke_terminate = (\<lambda>_ w. (None, w)),
      ke_transport_lib = plain_lib, ke_print_table = (\<lambda>_. True), ke_sort = insertion_sort,
      ke_sort_vms = insertion_sort, ke_rand = (\<lambda>_ w. (0, w)), ke_reset_timer = (\<lambda>_ w. ((), w))\<rparr>"

lemma demo_kv_simps [simp]:
  "ke_runtime (demo_kv is) = demo_runtime" "ke_sort_vms (demo_kv is) = insertion_sort"
  "ke_list (demo_kv is) f w = (Inr is, w)" "ke_terminate (demo_kv is) n w = (None, w)"
  by (simp_all add: demo_kv_def)

lemma demo_vm_sorter: "vm_sorter (ke_sort_vms (demo_kv is))"
  using ins_vm.vm_sorter_axioms by simp

section \<open>Requests and errors\<close>

text \<open>C30: The KubeVirt driver accepts exactly the create requests the EC2 driver accepts that
  ask for none of the things it does not support: an environment, template labels, a
  platform or a driver configuration.\<close>

theorem kv_request_refines_ec2:
  "kv_validate_sandbox ck mk sbo = None \<longleftrightarrow>
     ec2_validate_sandbox ck mk sbo = None \<and>
     (\<exists>sb sp tm. sbo = Some sb \<and> sb_spec sb = Some sp \<and> sp_template sp = Some tm \<and> \<not> kv_unsupported sp tm)"
  by (rule kv_validate_refines_core)

text \<open>A cluster error reaches the client only as one of eight fixed messages with its
  code; cancellation is reported as such whatever the cluster said.\<close>

theorem kv_provider_error_sanitized:
  "(\<exists>c m. kv_provider_error c1 c2 err = Status c (ErrNew m) \<and> (c, m) \<in> kv_provider_messages) \<and>
   (errors_is err ErrCanceled \<or> c1 = Some CtxCanceled \<longleftrightarrow>
      status_code (kv_provider_error c1 c2 err) = Canceled)"
  using kv_provider_error_sanitized_core [of c1 c2 err]
  by (auto simp: kv_provider_error_def kv_reason_status_def)

section \<open>Creation and deletion\<close>

text \<open>C6: CreateSandbox either fails and every lookup of the registry is as before, or it
  succeeds: the id was free, the registry below its limit, the selected machine type was
  launched for that id, and the registry now also holds the machine under the id and the
  lease of the reservation, without the sandbox token.\<close>

theorem kv_create_outcome:
  "case run (kv_create_sandbox env sbo) s of (res, s') \<Rightarrow>
     (\<exists>st. res = Inl st) \<and> reg_lookup (sy_reg s') = reg_lookup (sy_reg s) \<or>
     (\<exists>sb. sbo = Some sb \<and> res = Inr () \<and> kv_created env sb (sy_reg s) (sy_reg s'))"
  using kv_create_outcome_core [of env sbo s] by (auto split: prod.split)

text \<open>A registry in which the plain sandbox is reserved.\<close>

definition launching_sys :: "unit sys" where
  "launching_sys =
     \<lparr>sy_reg = snd (reserve_with_lease (kv_launching_record plain_sandbox 5) (new_registry demo_limits)),
      sy_world = ()\<rparr>"

lemma launching_sys_lookup:
  "\<exists>rc. reg_lookup (sy_reg launching_sys) ''sb'' = Some rc \<and> kv_launching rc \<and> r_lease rc = 1"
  by (simp add: launching_sys_def reserve_with_lease_def new_registry_next effective_max_instances_def
      demo_limits_def plain_sandbox_def kv_launching_def Let_def)
    (simp add: new_registry_def reg_lookup_def kv_launching_def)

lemma launching_sys_inv: "core_inv (sy_reg launching_sys)"
  by (simp add: launching_sys_def core_reserve_lease)

section \<open>Reconciliation\<close>

text \<open>C4: After a poll that succeeded, a sandbox with a live machine is tracked with the
  kept machine's name and its state (a requested stop or deletion is shown until the
  machine leaves Running; an expired one is deleting); a sandbox without one keeps its
  reservation, counts one more missing poll, and leaves the registry from the third on
  only when a termination confirmed the cleanup of its resources.\<close>

theorem kv_poll_reconciles:
  assumes "vm_sorter (ke_sort_vms env)" and "fair_order (ke_runtime env)"
    and "core_inv (sy_reg s)" and "run (kv_poll env) s = (None, s')"
    and "fst (ke_list env \<lparr>vf_gateway_id = k_gateway_id (ke_config env), vf_sandbox_id = [],
           vf_name = []\<rparr> (sy_world s)) = Inr is"
  shows "if vm_live env (vm_matches i is) \<noteq> []
    then (let m = kv_kept env (vm_matches i is)
          in \<exists>rc. reg_lookup (sy_reg s') i = Some rc \<and> r_instance_id rc = v_vm_name m \<and>
               r_missing_polls rc = 0 \<and> r_state rc \<in> {polled_state (reg_lookup (sy_reg s) i) m, ''deleting''})
    else (case reg_lookup (sy_reg s) i of
            None \<Rightarrow> reg_lookup (sy_reg s') i = None
          | Some rc \<Rightarrow>
              if r_instance_id rc = [] then reg_lookup (sy_reg s') i = Some rc
              else (let n = wrap64 (r_missing_polls rc + 1)
                in n \<ge> 3 \<and> (\<exists>w. fst (ke_terminate env (r_instance_id rc) w) = None) \<and>
                     reg_lookup (sy_reg s') i = None \<or>
                   (n < 3 \<or> (\<exists>w. fst (ke_terminate env (r_instance_id rc) w) \<noteq> None)) \<and>
                     (\<exists>rc'. reg_lookup (sy_reg s') i = Some rc' \<and>
                        r_instance_id rc' = r_instance_id rc \<and> r_missing_polls rc' = n)))"
  by (rule kv_poll_run [OF assms])

text \<open>A machine that has been absent from two polls.\<close>

definition absent_sys :: "unit sys" where
  "absent_sys = old_sys\<lparr>sy_reg := snd (update_if ''sb'' (\<lambda>_. True) (\<lambda>r. r\<lparr>r_missing_polls := 2\<rparr>) (sy_reg old_sys))\<rparr>"

theorem kv_poll_reconciles_witness:
  "reg_lookup (sy_reg (snd (run (kv_poll (demo_kv [])) absent_sys))) ''sb'' = None"
proof -
  let ?env = "demo_kv []"
  have at: "reg_lookup (sy_reg absent_sys) ''sb'' = Some (clone_record (old_record\<lparr>r_lease := 1, r_missing_polls := 2\<rparr>))"
    by (simp add: absent_sys_def update_if_def old_sys_lookup Let_def)
  have inv: "core_inv (sy_reg absent_sys)"
    unfolding absent_sys_def by (simp add: old_sys_inv core_update_if)
  have f: "fair_order (ke_runtime ?env)" by (simp add: demo_fair)
  have none: "vm_by_sandbox [] = []" by (simp add: vm_by_sandbox_def)
  have "fst (run (kv_poll ?env) absent_sys) = None"
    by (rule kv_poll_succeeds [OF inv f, of "[]" _ "[]"])
      (simp_all add: none kv_poll_listed_def map_keys_def exec)
  then have r: "run (kv_poll ?env) absent_sys = (None, snd (run (kv_poll ?env) absent_sys))"
    by (metis prod.collapse)
  have live: "vm_live ?env (vm_matches ''sb'' []) = []"
    by (simp add: vm_live_def vm_matches_def insertion_sort_def)
  have "wrap64 (r_missing_polls (clone_record (old_record\<lparr>r_lease := 1, r_missing_polls := 2\<rparr>)) + 1) = 3"
    by (simp add: wrap64_def)
  moreover have "r_instance_id (clone_record (old_record\<lparr>r_lease := 1, r_missing_polls := 2\<rparr>)) \<noteq> []"
    by (simp add: old_record_def)
  ultimately show ?thesis
    using kv_poll_reconciles [OF demo_vm_sorter f inv r, of "[]" "''sb''"] at live by (simp add: Let_def)
qed

text \<open>The machine a poll keeps of a sandbox's live machines has finished only when all of
  them have, and among those as finished as it none precedes it in age and name.\<close>

theorem kv_poll_keeps_unfinished:
  assumes "vm_sorter (ke_sort_vms env)" and "vm_live env ms \<noteq> []"
  shows "kv_kept env ms \<in> set ms \<and> v_state (kv_kept env ms) \<noteq> ''Deleted'' \<and>
    (\<forall>m \<in> {m \<in> set ms. v_state m \<noteq> ''Deleted''}.
       (vm_finished (kv_kept env ms) \<longrightarrow> vm_finished m) \<and>
       (vm_finished m = vm_finished (kv_kept env ms) \<longrightarrow> \<not> vm_older m (kv_kept env ms)))"
  using kv_kept_spec [OF assms] by (auto simp: is_terminal_state_def)

theorem kv_poll_keeps_unfinished_witness:
  "v_vm_name (kv_kept (demo_kv []) [demo_vm, demo_vm\<lparr>v_vm_name := ''openshell-0'', v_state := ''Failed''\<rparr>]) =
     ''openshell-1''"
proof -
  let ?old = "demo_vm\<lparr>v_vm_name := ''openshell-0'', v_state := ''Failed''\<rparr>"
  have "vm_live (demo_kv []) [demo_vm, ?old] \<noteq> []"
  proof -
    have "demo_vm \<in> set (vm_live (demo_kv []) [demo_vm, ?old])"
      unfolding vm_live_set [OF demo_vm_sorter] by (simp add: is_terminal_state_def) (simp add: demo_vm_def)
    then show ?thesis by auto
  qed
  note K = kv_poll_keeps_unfinished [OF demo_vm_sorter this]
  let ?k = "kv_kept (demo_kv []) [demo_vm, ?old]"
  have st: "v_state demo_vm \<noteq> ''Deleted''" "\<not> vm_finished demo_vm" "vm_finished ?old"
    by (simp_all add: demo_vm_def vm_finished_def)
  from K have "?k \<in> set [demo_vm, ?old]" by blast
  then have "?k = demo_vm \<or> ?k = ?old" by simp
  moreover from K have "\<forall>m \<in> {m \<in> set [demo_vm, ?old]. v_state m \<noteq> ''Deleted''}. vm_finished ?k \<longrightarrow> vm_finished m"
    by blast
  then have "vm_finished ?k \<longrightarrow> vm_finished demo_vm" using st(1) by simp
  ultimately have "?k = demo_vm" using st(2,3) by metis
  then show ?thesis by (simp add: demo_vm_def)
qed

text \<open>After any number of failed polls in a row the retry delay of a valid
  configuration is positive, at most a minute before the jitter and less than 75 seconds
  with it, and no product overflows.\<close>

theorem kv_backoff_bounded:
  assumes "0 < interval" and "interval \<le> hour" and "0 \<le> failures"
    and "0 \<le> j" and "j < jitter_bound (backoff_delay interval failures)"
  shows "backoff_delay interval failures = min (interval * 2 ^ nat (min failures 6)) minute \<and>
    0 < backoff_delay interval failures \<and> backoff_delay interval failures \<le> minute \<and>
    wrap64 (backoff_delay interval failures + j) = backoff_delay interval failures + j \<and>
    backoff_delay interval failures + j < 75 * second"
proof -
  let ?p = "2 ^ nat (min failures 6) :: int"
  have p: "1 \<le> ?p" "?p \<le> 64"
    using power_increasing [of "nat (min failures 6)" 6 "2::int"] by simp_all
  have m: "interval \<le> interval * ?p" "interval * ?p \<le> hour * 64"
    using assms(1,2) p by (simp_all add: mult_mono)
  then have "wrap64 (interval * ?p) = interval * ?p"
    using assms(1) by (intro wrap64_id) (simp_all add: min_int64_def max_int64_def hour_def minute_def second_def order_trans [of _ 0])
  then have d: "backoff_delay interval failures = min (interval * ?p) minute"
    by (simp add: backoff_delay_def)
  then have b: "0 < backoff_delay interval failures" "backoff_delay interval failures \<le> minute"
    using m(1) assms(1) by (simp_all add: minute_def second_def)
  then have "jitter_bound (backoff_delay interval failures) \<le> 15 * second"
    by (auto simp: jitter_bound_def minute_def second_def)
  then have j: "j < 15 * second" using assms(5) by simp
  then have "wrap64 (backoff_delay interval failures + j) = backoff_delay interval failures + j"
    using b assms(4) by (intro wrap64_id) (simp_all add: min_int64_def max_int64_def minute_def second_def)
  moreover have "backoff_delay interval failures + j < 75 * second"
    using b(2) j by (simp only: minute_def second_def)
  ultimately show ?thesis using d b by blast
qed

theorem kv_backoff_bounded_witness:
  "backoff_delay (15 * second) 7 = minute \<and> backoff_delay (15 * second) 7 + second < 75 * second"
proof -
  have "0 < 15 * second" "15 * second \<le> hour" "0 \<le> second"
    by (simp_all add: hour_def minute_def second_def)
  moreover have "second < jitter_bound (backoff_delay (15 * second) 7)"
    by (simp add: jitter_bound_def backoff_delay_def wrap64_def minute_def second_def)
  ultimately show ?thesis
    using kv_backoff_bounded [of "15 * second" 7 second] by (simp add: minute_def second_def)
qed

section \<open>Defects\<close>

text \<open>C38: A poll that already sees the machine of a launch in progress overwrites the
  deletion the driver accepted meanwhile: the record takes the machine's state, and the
  creation then commits.\<close>

theorem kv_poll_loses_accepted_delete:
  assumes "reg_lookup (sy_reg s) (sb_id sb) = Some rc" and "spec_redacted (r_spec rc)"
    and "r_state rc = ''delete-requested''" and "r_instance_id rc = []"
    and "v_sandbox_id m = sb_id sb"
    and "v_state m \<notin> {''Deleted'', ''delete-requested'', ''deleting'', ''stopping''}"
  shows "fst (run (kv_commit_launch env sb (r_lease rc) t i)
      (snd (run (kv_reconcile env (sb_id sb) m) s))) = (Inr (), False)"
proof -
  let ?now = "fst (rt_now (ke_runtime env) (sy_world s))"
  let ?s' = "snd (run (kv_reconcile env (sb_id sb) m) s)"
  let ?new = "clone_record (kv_refresh m (v_state m) ?now rc)"
  have cl: "clone_record rc = rc" by (rule clone_record_id [OF assms(2)])
  have ob: "observed_state rc m = v_state m" using assms(3) by (simp add: observed_state_def)
  have "kv_same_generation rc (clone_record rc)" by (simp add: kv_same_generation_def)
  from reg.upd_hit [of "sy_reg s" "sb_id sb" rc "kv_same_generation rc" "kv_refresh m (v_state m) ?now", OF assms(1) this]
  have at: "reg_lookup (sy_reg ?s') (sb_id sb) = Some ?new"
    using assms(1,3,6) ob
    by (auto simp: kv_reconcile_def is_terminal_state_def exec get_record_def cl split_def Let_def
        broadcast_sandbox_def)
  have "r_lease ?new = r_lease rc" "r_state ?new = v_state m" by (simp_all add: kv_refresh_def Let_def)
  then have "kv_may_commit (r_lease rc) (clone_record ?new)" using assms(6) by (simp add: kv_may_commit_def)
  from kv_commit_done_run [OF at this] show ?thesis by simp
qed

theorem kv_poll_loses_accepted_delete_witness:
  "\<exists>s1. run (kv_delete_sandbox (demo_kv []) \<lparr>ref_id = ''sb'', ref_name = []\<rparr>) launching_sys = (Inr True, s1) \<and>
     fst (run (kv_commit_launch (demo_kv []) plain_sandbox 1 5 demo_vm)
       (snd (run (kv_reconcile (demo_kv []) ''sb'' demo_vm) s1))) = (Inr (), False)"
proof -
  obtain rc where rc: "reg_lookup (sy_reg launching_sys) ''sb'' = Some rc" "kv_launching rc" "r_lease rc = 1"
    using launching_sys_lookup by blast
  have f: "fair_order (ke_runtime (demo_kv []))" by (simp add: demo_fair)
  have ok: "reg_ok (sy_reg launching_sys)" using launching_sys_inv by (simp add: core_inv_def)
  have m: "means_reservation (sy_reg launching_sys) \<lparr>ref_id = ''sb'', ref_name = []\<rparr> rc"
    using reg_okD [OF ok rc(1)] by (simp add: means_reservation_def)
  obtain s1 t where s1: "run (kv_delete_sandbox (demo_kv []) \<lparr>ref_id = ''sb'', ref_name = []\<rparr>) launching_sys = (Inr True, s1)"
    "reg_lookup (sy_reg s1) ''sb'' = Some (clone_record (kv_delete_requested t rc))"
    using kv_delete_launching_run [OF ok f rc(1,2) m] by (metis fun_upd_same prod.collapse)
  have "r_state (clone_record (kv_delete_requested t rc)) = ''delete-requested''"
    "r_instance_id (clone_record (kv_delete_requested t rc)) = []"
    "r_lease (clone_record (kv_delete_requested t rc)) = 1"
    using rc(2,3) by (simp_all add: kv_delete_requested_def kv_launching_def)
  then have "fst (run (kv_commit_launch (demo_kv []) plain_sandbox 1 5 demo_vm)
       (snd (run (kv_reconcile (demo_kv []) ''sb'' demo_vm) s1))) = (Inr (), False)"
    using kv_poll_loses_accepted_delete [of s1 plain_sandbox "clone_record (kv_delete_requested t rc)" demo_vm "demo_kv []" 5 demo_vm]
      s1(2) by (simp add: plain_sandbox_def demo_vm_def)
  with s1(1) show ?thesis by blast
qed

end
