(* ===== verification/KvApiTheorems.thy ===== *)
theory KvApiTheorems
  imports KvApiProps KvTheorems
begin

text \<open>
  The properties of the Kubernetes adapter, with runs against a small cluster that accepts
  every call.
\<close>

definition demo_vm_spec :: vm_spec where
  "demo_vm_spec =
     \<lparr>vs_sandbox_id = ''sb'', vs_name = ''name'', vs_namespace = ''team'', vs_workspace = [],
      vs_gateway_id = ''gw1'', vs_instance_type = ''cx1.medium'', vs_boot_source = ''fedora'',
      vs_boot_source_namespace = ''images'', vs_preference = [], vs_storage_class = ''fast'',
      vs_cloud_init = ''#cloud-config'', vs_resource_key = replicate 64 CHR ''a'',
      vs_request_digest = replicate 64 CHR ''b'', vs_disk_size = ''100Gi'', vs_storage_labels = [],
      vs_storage_annotations = [], vs_created_at = 63000000000000000123, vs_max_lifetime = ''8h0m0s''\<rparr>"

text \<open>The object a cluster returns for a machine: its metadata as sent.\<close>

definition stored_vm :: "virtual_machine \<Rightarrow> unstructured" where
  "stored_vm vm =
     \<lparr>un_name = vm_name vm, un_uid = ''uid-1'', un_labels = vm_labels vm,
      un_annotations = vm_annotations vm, un_printable_status = [], un_phase = [],
      un_run_strategy = vm_run_strategy vm, un_interfaces = [], un_deleting = False, un_created = 7\<rparr>"

definition no_secret :: secret where
  "no_secret = \<lparr>se_name = [], se_namespace = [], se_labels = [], se_annotations = [],
     se_immutable = False, se_data = [], se_owners = []\<rparr>"

definition demo_kube :: "unstructured list \<Rightarrow> unit kube_api" where
  "demo_kube vms =
     \<lparr>ka_get_namespace = (\<lambda>_ w. (None, w)), ka_get_data_source = (\<lambda>_ _ w. (None, w)),
      ka_get_instance_type = (\<lambda>_ w. (None, w)), ka_get_preference = (\<lambda>_ w. (None, w)),
      ka_get_storage_class = (\<lambda>_ w. (None, w)), ka_access_review = (\<lambda>_ w. (Inr (True, []), w)),
      ka_create_secret = (\<lambda>_ w. (None, w)), ka_get_secret = (\<lambda>_ w. (Inr no_secret, w)),
      ka_update_secret = (\<lambda>_ w. (None, w)), ka_delete_secret = (\<lambda>_ w. (None, w)),
      ka_encode_vm = (\<lambda>_. None), ka_create_vm = (\<lambda>vm w. (Inr (stored_vm vm), w)),
      ka_get_vm = (\<lambda>_ w. (Inl (ErrK8s RNotFound []), w)), ka_set_run_strategy = (\<lambda>s o'. Inr o'),
      ka_update_vm = (\<lambda>_ w. (None, w)), ka_delete_vm = (\<lambda>_ w. (Some (ErrK8s RNotFound []), w)),
      ka_delete_data_volume = (\<lambda>_ w. (None, w)),
      ka_list = (\<lambda>k _ _ _ w. (Inr (if k = RVm then vms else [], []), w)),
      ka_pause = (\<lambda>_ w. (None, w)), ka_wait_timeout = ErrDeadlineExceeded,
      ka_interrupted = (\<lambda>e. e = ErrDeadlineExceeded), ka_conflict_steps = 4,
      ka_sha256 = (\<lambda>_. replicate 32 CHR ''x'')\<rparr>"

lemma demo_kube_simps [simp]:
  "ka_get_namespace (demo_kube vms) a w = (None, w)" "ka_get_data_source (demo_kube vms) a b w = (None, w)"
  "ka_get_instance_type (demo_kube vms) a w = (None, w)" "ka_get_preference (demo_kube vms) a w = (None, w)"
  "ka_get_storage_class (demo_kube vms) a w = (None, w)" "ka_access_review (demo_kube vms) c w = (Inr (True, []), w)"
  "ka_create_secret (demo_kube vms) s w = (None, w)" "ka_get_secret (demo_kube vms) a w = (Inr no_secret, w)"
  "ka_update_secret (demo_kube vms) s w = (None, w)" "ka_encode_vm (demo_kube vms) vm = None"
  "ka_create_vm (demo_kube vms) vm w = (Inr (stored_vm vm), w)" "ka_pause (demo_kube vms) n w = (None, w)"
  "ka_list (demo_kube vms) k sel p tok w = (Inr (if k = RVm then vms else [], []), w)"
  "ka_conflict_steps (demo_kube vms) = 4"
  by (simp_all add: demo_kube_def)

section \<open>Launch\<close>

text \<open>C10: A launch that succeeds answers for a virtual machine and a Secret of this very
  request: each was created by it, or existed with its request digest (and, for the
  Secret, its cloud-init). Its last calls read the Secret under the name of the request's
  Secret and update what they read, the owners being the answered machine, by name and uid
  and as the controller, and nothing else: the cluster accepted that update.\<close>

theorem kube_launch_owns_resources:
  assumes "kube_launch api klib c spec w = (Inr i, w')"
  shows "\<exists>vm sec obj. build_resources api klib (k_namespace c) spec = Inr (vm, sec) \<and>
    launched_secret api sec \<and> launched_vm api vm obj \<and> i = normalize_vm obj None \<and>
    (\<exists>w1 s w2. ka_get_secret api (se_name sec) w1 = (Inr s, w2) \<and>
       ka_update_secret api (s\<lparr>se_owners :=
         [\<lparr>or_api_version = ''kubevirt.io/v1'', or_kind = ''VirtualMachine'', or_name = un_name obj,
           or_uid = un_uid obj, or_controller = True\<rparr>]\<rparr>) w2 = (None, w'))"
  using kube_launch_Inr [OF assms] by (simp only: owner_of_def)

lemma demo_build:
  "build_resources (demo_kube vms) sample_k8s ns demo_vm_spec =
     Inr (build_vm (demo_kube vms) ns demo_vm_spec (100 * gib), build_secret (demo_kube vms) ns demo_vm_spec)"
  by (simp add: build_resources_def demo_vm_spec_def sample_k8s_def)

lemma demo_retry: "fn w = (Inr a, w') \<Longrightarrow> retry_with_backoff (demo_kube vms) fn w = (Inr a, w')"
  by (rule retry_first_try [where ?w1.0 = w]) simp_all

theorem kube_launch_owns_resources_witness:
  "\<exists>i. kube_launch (demo_kube []) sample_k8s kv_sample_config demo_vm_spec () = (Inr i, ()) \<and>
     (\<exists>vm sec obj. build_resources (demo_kube []) sample_k8s (k_namespace kv_sample_config) demo_vm_spec =
        Inr (vm, sec) \<and> launched_vm (demo_kube []) vm obj \<and> i = normalize_vm obj None)"
proof -
  let ?api = "demo_kube []"
  let ?sec = "build_secret ?api (k_namespace kv_sample_config) demo_vm_spec"
  let ?vm = "build_vm ?api (k_namespace kv_sample_config) demo_vm_spec (100 * gib)"
  have s: "create_or_verify_secret ?api ?sec () = (Inr True, ())"
    by (simp add: create_or_verify_secret_def demo_retry [of "try_secret ?api ?sec" "()" True "()"] try_secret_def)
  have v: "create_or_verify_vm ?api ?vm () = (Inr (stored_vm ?vm, True), ())"
    by (simp add: create_or_verify_vm_def demo_retry [of "try_vm ?api ?vm" "()" "(stored_vm ?vm, True)" "()"] try_vm_def)
  have o: "own_secret ?api nm obj () = (Inr (), ())" for nm obj
    unfolding own_secret_def
    by (rule demo_retry) (simp add: eval_nat_numeral own_secret_once_def unit_call_def)
  have "kube_launch ?api sample_k8s kv_sample_config demo_vm_spec () = (Inr (normalize_vm (stored_vm ?vm) None), ())"
    by (simp add: kube_launch_def demo_build s v o)
  from this kube_launch_owns_resources [OF this] show ?thesis by blast
qed

text \<open>The machine and the Secret built for a sandbox live in the configured namespace
  under names that only the resource key determines; the machine boots from exactly the
  data volume and the Secret that go with it, on the pod network behind masquerade; the
  Secret is immutable and holds nothing but the cloud-init; both carry the request
  digest. A request without a full key and digest or with a bad size builds nothing.\<close>

theorem kube_resources_shape:
  "case build_resources api klib ns spec of
     Inl e \<Rightarrow> length (vs_resource_key spec) < 32 \<or> length (vs_request_digest spec) \<noteq> 64 \<or>
       (\<exists>e'. parse_quantity klib (vs_disk_size spec) = Inl e')
   | Inr (vm, sec) \<Rightarrow>
       vm_namespace vm = ns \<and> se_namespace sec = ns \<and>
       vm_name vm = kube_vm_name (vs_resource_key spec) \<and> se_name sec = vm_name vm @ ''-cloudinit'' \<and>
       map dv_name (vm_data_volumes vm) = [vm_name vm @ ''-root''] \<and>
       map dv_storage_class (vm_data_volumes vm) =
         [if vs_storage_class spec = [] then None else Some (vs_storage_class spec)] \<and>
       vm_volumes vm = [VolDataVolume ''rootdisk'' (vm_name vm @ ''-root''),
         VolCloudInitSecret ''cloudinit'' (se_name sec)] \<and>
       vm_masquerade_interfaces vm = vm_pod_networks vm \<and>
       se_immutable sec \<and> se_data sec = [(cloud_init_key, vs_cloud_init spec)] \<and>
       same_request (vm_annotations vm) (se_annotations sec) \<and>
       map_get (vm_annotations vm) annot_request_digest = vs_request_digest spec"
  by (auto simp: build_resources_def build_vm_def build_secret_def Let_def same_request_def annotations_read
      split: sum.splits)

section \<open>Termination\<close>

text \<open>C25: On a cluster whose deletions mark objects, nobody else at work, Terminate leaves of the
  sandbox's machine, data volume and Secret nothing that is neither marked for deletion nor
  left to the garbage collector when it reports success, and touches no other object in any
  case. It tries each of the three whatever became of the others: one the cluster never
  refuses to delete goes even when the other deletions fail, and when none is refused the
  report is success. An object that is marked may still exist for a while; the driver only
  takes a sandbox for gone when its machine is no longer listed.\<close>

theorem kube_terminate_complete:
  assumes "marks_deleted api live" and "kube_terminate api nm w = (r, w')"
  shows "(r = None \<longrightarrow> live w' = live w - kube_children nm) \<and>
    live w - kube_children nm \<subseteq> live w' \<and> live w' \<subseteq> live w \<and>
    (\<forall>x \<in> kube_children nm. never_refused api x \<longrightarrow> x \<notin> live w') \<and>
    ((\<forall>x \<in> kube_children nm. never_refused api x) \<longrightarrow> r = None)"
proof -
  let ?v = "KubeVm nm" and ?d = "KubeVolume (nm @ ''-root'')" and ?s = "KubeSecret (nm @ ''-cloudinit'')"
  obtain e1 w1 where s1: "delete_step api ''delete VirtualMachine: %w'' (kube_delete api ?v) ([], w) = (e1, w1)"
    by fastforce
  obtain e2 w2 where s2: "delete_step api ''delete DataVolume: %w'' (kube_delete api ?d) (e1, w1) = (e2, w2)"
    by fastforce
  obtain e3 w3 where s3: "delete_step api ''delete Secret: %w'' (kube_delete api ?s) (e2, w2) = (e3, w3)"
    by fastforce
  have r: "r = errors_join e3" "w' = w3"
    using assms(2) s1 s2 s3 by (simp_all add: kube_terminate_def)
  note m = delete_step_marks [OF assms(1) s1] delete_step_marks [OF assms(1) s2] delete_step_marks [OF assms(1) s3]
  have a: "never_refused api ?v \<Longrightarrow> e1 = [] \<and> ?v \<notin> live w1" "never_refused api ?d \<Longrightarrow> e2 = e1 \<and> ?d \<notin> live w2"
    "never_refused api ?s \<Longrightarrow> e3 = e2 \<and> ?s \<notin> live w3"
    using delete_step_accepted [OF assms(1) _ s1] delete_step_accepted [OF assms(1) _ s2]
      delete_step_accepted [OF assms(1) _ s3] by blast+
  have sub: "live w - kube_children nm \<subseteq> live w'" "live w' \<subseteq> live w"
    using m unfolding r(2) kube_owned_def kube_children_def kube_object.case by blast+
  moreover have "live w' = live w - kube_children nm" if "r = None"
  proof -
    have "e3 = []" using that r(1) by (simp add: errors_join_None)
    with m have "?v \<notin> live w'" "?d \<notin> live w'" "?s \<notin> live w'" unfolding r(2) by blast+
    with sub show ?thesis unfolding kube_children_def by blast
  qed
  moreover have "\<forall>x \<in> kube_children nm. never_refused api x \<longrightarrow> x \<notin> live w'"
    using m a unfolding r(2) kube_children_def by blast
  moreover have "(\<forall>x \<in> kube_children nm. never_refused api x) \<longrightarrow> r = None"
    using a r by (auto simp: kube_children_def errors_join_None)
  ultimately show ?thesis by blast
qed


text \<open>A cluster that is nothing but the objects in it.\<close>

definition delete_object :: "kube_object \<Rightarrow> kube_object set \<Rightarrow> goerr option \<times> kube_object set" where
  "delete_object x w = (if x \<in> w then (None, w - {x}) else (Some (ErrK8s RNotFound []), w))"

definition object_kube :: "kube_object set kube_api" where
  "object_kube =
     \<lparr>ka_get_namespace = (\<lambda>_ w. (None, w)), ka_get_data_source = (\<lambda>_ _ w. (None, w)),
      ka_get_instance_type = (\<lambda>_ w. (None, w)), ka_get_preference = (\<lambda>_ w. (None, w)),
      ka_get_storage_class = (\<lambda>_ w. (None, w)), ka_access_review = (\<lambda>_ w. (Inr (True, []), w)),
      ka_create_secret = (\<lambda>s w. (None, insert (KubeSecret (se_name s)) w)),
      ka_get_secret = (\<lambda>_ w. (Inr no_secret, w)), ka_update_secret = (\<lambda>_ w. (None, w)),
      ka_delete_secret = (\<lambda>nm. delete_object (KubeSecret nm)), ka_encode_vm = (\<lambda>_. None),
      ka_create_vm = (\<lambda>vm w. (Inr (stored_vm vm), insert (KubeVm (vm_name vm)) w)),
      ka_get_vm = (\<lambda>_ w. (Inl (ErrK8s RNotFound []), w)), ka_set_run_strategy = (\<lambda>s o'. Inr o'),
      ka_update_vm = (\<lambda>_ w. (None, w)), ka_delete_vm = (\<lambda>nm. delete_object (KubeVm nm)),
      ka_delete_data_volume = (\<lambda>nm. delete_object (KubeVolume nm)),
      ka_list = (\<lambda>_ _ _ _ w. (Inr ([], []), w)), ka_pause = (\<lambda>_ w. (None, w)),
      ka_wait_timeout = ErrDeadlineExceeded, ka_interrupted = (\<lambda>e. e = ErrDeadlineExceeded),
      ka_conflict_steps = 4, ka_sha256 = (\<lambda>_. replicate 32 CHR ''x'')\<rparr>"

lemma object_kube_simps [simp]:
  "kube_delete object_kube x = delete_object x" "ka_pause object_kube n w = (None, w)"
  "ka_wait_timeout object_kube = ErrDeadlineExceeded"
  by (cases x) (simp_all add: object_kube_def)

lemma object_kube_marks: "marks_deleted object_kube (\<lambda>w. w)"
proof -
  have "x \<in> kube_owned x" for x by (cases x) (simp_all add: kube_owned_def kube_children_def)
  moreover have "is_not_found (ErrK8s RNotFound [])" "\<not> is_not_found ErrDeadlineExceeded"
    by (simp_all add: is_not_found_def)
  ultimately show ?thesis by (auto simp: marks_deleted_def delete_object_def)
qed

lemma object_kube_accepts: "never_refused object_kube x"
  by (auto simp: never_refused_def delete_object_def is_not_found_def)

theorem kube_terminate_complete_witness:
  "kube_terminate object_kube ''vm'' {KubeVm ''vm'', KubeSecret ''vm-cloudinit'', KubeVm ''other''} =
     (None, {KubeVm ''other''})"
proof -
  let ?w = "{KubeVm ''vm'', KubeSecret ''vm-cloudinit'', KubeVm ''other''}"
  obtain r w' where t: "kube_terminate object_kube ''vm'' ?w = (r, w')" by fastforce
  from kube_terminate_complete [OF object_kube_marks t] object_kube_accepts
  have "r = None" "w' = ?w - kube_children ''vm''" by simp_all
  with t show ?thesis by (auto simp: kube_children_def)
qed

section \<open>Readiness\<close>

text \<open>C26: When CheckReady succeeds, the namespace, the boot source and the default machine
  type were found and the service account was allowed every one of the twelve operations
  the driver performs.\<close>

theorem kube_ready_sound:
  assumes "kube_check_ready api c w = (None, w')"
  shows "(\<exists>w1. fst (ka_get_namespace api (k_namespace c) w1) = None) \<and>
    (\<exists>w1. fst (ka_get_data_source api (k_boot_source_namespace c) (k_boot_source c) w1) = None) \<and>
    (\<exists>w1. fst (ka_get_instance_type api (k_default_instance_type c) w1) = None) \<and>
    (\<forall>ac \<in> set (access_checks (k_namespace c)).
       \<exists>w1 reason. fst (ka_access_review api ac w1) = Inr (True, reason)) \<and>
    length (access_checks (k_namespace c)) = 12"
proof -
  obtain u where "retry_with_backoff api (check_ready_once api c) w = (Inr u, w')"
    using assms by (auto simp: kube_check_ready_def split: prod.splits sum.splits)
  from retry_Inr [OF this] obtain w1 where w1: "check_ready_once api c w1 = (Inr u, w')" by blast
  note m1 = must_get_Inr [OF w1 [unfolded check_ready_once_def]]
  note m2 = must_get_Inr [OF m1 [THEN conjunct2]]
  note m3 = must_get_Inr [OF m2 [THEN conjunct2]]
  note m4 = must_get_Inr [OF m3 [THEN conjunct2]]
  note m5 = must_get_Inr [OF m4 [THEN conjunct2]]
  have "length (access_checks (k_namespace c)) = 12" by (simp add: access_checks_def Let_def)
  then show ?thesis using m1 m2 m3 check_access_Inr [OF m5 [THEN conjunct2]] by blast
qed

theorem kube_ready_sound_witness:
  "kube_check_ready (demo_kube []) kv_sample_config () = (None, ()) \<and>
   (\<exists>w1 reason. fst (ka_access_review (demo_kube [])
      \<lparr>ac_namespace = k_namespace kv_sample_config, ac_group = [], ac_resource = ''secrets'', ac_verb = ''create''\<rparr> w1) =
      Inr (True, reason))"
proof -
  have a: "check_access (demo_kube []) ns cs w = (Inr (), w)" for ns cs w
    by (induction cs) simp_all
  have "check_ready_once (demo_kube []) kv_sample_config () = (Inr (), ())"
    unfolding check_ready_once_def must_get_def a by simp
  then have r: "kube_check_ready (demo_kube []) kv_sample_config () = (None, ())"
    by (simp add: kube_check_ready_def demo_retry [of "check_ready_once (demo_kube []) kv_sample_config" "()" "()" "()"])
  have "\<lparr>ac_namespace = k_namespace kv_sample_config, ac_group = [], ac_resource = ''secrets'', ac_verb = ''create''\<rparr>
      \<in> set (access_checks (k_namespace kv_sample_config))" by (simp add: access_checks_def Let_def)
  with kube_ready_sound [OF r] r show ?thesis by blast
qed

section \<open>Retries\<close>

text \<open>A retried operation is attempted at most five times.\<close>

theorem retry_at_most_five:
  fixes cnt :: "'w \<Rightarrow> nat"
  assumes "\<And>w. cnt (snd (fn w)) \<le> cnt w + 1" and "\<And>n w. cnt (snd (ka_pause api n w)) = cnt w"
  shows "cnt (snd (retry_with_backoff api fn w)) \<le> cnt w + 5"
proof -
  obtain r le w' where l: "backoff_loop api fn 5 0 None w = (r, le, w')" by (metis prod_cases3)
  have "snd (retry_with_backoff api fn w) = w'"
    by (simp add: retry_with_backoff_def l split: sum.splits option.splits)
  then show ?thesis using backoff_loop_count [of cnt fn api 5 0 None w, OF assms] l by simp
qed

text \<open>A cluster whose world counts the deletions of Secrets and answers each with a timeout.\<close>

definition busy_kube :: "nat kube_api" where
  "busy_kube =
     \<lparr>ka_get_namespace = (\<lambda>_ w. (None, w)), ka_get_data_source = (\<lambda>_ _ w. (None, w)),
      ka_get_instance_type = (\<lambda>_ w. (None, w)), ka_get_preference = (\<lambda>_ w. (None, w)),
      ka_get_storage_class = (\<lambda>_ w. (None, w)), ka_access_review = (\<lambda>_ w. (Inr (True, []), w)),
      ka_create_secret = (\<lambda>_ w. (None, w)), ka_get_secret = (\<lambda>_ w. (Inr no_secret, w)),
      ka_update_secret = (\<lambda>_ w. (None, w)), ka_delete_secret = (\<lambda>_ w. (Some (ErrK8s RTimeout []), Suc w)),
      ka_encode_vm = (\<lambda>_. None), ka_create_vm = (\<lambda>vm w. (Inr (stored_vm vm), w)),
      ka_get_vm = (\<lambda>_ w. (Inl (ErrK8s RNotFound []), w)), ka_set_run_strategy = (\<lambda>s o'. Inr o'),
      ka_update_vm = (\<lambda>_ w. (None, w)), ka_delete_vm = (\<lambda>_ w. (None, w)),
      ka_delete_data_volume = (\<lambda>_ w. (None, w)), ka_list = (\<lambda>_ _ _ _ w. (Inr ([], []), w)),
      ka_pause = (\<lambda>_ w. (None, w)), ka_wait_timeout = ErrDeadlineExceeded,
      ka_interrupted = (\<lambda>e. e = ErrDeadlineExceeded), ka_conflict_steps = 4,
      ka_sha256 = (\<lambda>_. [])\<rparr>"

theorem retry_at_most_five_witness:
  "retry_with_backoff busy_kube (unit_call (ka_delete_secret busy_kube ''s'')) 0 =
     (Inl (ErrK8s RTimeout []), 5) \<and>
   snd (retry_with_backoff busy_kube (unit_call (ka_delete_secret busy_kube ''s'')) 0) \<le> 0 + 5"
proof -
  let ?fn = "unit_call (ka_delete_secret busy_kube ''s'')"
  have "id (snd (?fn w)) \<le> id w + 1" for w by (simp add: unit_call_def busy_kube_def)
  moreover have "id (snd (ka_pause busy_kube n w)) = id w" for n w by (simp add: busy_kube_def)
  ultimately have "id (snd (retry_with_backoff busy_kube ?fn 0)) \<le> id 0 + 5" by (rule retry_at_most_five)
  moreover have "retry_with_backoff busy_kube ?fn 0 = (Inl (ErrK8s RTimeout []), 5)"
    by (simp add: retry_with_backoff_def eval_nat_numeral unit_call_def busy_kube_def is_transient_def)
  ultimately show ?thesis by simp
qed

section \<open>Machines\<close>

text \<open>C33: The metadata written on a machine reads back as the sandbox it was built for,
  creation time to the nanosecond, whatever the cluster adds: a driver that restarts
  recovers every sandbox from its machine.\<close>

theorem kube_identity_roundtrip:
  assumes "printable_time (vs_created_at spec)" and "vs_sandbox_id spec \<noteq> []" and "vs_name spec \<noteq> []"
    and "un_annotations raw = vm_annotations (build_vm api ns spec disk)"
    and "un_name raw = vm_name (build_vm api ns spec disk)"
  shows "v_sandbox_id (normalize_vm raw vmi) = vs_sandbox_id spec \<and>
    v_name (normalize_vm raw vmi) = vs_name spec \<and>
    v_namespace (normalize_vm raw vmi) = vs_namespace spec \<and>
    v_workspace (normalize_vm raw vmi) = vs_workspace spec \<and>
    v_created_at (normalize_vm raw vmi) = vs_created_at spec \<and>
    v_vm_name (normalize_vm raw vmi) = kube_vm_name (vs_resource_key spec)"
  using assms parse_format_rfc3339_nano_core [OF assms(1)]
  by (simp add: normalize_vm_def vm_identity_def Let_def build_vm_def annotations_read)

theorem kube_identity_roundtrip_witness:
  "v_created_at (normalize_vm (stored_vm (build_vm (demo_kube []) ''ns'' demo_vm_spec 0)) None) =
     63000000000000000123"
proof -
  have "printable_time (vs_created_at demo_vm_spec)" "vs_sandbox_id demo_vm_spec \<noteq> []" "vs_name demo_vm_spec \<noteq> []"
    by (simp_all add: printable_time_def demo_vm_spec_def day_ns_def second_def)
  from kube_identity_roundtrip [OF this, of "stored_vm (build_vm (demo_kube []) ''ns'' demo_vm_spec 0)"
      "demo_kube []" "''ns''" 0]
  show ?thesis by (simp add: stored_vm_def demo_vm_spec_def)
qed

text \<open>Every machine a listing returns has an identity and a state, also when its metadata
  are damaged, and the name asked for when one was.\<close>

theorem kube_listed_usable:
  assumes "kube_list api fuel f w = Some (Inr is, w')" and "i \<in> set is"
  shows "v_sandbox_id i \<noteq> [] \<and> v_state i \<noteq> [] \<and> (vf_name f = [] \<or> v_name i = vf_name f)"
  using kube_list_members [OF assms] normalize_usable by blast

lemma demo_serves: "kube_serves (demo_kube vms) k sel (\<lambda>_. []) [if k = RVm then vms else []]"
  by (simp add: kube_serves_def)

definition damaged_vm :: unstructured where
  "damaged_vm = (stored_vm (build_vm (demo_kube []) ''ns'' demo_vm_spec 0))\<lparr>un_annotations := []\<rparr>"

theorem kube_listed_usable_witness:
  "\<exists>i. kube_list (demo_kube [damaged_vm]) 1 \<lparr>vf_gateway_id = [], vf_sandbox_id = [], vf_name = []\<rparr> () =
     Some (Inr [i], ()) \<and> v_sandbox_id i \<noteq> [] \<and> v_state i \<noteq> []"
proof -
  let ?f = "\<lparr>vf_gateway_id = [], vf_sandbox_id = [], vf_name = []\<rparr>"
  have "kube_list (demo_kube [damaged_vm]) 1 ?f () = Some (Inr (join_vms ?f [damaged_vm] []), ())"
    using kube_list_serves [of "demo_kube [damaged_vm]" ?f "\<lambda>_. []" "[[damaged_vm]]" "\<lambda>_. []" "[[]]" 1 "()"]
      demo_serves [of "[damaged_vm]" RVm] demo_serves [of "[damaged_vm]" RVmi] by simp
  then obtain i where i: "kube_list (demo_kube [damaged_vm]) 1 ?f () = Some (Inr [i], ())"
    by (simp add: join_vms_def vmi_index_def)
  from kube_listed_usable [OF i, of i] i show ?thesis by simp
qed

text \<open>Listing ends and is complete: over collections served in pages, as many rounds as
  pages give every machine of every page joined with its instance.\<close>

theorem kube_list_all_pages:
  assumes "kube_serves api RVm (kube_selector api f) tok pages" and "pages \<noteq> []"
    and "kube_serves api RVmi (kube_selector api f) tok2 pages2" and "pages2 \<noteq> []"
    and "length pages \<le> fuel" and "length pages2 \<le> fuel"
  shows "kube_list api fuel f w = Some (Inr (join_vms f (concat pages) (concat pages2)), w)"
  by (rule kube_list_serves [OF assms])

theorem kube_list_all_pages_witness:
  "kube_list (demo_kube [damaged_vm]) 3 \<lparr>vf_gateway_id = ''gw1'', vf_sandbox_id = [], vf_name = []\<rparr> () =
     Some (Inr [normalize_vm damaged_vm None], ())"
  using kube_list_all_pages [of "demo_kube [damaged_vm]" "\<lparr>vf_gateway_id = ''gw1'', vf_sandbox_id = [], vf_name = []\<rparr>"
      "\<lambda>_. []" "[[damaged_vm]]" "\<lambda>_. []" "[[]]" 3 "()"]
    demo_serves [of "[damaged_vm]" RVm] demo_serves [of "[damaged_vm]" RVmi]
  by (simp add: join_vms_def vmi_index_def)


section \<open>The provider the driver sees\<close>

text \<open>
  What the driver relies on in the listing of its provider: every machine has an identity
  and a state. Then no machine escapes the reconciliation, and ListSandboxes answers one
  sandbox for each machine. The adapter's listing is such a provider; a listing that does
  not end within the fuel counts as a call whose deadline passed.
\<close>

locale machine_source =
  fixes listing :: "vm_filter \<Rightarrow> 'w \<Rightarrow> (goerr + vm_inst list) \<times> 'w"
  assumes listed_id: "fst (listing f w) = Inr is \<Longrightarrow> i \<in> set is \<Longrightarrow> v_sandbox_id i \<noteq> []"
    and listed_state: "fst (listing f w) = Inr is \<Longrightarrow> i \<in> set is \<Longrightarrow> v_state i \<noteq> []"
begin

lemma every_machine_grouped:
  "fst (listing f w) = Inr is \<Longrightarrow> i \<in> set is \<Longrightarrow> i \<in> set (vm_matches (v_sandbox_id i) is)"
  using listed_id by (auto simp: vm_matches_def)

lemma list_loop:
  assumes "\<forall>i \<in> set is. v_sandbox_id i \<noteq> []"
  shows "\<exists>sbs. fst (run (for_each is
       (\<lambda>x acc. if is_terminal_state (v_state x) \<or> v_sandbox_id x = [] then Ret (Inr acc)
          else now_of rt (\<lambda>now. Ret (Inr (acc @ [kv_instance_to_driver_sandbox now x])))) acc) s) = (Inr (acc @ sbs) :: grpc_status + driver_sandbox list) \<and>
     map sb_id sbs = map v_sandbox_id (filter (\<lambda>i. \<not> is_terminal_state (v_state i)) is)"
  using assms
proof (induction "is" arbitrary: acc s)
  case Nil
  then show ?case by (intro exI [of _ "[]"]) simp
next
  case (Cons x xs)
  let ?now = "fst (rt_now rt (sy_world s))"
  have id: "sb_id (kv_instance_to_driver_sandbox ?now x) = v_sandbox_id x"
    by (simp add: kv_instance_to_driver_sandbox_def to_driver_sandbox_def)
  show ?case
  proof (cases "is_terminal_state (v_state x)")
    case True
    with Cons.IH [of acc s] Cons.prems show ?thesis by (simp add: run_call)
  next
    case False
    let ?s1 = "s\<lparr>sy_world := snd (rt_now rt (sy_world s))\<rparr>"
    obtain sbs where sbs: "fst (run (for_each xs
       (\<lambda>x acc. if is_terminal_state (v_state x) \<or> v_sandbox_id x = [] then Ret (Inr acc)
          else now_of rt (\<lambda>now. Ret (Inr (acc @ [kv_instance_to_driver_sandbox now x]))))
         (acc @ [kv_instance_to_driver_sandbox ?now x])) ?s1) =
        (Inr ((acc @ [kv_instance_to_driver_sandbox ?now x]) @ sbs) :: grpc_status + driver_sandbox list)"
      "map sb_id sbs = map v_sandbox_id (filter (\<lambda>i. \<not> is_terminal_state (v_state i)) xs)"
      using Cons.IH [of "acc @ [kv_instance_to_driver_sandbox ?now x]" ?s1] Cons.prems by auto
    then show ?thesis using False Cons.prems id
      by (intro exI [of _ "kv_instance_to_driver_sandbox ?now x # sbs"]) (simp add: run_call run_now_of)
  qed
qed

lemma list_complete:
  assumes "ke_list env = listing" and "fst (listing (kv_everything env) (sy_world s)) = Inr is"
  shows "\<exists>sbs. fst (run (kv_list_sandboxes env) s) = Inr sbs \<and>
    map sb_id sbs = map v_sandbox_id (filter (\<lambda>i. \<not> is_terminal_state (v_state i)) is)"
proof -
  have "\<forall>i \<in> set is. v_sandbox_id i \<noteq> []" using listed_id [OF assms(2)] by blast
  from list_loop [OF this, of "ke_runtime env" "[]" "s\<lparr>sy_world := snd (listing (kv_everything env) (sy_world s))\<rparr>"]
  show ?thesis using assms by (auto simp: kv_list_sandboxes_def run_on_world)
qed

end

definition kube_listing :: "'w kube_api \<Rightarrow> nat \<Rightarrow> vm_filter \<Rightarrow> 'w \<Rightarrow> (goerr + vm_inst list) \<times> 'w" where
  "kube_listing api fuel f w =
     (case kube_list api fuel f w of None \<Rightarrow> (Inl ErrDeadlineExceeded, w) | Some r \<Rightarrow> r)"

lemma kube_listing_Inr:
  "fst (kube_listing api fuel f w) = Inr is \<Longrightarrow> \<exists>w'. kube_list api fuel f w = Some (Inr is, w')"
  by (auto simp: kube_listing_def split: option.splits)

interpretation kube: machine_source "kube_listing api fuel" for api :: "'w kube_api" and fuel
  by unfold_locales (use kube_listing_Inr kube_list_members normalize_usable in metis)+

text \<open>Over the Kubernetes adapter, ListSandboxes answers exactly one sandbox for each
  machine of the listing that is not deleted, under the machine's identity and in the
  order of the listing.\<close>

theorem kv_lists_every_machine:
  assumes "ke_list env = kube_listing api fuel"
    and "fst (kube_listing api fuel (kv_everything env) (sy_world s)) = Inr is"
  shows "\<exists>sbs. fst (run (kv_list_sandboxes env) s) = Inr sbs \<and>
    map sb_id sbs = map v_sandbox_id (filter (\<lambda>i. \<not> is_terminal_state (v_state i)) is)"
  by (rule kube.list_complete [OF assms])

theorem kv_lists_every_machine_witness:
  "\<exists>sb. fst (run (kv_list_sandboxes ((demo_kv [])\<lparr>ke_list := kube_listing (demo_kube [damaged_vm]) 1\<rparr>)) demo_sys) = Inr [sb]"
proof -
  let ?env = "(demo_kv [])\<lparr>ke_list := kube_listing (demo_kube [damaged_vm]) 1\<rparr>"
  have "kube_list (demo_kube [damaged_vm]) 1 (kv_everything ?env) () =
      Some (Inr (join_vms (kv_everything ?env) [damaged_vm] []), ())"
    using kube_list_serves [of "demo_kube [damaged_vm]" "kv_everything ?env" "\<lambda>_. []" "[[damaged_vm]]" "\<lambda>_. []" "[[]]" 1 "()"]
      demo_serves [of "[damaged_vm]" RVm] demo_serves [of "[damaged_vm]" RVmi] by simp
  then have l: "fst (kube_listing (demo_kube [damaged_vm]) 1 (kv_everything ?env) (sy_world demo_sys)) =
      Inr [normalize_vm damaged_vm None]"
    by (simp add: kube_listing_def join_vms_def vmi_index_def demo_sys_def)
  have "v_state (normalize_vm damaged_vm None) \<noteq> ''Deleted''"
    by (simp add: normalize_vm_def vm_status_state_def vm_default_state_def damaged_vm_def stored_vm_def build_vm_def Let_def)
  with kv_lists_every_machine [OF _ l] show ?thesis
    by (auto simp: is_terminal_state_def)
qed

section \<open>A defect\<close>

text \<open>A cluster whose answer to the creation of a Secret is lost after it was stored, and
  which rejects the machine. Its world: whether the Secret exists.\<close>

definition stored_secret :: secret where
  "stored_secret =
     no_secret\<lparr>se_annotations := object_annotations demo_vm_spec, se_data := [(cloud_init_key, vs_cloud_init demo_vm_spec)]\<rparr>"

definition leaky_kube :: "bool kube_api" where
  "leaky_kube =
     \<lparr>ka_get_namespace = (\<lambda>_ w. (None, w)), ka_get_data_source = (\<lambda>_ _ w. (None, w)),
      ka_get_instance_type = (\<lambda>_ w. (None, w)), ka_get_preference = (\<lambda>_ w. (None, w)),
      ka_get_storage_class = (\<lambda>_ w. (None, w)), ka_access_review = (\<lambda>_ w. (Inr (True, []), w)),
      ka_create_secret = (\<lambda>_ w. (Some (ErrK8s RServerTimeout []), True)),
      ka_get_secret = (\<lambda>_ w. (if w then Inr stored_secret else Inl (ErrK8s RNotFound []), w)),
      ka_update_secret = (\<lambda>_ w. (None, w)), ka_delete_secret = (\<lambda>_ w. (None, False)),
      ka_encode_vm = (\<lambda>_. None), ka_create_vm = (\<lambda>vm w. (Inl (ErrK8s RInvalid []), w)),
      ka_get_vm = (\<lambda>_ w. (Inl (ErrK8s RNotFound []), w)), ka_set_run_strategy = (\<lambda>s o'. Inr o'),
      ka_update_vm = (\<lambda>_ w. (None, w)), ka_delete_vm = (\<lambda>_ w. (None, w)),
      ka_delete_data_volume = (\<lambda>_ w. (None, w)), ka_list = (\<lambda>_ _ _ _ w. (Inr ([], []), w)),
      ka_pause = (\<lambda>_ w. (None, w)), ka_wait_timeout = ErrDeadlineExceeded,
      ka_interrupted = (\<lambda>e. e = ErrDeadlineExceeded), ka_conflict_steps = 4,
      ka_sha256 = (\<lambda>_. [])\<rparr>"

text \<open>
  The launch fails for certain, yet the Secret it created stays: a creation verified after
  a transient error does not count as this call's own.
\<close>

theorem kube_launch_leaves_secret:
  "\<exists>e. kube_launch leaky_kube sample_k8s kv_sample_config demo_vm_spec False = (Inl e, True) \<and> \<not> as_uncertain e"
proof -
  let ?sec = "build_secret leaky_kube (k_namespace kv_sample_config) demo_vm_spec"
  let ?vm = "build_vm leaky_kube (k_namespace kv_sample_config) demo_vm_spec (100 * gib)"
  have pause: "ka_pause leaky_kube 0 w = (None, w)" for w by (simp add: leaky_kube_def)
  have b: "build_resources leaky_kube sample_k8s (k_namespace kv_sample_config) demo_vm_spec = Inr (?vm, ?sec)"
    by (simp add: build_resources_def demo_vm_spec_def sample_k8s_def)
  have "check_secret ?sec stored_secret = Inr False"
    by (simp add: check_secret_def stored_secret_def build_secret_def)
  then have "try_secret leaky_kube ?sec False = (Inr False, True)"
    by (simp add: try_secret_def verify_existing_def leaky_kube_def is_transient_def)
  from retry_first_try [of leaky_kube False False "try_secret leaky_kube ?sec" False True, OF pause this]
  have s: "create_or_verify_secret leaky_kube ?sec False = (Inr False, True)"
    by (simp add: create_or_verify_secret_def)
  have "try_vm leaky_kube ?vm True = (Inl (ErrK8s RInvalid []), True)"
    by (simp add: try_vm_def leaky_kube_def is_already_exists_def is_transient_def)
  from retry_permanent [of leaky_kube True True "try_vm leaky_kube ?vm" "ErrK8s RInvalid []" True, OF pause this]
  have "create_or_verify_vm leaky_kube ?vm True = (Inl (ErrWrap ''create VirtualMachine: %w'' [] (ErrK8s RInvalid [])), True)"
    by (simp add: create_or_verify_vm_def is_transient_def) (simp add: leaky_kube_def)
  then show ?thesis by (simp add: kube_launch_def b s)
qed

end
