(* ===== verification/Systems.thy ===== *)
theory Systems
  imports KvApiTheorems
begin

text \<open>
  The drivers as systems: any number of requests, watch streams and the reconciliation
  run at the same time on one registry, their atomic steps interleaved in any order, while
  the world around the process changes as it likes. What every step keeps holds in every
  interleaving.
\<close>

section \<open>The requests of a driver\<close>

datatype request =
  ReqCreate "driver_sandbox option" | ReqGet sandbox_ref | ReqList | ReqStop sandbox_ref
| ReqDelete sandbox_ref | ReqWatch nat | ReqInitialize | ReqWatcher nat

text \<open>A handler as a process: its answer goes to the client.\<close>

definition process :: "('s, 'a) prog \<Rightarrow> ('s, unit) prog" where
  "process p = call p (\<lambda>_. Ret ())"

primrec ec2_process :: "'w ec2_env \<Rightarrow> request \<Rightarrow> ('w sys, unit) prog" where
  "ec2_process env (ReqCreate sbo) = process (ec2_create_sandbox env sbo)"
| "ec2_process env (ReqGet req) = process (ec2_get_sandbox env req)"
| "ec2_process env ReqList = process (ec2_list_sandboxes env)"
| "ec2_process env (ReqStop req) = process (ec2_stop_sandbox env req)"
| "ec2_process env (ReqDelete req) = process (ec2_delete_sandbox env req)"
| "ec2_process env (ReqWatch fuel) = process (watch_sandboxes (ee_runtime env) fuel)"
| "ec2_process env ReqInitialize = process (ec2_initialize env)"
| "ec2_process env (ReqWatcher fuel) = process (ec2_start_watcher env fuel 0)"

primrec kv_process :: "'w kv_env \<Rightarrow> request \<Rightarrow> ('w sys, unit) prog" where
  "kv_process env (ReqCreate sbo) = process (kv_create_sandbox env sbo)"
| "kv_process env (ReqGet req) = process (kv_get_sandbox env req)"
| "kv_process env ReqList = process (kv_list_sandboxes env)"
| "kv_process env (ReqStop req) = process (kv_stop_sandbox env req)"
| "kv_process env (ReqDelete req) = process (kv_delete_sandbox env req)"
| "kv_process env (ReqWatch fuel) = process (kv_watch_sandboxes env fuel)"
| "kv_process env ReqInitialize = process (kv_initialize env)"
| "kv_process env (ReqWatcher fuel) = process (kv_start_watcher env fuel 0)"

lemma process_preserves [inv_intro]: "preserves I p \<Longrightarrow> preserves I (process p)"
  unfolding process_def by (intro inv_intro)

text \<open>
  The reachable configurations of a driver built with the given limits: the registry
  starts empty; between any two steps the world may change, the registry may not.
\<close>

definition world_moves :: "'w sys \<Rightarrow> 'w sys \<Rightarrow> bool" where
  "world_moves s s' \<longleftrightarrow> sy_reg s' = sy_reg s"

definition starts :: "limits \<Rightarrow> 'w sys \<Rightarrow> bool" where
  "starts l s \<longleftrightarrow> sy_reg s = new_registry l"

definition ec2_reach :: "'w ec2_env \<Rightarrow> ('w sys, unit) config \<Rightarrow> bool" where
  "ec2_reach env = reach (\<lambda>p. \<exists>q. p = ec2_process env q) world_moves (starts (ec2_limits (ee_config env)))"

definition kv_reach :: "'w kv_env \<Rightarrow> ('w sys, unit) config \<Rightarrow> bool" where
  "kv_reach env = reach (\<lambda>p. \<exists>q. p = kv_process env q) world_moves (starts (kv_limits (ke_config env)))"

lemma world_moves_in_reg: "world_moves s s' \<Longrightarrow> in_reg I s \<Longrightarrow> in_reg I s'"
  by (simp add: world_moves_def in_reg_def)

lemma ec2_reach_invariant:
  assumes "ec2_reach env c" and "I (new_registry (ec2_limits (ee_config env)))"
    and "\<And>q. preserves (in_reg I) (ec2_process env q)"
  shows "I (sy_reg (snd c))"
  using reach_preserves [OF assms(1) [unfolded ec2_reach_def], of "in_reg I"] assms(2,3) world_moves_in_reg
  by (auto simp: starts_def in_reg_def)

lemma kv_reach_invariant:
  assumes "kv_reach env c" and "I (new_registry (kv_limits (ke_config env)))"
    and "\<And>q. preserves (in_reg I) (kv_process env q)"
  shows "I (sy_reg (snd c))"
  using reach_preserves [OF assms(1) [unfolded kv_reach_def], of "in_reg I"] assms(2,3) world_moves_in_reg
  by (auto simp: starts_def in_reg_def)

section \<open>Records, channels and tokens\<close>

lemma ec2_initialize_preserves [inv_intro]: "preserves (in_reg core_inv) (ec2_initialize env)"
  unfolding ec2_initialize_def by (intro inv_intro)

lemma ec2_process_core: "preserves (in_reg core_inv) (ec2_process env q)"
  by (cases q) (auto intro!: inv_intro)

lemma kv_process_core: "preserves (in_reg core_inv) (kv_process env q)"
  by (cases q) (auto intro!: inv_intro)

text \<open>What the invariant says in full.\<close>

definition registry_sound :: "registry \<Rightarrow> bool" where
  "registry_sound r \<longleftrightarrow>
     (\<forall>i rc. reg_lookup r i = Some rc \<longrightarrow> r_sandbox_id rc = i \<and> spec_redacted (r_spec rc)) \<and>
     (\<forall>c \<in> set (reg_chans r). length (ch_buf c) \<le> 64 \<and> (\<forall>e \<in> set (ch_buf c). event_redacted e)) \<and>
     set (reg_watchers r) = {ch. ch < length (reg_chans r) \<and> \<not> ch_closed (reg_chans r ! ch)} \<and>
     \<not> reg_panic r"

lemma core_sound: "core_inv r \<Longrightarrow> registry_sound r"
  by (auto simp: core_inv_def registry_sound_def reg_ok_def watch_ok_def token_ok_def watch_buffer_size_def)

text \<open>C1: In every interleaving of requests, watch streams and polls of the EC2 driver, each
  record sits under its own sandbox id, no record and no event waiting for a watcher
  carries a sandbox token, no watcher buffer exceeds its 64 events, exactly the open
  channels are served, and no channel operation panics.\<close>

theorem ec2_system_sound:
  assumes "ec2_reach env c"
  shows "registry_sound (sy_reg (snd c))"
  by (rule core_sound, rule ec2_reach_invariant [OF assms])
    (simp_all add: ec2_process_core)

definition first_sys :: "limits \<Rightarrow> unit sys" where
  "first_sys l = \<lparr>sy_reg = new_registry l, sy_world = ()\<rparr>"

lemma reach_one:
  "init s \<Longrightarrow> client p \<Longrightarrow> reach client env init ([Ret (fst (run p s))], snd (run p s))"
  by (rule reach_run_alone) (intro reach_spawn reach_init; assumption)

theorem ec2_system_sound_witness:
  "registry_sound (sy_reg (snd (run (ec2_process (demo_env [demo_inst]) (ReqGet \<lparr>ref_id = ''sb'', ref_name = []\<rparr>))
     (first_sys (ec2_limits ec2_sample_config)))))"
proof -
  let ?p = "ec2_process (demo_env [demo_inst]) (ReqGet \<lparr>ref_id = ''sb'', ref_name = []\<rparr>)"
  let ?s = "first_sys (ec2_limits ec2_sample_config)"
  have "ec2_reach (demo_env [demo_inst]) ([Ret (fst (run ?p ?s))], snd (run ?p ?s))"
    unfolding ec2_reach_def by (rule reach_one) (simp add: starts_def first_sys_def, blast)
  from ec2_system_sound [OF this] show ?thesis by simp
qed

text \<open>C2: The same of the KubeVirt driver.\<close>

theorem kv_system_sound:
  assumes "kv_reach env c"
  shows "registry_sound (sy_reg (snd c))"
  by (rule core_sound, rule kv_reach_invariant [OF assms])
    (simp_all add: kv_process_core)

theorem kv_system_sound_witness:
  "registry_sound (sy_reg (snd (run (kv_process (demo_kv [demo_vm]) (ReqDelete \<lparr>ref_id = ''sb'', ref_name = []\<rparr>))
     (first_sys (kv_limits kv_sample_config)))))"
proof -
  let ?p = "kv_process (demo_kv [demo_vm]) (ReqDelete \<lparr>ref_id = ''sb'', ref_name = []\<rparr>)"
  let ?s = "first_sys (kv_limits kv_sample_config)"
  have "ke_config (demo_kv [demo_vm]) = kv_sample_config" by (simp add: demo_kv_def)
  then have "kv_reach (demo_kv [demo_vm]) ([Ret (fst (run ?p ?s))], snd (run ?p ?s))"
    unfolding kv_reach_def by (intro reach_one) (simp add: starts_def first_sys_def, blast)
  from kv_system_sound [OF this] show ?thesis by simp
qed


section \<open>Reservations in flight\<close>

text \<open>
  A reservation is a record without an instance. The number of them stays within the
  limit if the provider names its instances: no record with an instance ever loses its
  name, and only a reservation that found room adds one.
\<close>

definition kv_provider_names :: "'w kv_env \<Rightarrow> bool" where
  "kv_provider_names env \<longleftrightarrow>
     (\<forall>f w is. fst (ke_list env f w) = Inr is \<longrightarrow> (\<forall>i \<in> set is. v_vm_name i \<noteq> [])) \<and>
     (\<forall>lt is. set (ke_sort_vms env lt is) = set is)"

lemma pending_ops [inv_intro]:
  "pending_ok (f r) \<Longrightarrow> pending_ok (snd (unit_op f r))"
  "pending_ok r \<Longrightarrow> pending_ok (snd (read_op g r))"
  "pending_ok r \<Longrightarrow> pending_ok (broadcast_sandbox rc r)"
  "pending_ok r \<Longrightarrow> pending_ok (broadcast_deleted i r)"
  "pending_ok r \<Longrightarrow> pending_ok (snd (poll_chan ch r))"
  "pending_ok r \<Longrightarrow> pending_ok (snd (reserve rc r))"
  by (auto simp: op_defs broadcast_sandbox_def broadcast_deleted_def poll_chan_def snd_reserve intro: inv_intro)

lemma pending_update [inv_intro]:
  "pending_ok r \<Longrightarrow> (\<And>rc. r_instance_id (fn rc) = [] \<Longrightarrow> r_instance_id rc = []) \<Longrightarrow>
   pending_ok (snd (update_record i fn r))"
  unfolding update_record_def by (rule pending_ok_update_if)

lemma preserves_for_each_mem:
  "(\<And>x acc. x \<in> set xs \<Longrightarrow> preserves I (body x acc)) \<Longrightarrow> preserves I (for_each xs body acc)"
  by (induction xs arbitrary: acc) (auto intro!: preserves_call split: sum.split)

lemma watch_pending [inv_intro]: "preserves (in_reg pending_ok) (watch_sandboxes rt fuel)"
proof -
  have "preserves (in_reg pending_ok) (watch_loop rt ch fuel)" for ch
    by (induction fuel) (auto intro!: inv_intro)
  then show ?thesis unfolding watch_sandboxes_def by (intro inv_intro)
qed

lemma kv_keeps_instance:
  "v_vm_name i \<noteq> [] \<Longrightarrow> r_instance_id (kv_commit i t rc) = [] \<Longrightarrow> r_instance_id rc = []"
  "r_instance_id x \<noteq> [] \<Longrightarrow> r_instance_id (kv_adopt x rc) = [] \<Longrightarrow> r_instance_id rc = []"
  "r_instance_id (kv_mark st t rc) = [] \<Longrightarrow> r_instance_id rc = []"
  "r_instance_id (kv_delete_requested t rc) = [] \<Longrightarrow> r_instance_id rc = []"
  "v_vm_name m \<noteq> [] \<Longrightarrow> r_instance_id (kv_refresh m ob t rc) = [] \<Longrightarrow> r_instance_id rc = []"
  "r_instance_id (rc\<lparr>r_missing_polls := n\<rparr>) = [] \<Longrightarrow> r_instance_id rc = []"
  by (simp_all add: kv_commit_def kv_adopt_def kv_mark_def kv_delete_requested_def)

lemma kv_commit_pending:
  "v_vm_name i \<noteq> [] \<Longrightarrow> preserves (in_reg pending_ok) (kv_commit_launch env sb lease t i)"
  unfolding kv_commit_launch_def by (intro inv_intro) (auto dest: kv_keeps_instance)

lemma kv_create_pending: "preserves (in_reg pending_ok) (kv_create_sandbox env sbo)"
  unfolding kv_create_sandbox_def kv_create_reserved_def
  by (intro inv_intro kv_commit_pending) simp_all

lemma kv_adopt_pending:
  "r_instance_id rc \<noteq> [] \<Longrightarrow> preserves (in_reg pending_ok) (kv_resolve_adopt rc)"
  unfolding kv_resolve_adopt_def by (intro inv_intro) (auto dest: kv_keeps_instance)

lemma kv_resolve_pending:
  assumes "kv_provider_names env"
  shows "preserves (in_reg pending_ok) (kv_resolve env i nm)"
proof -
  have "preserves (in_reg pending_ok) (kv_resolve_remote env i nm)"
    unfolding kv_resolve_remote_def
  proof (rule preserves_on_world_dep)
    fix w
    let ?f = "\<lparr>vf_gateway_id = k_gateway_id (ke_config env), vf_sandbox_id = i, vf_name = nm\<rparr>"
    have "v_vm_name a \<noteq> []" if "fst (ke_list env ?f w) = Inr is"
      "filter (\<lambda>x. \<not> is_terminal_state (v_state x)) is = a # as" for "is" a as
    proof -
      have "a \<in> set (filter (\<lambda>x. \<not> is_terminal_state (v_state x)) is)" by (simp add: that(2))
      then have "a \<in> set is" by simp
      with assms that(1) show ?thesis by (auto simp: kv_provider_names_def)
    qed
    then show "preserves (in_reg pending_ok)
       (case fst (ke_list env ?f w) of Inl e \<Rightarrow> kv_fail env e
        | Inr instances \<Rightarrow>
            (case filter (\<lambda>x. \<not> is_terminal_state (v_state x)) instances of
               [] \<Rightarrow> Ret (Inl not_found)
             | a # more_active \<Rightarrow>
                 if more_active \<noteq> []
                 then Ret (Inl (Status FailedPrecondition (ErrNew ''multiple provider instances match sandbox'')))
                 else now_of (ke_runtime env) (\<lambda>now. kv_resolve_adopt (kv_record_from_instance now a))))"
      by (intro inv_intro kv_adopt_pending) auto
  qed
  then show ?thesis unfolding kv_resolve_def by (intro inv_intro)
qed

lemma kv_mark_same_pending: "preserves (in_reg pending_ok) (kv_mark_same env rc st answer)"
  unfolding kv_mark_same_def by (intro inv_intro) (auto dest: kv_keeps_instance)

lemma kv_delete_pending:
  "kv_provider_names env \<Longrightarrow> preserves (in_reg pending_ok) (kv_delete_sandbox env req)"
  unfolding kv_delete_sandbox_def kv_mark_launching_deletion_def kv_mark_one_def
  by (intro inv_intro kv_resolve_pending kv_mark_same_pending) (auto dest: kv_keeps_instance)

lemma kv_reconcile_pending:
  assumes "v_vm_name m \<noteq> []"
  shows "preserves (in_reg pending_ok) (kv_reconcile env i m)"
  unfolding kv_reconcile_def kv_recover_def Let_def
  by (intro inv_intro) (use assms in \<open>auto dest: kv_keeps_instance\<close>)

lemma kv_poll_pending:
  assumes "kv_provider_names env"
  shows "preserves (in_reg pending_ok) (kv_poll env)"
proof -
  have one: "preserves (in_reg pending_ok) (kv_poll_sandbox env i ms)"
    if "\<forall>m \<in> set ms. v_vm_name m \<noteq> []" for i ms
  proof (cases "vm_live env ms = []")
    case True
    then show ?thesis by (simp add: kv_poll_sandbox_def)
  next
    case False
    then have "vm_live env ms ! keeper_index (vm_live env ms) \<in> set (vm_live env ms)"
      using keeper_index_less by simp
    then have "vm_live env ms ! keeper_index (vm_live env ms) \<in> set ms"
      using assms by (auto simp: vm_live_def kv_provider_names_def)
    with that have "v_vm_name (vm_live env ms ! keeper_index (vm_live env ms)) \<noteq> []" by blast
    then show ?thesis unfolding kv_poll_sandbox_def Let_def
      by (intro inv_intro kv_reconcile_pending)
  qed
  have listed: "preserves (in_reg pending_ok) (kv_poll_listed env (vm_by_sandbox is))"
    if "\<forall>m \<in> set is. v_vm_name m \<noteq> []" for "is"
    unfolding kv_poll_listed_def
    by (intro inv_intro one) (use that in \<open>auto simp: vm_by_sandbox_lookup vm_matches_def split: if_splits\<close>)
  have missing: "preserves (in_reg pending_ok) (kv_poll_missing env seen)" for seen
    unfolding kv_poll_missing_def kv_missing_one_def by (intro inv_intro) (auto dest: kv_keeps_instance)
  have expired: "preserves (in_reg pending_ok) (kv_poll_expired env)"
    unfolding kv_poll_expired_def kv_expire_one_def by (intro inv_intro) (auto dest: kv_keeps_instance)
  show ?thesis unfolding kv_poll_def
  proof (rule preserves_on_world_dep)
    fix w
    let ?l = "fst (ke_list env (kv_everything env) w)"
    have "\<forall>m \<in> set is. v_vm_name m \<noteq> []" if "?l = Inr is" for "is"
      using assms that by (auto simp: kv_provider_names_def)
    then show "preserves (in_reg pending_ok)
       (case ?l of Inl e \<Rightarrow> Ret (Some e)
        | Inr instances \<Rightarrow>
            call (kv_poll_listed env (vm_by_sandbox instances)) (\<lambda>r.
              case r of Inl e \<Rightarrow> Ret (Some e)
              | Inr seen \<Rightarrow> call (kv_poll_missing env seen) (\<lambda>r2.
                  case r2 of Inl e \<Rightarrow> Ret (Some e)
                  | Inr _ \<Rightarrow> call (kv_poll_expired env) (\<lambda>r3.
                      case r3 of Inl e \<Rightarrow> Ret (Some e) | Inr _ \<Rightarrow> Ret None))))"
      by (intro inv_intro listed missing expired) auto
  qed
qed

lemma kv_process_pending:
  assumes "kv_provider_names env"
  shows "preserves (in_reg pending_ok) (kv_process env q)"
proof -
  note R = kv_resolve_pending [OF assms]
  have watcher: "preserves (in_reg pending_ok) (kv_start_watcher env fuel n)" for fuel n
    by (induction fuel arbitrary: n) (auto intro!: inv_intro kv_poll_pending [OF assms] simp: Let_def)
  show ?thesis
  proof (cases q)
    case (ReqGet req)
    then show ?thesis by (auto simp: kv_get_sandbox_def intro!: inv_intro R)
  next
    case ReqList
    then show ?thesis by (auto simp: kv_list_sandboxes_def intro!: inv_intro)
  next
    case (ReqStop req)
    then show ?thesis by (auto simp: kv_stop_sandbox_def intro!: inv_intro R kv_mark_same_pending)
  next
    case ReqInitialize
    then show ?thesis by (auto simp: kv_initialize_def intro!: inv_intro kv_poll_pending [OF assms])
  qed (auto intro!: inv_intro kv_create_pending kv_delete_pending [OF assms] watcher)
qed

text \<open>The limits of a registry never change.\<close>

definition limits_are :: "limits \<Rightarrow> registry \<Rightarrow> bool" where
  "limits_are l r \<longleftrightarrow> reg_limits r = l"

lemma limits_new: "limits_are l (new_registry l)"
  by (simp add: limits_are_def new_registry_def)

lemma limits_ops [inv_intro]:
  "limits_are l r \<Longrightarrow> limits_are l (snd (reserve_with_lease rc r))"
  "limits_are l r \<Longrightarrow> limits_are l (snd (reserve rc r))"
  "limits_are l r \<Longrightarrow> limits_are l (snd (add_record rco r))"
  "limits_are l r \<Longrightarrow> limits_are l (snd (update_if i p fn r))"
  "limits_are l r \<Longrightarrow> limits_are l (snd (update_record i fn r))"
  "limits_are l r \<Longrightarrow> limits_are l (snd (delete_if i p r))"
  "limits_are l r \<Longrightarrow> limits_are l (snd (delete_record i r))"
  "limits_are l r \<Longrightarrow> limits_are l (rollback i r)"
  "limits_are l r \<Longrightarrow> limits_are l (broadcast ev r)"
  "limits_are l r \<Longrightarrow> limits_are l (broadcast_sandbox rc r)"
  "limits_are l r \<Longrightarrow> limits_are l (broadcast_deleted i r)"
  "limits_are l r \<Longrightarrow> limits_are l (snd (subscribe ks r))"
  "limits_are l r \<Longrightarrow> limits_are l (remove_watcher ch r)"
  "limits_are l r \<Longrightarrow> limits_are l (snd (poll_chan ch r))"
  "limits_are l (f r) \<Longrightarrow> limits_are l (snd (unit_op f r))"
  "limits_are l r \<Longrightarrow> limits_are l (snd (read_op g r))"
  by (simp_all add: limits_are_def snd_reserve update_record_def broadcast_sandbox_def broadcast_deleted_def
      poll_chan_def op_defs)

lemma watch_limits [inv_intro]: "preserves (in_reg (limits_are l)) (watch_sandboxes rt fuel)"
proof -
  have "preserves (in_reg (limits_are l)) (watch_loop rt ch fuel)" for ch
    by (induction fuel) (auto intro!: inv_intro)
  then show ?thesis unfolding watch_sandboxes_def by (intro inv_intro)
qed

lemma kv_resolve_limits [inv_intro]: "preserves (in_reg (limits_are l)) (kv_resolve env i nm)"
  unfolding kv_resolve_def kv_resolve_remote_def kv_resolve_adopt_def by (intro inv_intro)

lemma kv_create_limits [inv_intro]: "preserves (in_reg (limits_are l)) (kv_create_sandbox env sbo)"
  unfolding kv_create_sandbox_def kv_create_reserved_def kv_commit_launch_def by (intro inv_intro)

lemma kv_get_limits [inv_intro]: "preserves (in_reg (limits_are l)) (kv_get_sandbox env req)"
  unfolding kv_get_sandbox_def by (intro inv_intro)

lemma kv_list_limits [inv_intro]: "preserves (in_reg (limits_are l)) (kv_list_sandboxes env)"
  unfolding kv_list_sandboxes_def by (intro inv_intro)

lemma kv_mark_same_limits [inv_intro]: "preserves (in_reg (limits_are l)) (kv_mark_same env rc st a)"
  unfolding kv_mark_same_def by (intro inv_intro)

lemma kv_stop_limits [inv_intro]: "preserves (in_reg (limits_are l)) (kv_stop_sandbox env req)"
  unfolding kv_stop_sandbox_def by (intro inv_intro)

lemma kv_mark_launching_limits [inv_intro]:
  "preserves (in_reg (limits_are l)) (kv_mark_launching_deletion env i nm)"
  unfolding kv_mark_launching_deletion_def kv_mark_one_def by (intro inv_intro)

lemma kv_delete_limits [inv_intro]: "preserves (in_reg (limits_are l)) (kv_delete_sandbox env req)"
  unfolding kv_delete_sandbox_def by (intro inv_intro)

lemma kv_poll_limits [inv_intro]: "preserves (in_reg (limits_are l)) (kv_poll env)"
  unfolding kv_poll_def kv_poll_listed_def kv_poll_sandbox_def kv_reconcile_def kv_recover_def
    kv_poll_missing_def kv_missing_one_def kv_poll_expired_def kv_expire_one_def
  by (intro inv_intro)

lemma kv_process_limits: "preserves (in_reg (limits_are l)) (kv_process env q)"
proof -
  have watcher: "preserves (in_reg (limits_are l)) (kv_start_watcher env fuel n)" for fuel n
    by (induction fuel arbitrary: n) (auto intro!: inv_intro simp: Let_def)
  show ?thesis by (cases q) (auto simp: kv_initialize_def intro!: inv_intro watcher)
qed

lemma kv_reservations_core:
  assumes "kv_reach env c" and "kv_provider_names env"
  shows "int (card {i. \<exists>rc. reg_lookup (sy_reg (snd c)) i = Some rc \<and> r_instance_id rc = []}) \<le>
    effective_max_instances (kv_limits (ke_config env))"
proof -
  have "pending_ok (sy_reg (snd c))"
    by (rule kv_reach_invariant [OF assms(1)]) (simp_all add: kv_process_pending [OF assms(2)])
  moreover have "limits_are (kv_limits (ke_config env)) (sy_reg (snd c))"
    by (rule kv_reach_invariant [OF assms(1)])
      (simp_all add: kv_process_limits limits_new)
  ultimately show ?thesis by (simp add: pending_ok_def pending_ids_def limits_are_def)
qed

text \<open>In every interleaving of the KubeVirt driver the reservations in flight stay within
  the configured limit, provided that the cluster names its machines.\<close>

theorem kv_reservations_bounded:
  assumes "kv_reach env c" and "kv_provider_names env"
  shows "int (card {i. \<exists>rc. reg_lookup (sy_reg (snd c)) i = Some rc \<and> r_instance_id rc = []}) \<le>
    effective_max_instances (kv_limits (ke_config env))"
  by (rule kv_reservations_core [OF assms])

theorem kv_reservations_bounded_witness:
  "int (card {i. \<exists>rc. reg_lookup (sy_reg (snd (run (kv_process (demo_kv [demo_vm]) (ReqCreate (Some plain_sandbox)))
       (first_sys (kv_limits kv_sample_config))))) i = Some rc \<and> r_instance_id rc = []}) \<le> 10"
proof -
  let ?p = "kv_process (demo_kv [demo_vm]) (ReqCreate (Some plain_sandbox))"
  let ?s = "first_sys (kv_limits kv_sample_config)"
  have cfg: "ke_config (demo_kv [demo_vm]) = kv_sample_config" by (simp add: demo_kv_def)
  then have r: "kv_reach (demo_kv [demo_vm]) ([Ret (fst (run ?p ?s))], snd (run ?p ?s))"
    unfolding kv_reach_def by (intro reach_one) (simp add: starts_def first_sys_def, blast)
  have n: "kv_provider_names (demo_kv [demo_vm])"
    by (simp add: kv_provider_names_def) (simp add: demo_vm_def)
  have "effective_max_instances (kv_limits kv_sample_config) = 10"
    by (simp add: effective_max_instances_def kv_limits_def kv_sample_config_def kv_default_config_def
        default_max_instances_def)
  with kv_reservations_bounded [OF r n] cfg show ?thesis by simp
qed

end
