(* ===== verification/ServerTheorems.thy ===== *)
theory ServerTheorems
  imports Server Systems
begin

text \<open>
  What the server promises: where it listens, what it leaves behind, how many calls it
  lets in, when it reports success, and that the drivers are reconciled before the first
  request can arrive.
\<close>

section \<open>The drivers behind the server\<close>

definition ec2_server :: "'w ec2_env \<Rightarrow> 'w sys server_env \<Rightarrow> 'w sys server_env" where
  "ec2_server drv env = env\<lparr>sv_initialize := Some (\<lambda>_. run (ec2_initialize drv))\<rparr>"

definition kv_server :: "'w kv_env \<Rightarrow> 'w sys server_env \<Rightarrow> 'w sys server_env" where
  "kv_server drv env = env\<lparr>sv_initialize := Some (\<lambda>_. run (kv_initialize drv))\<rparr>"

definition no_faults :: host_lib where
  "no_faults = \<lparr>hl_lstat = \<lambda>_ _. None, hl_remove = \<lambda>_ _. None, hl_listen = \<lambda>_ _. None,
     hl_chmod = \<lambda>_ _. None, hl_socket_mode = 0x1ED\<rparr>"

definition quiet_server :: "unit server_env" where
  "quiet_server = \<lparr>sv_host = no_faults, sv_initialize = None, sv_serve = \<lambda>_ _ w. w,
     sv_start_watcher = None, sv_select = \<lambda>w. (ContextDone ErrCanceled, w),
     sv_cancel_workers = \<lambda>w. w, sv_graceful_stop = \<lambda>_ w. (True, w), sv_stop = \<lambda>w. w\<rparr>"

definition stale_host :: host where
  "stale_host = \<lparr>ho_files = [''/run/s'' \<mapsto> SocketNode 0x1ED], ho_listeners = []\<rparr>"

definition socket_options :: server_options where
  "socket_options = \<lparr>so_socket_path = ''/run/s'', so_bind_address = [], so_insecure = False,
     so_shutdown_timeout = 0, so_max_recv = 0, so_max_rpcs = 0\<rparr>"

lemma server_accepts_over_stale_socket:
  "listen_on no_faults socket_options stale_host =
     (Inr (UnixListener ''/run/s''),
      \<lparr>ho_files = [''/run/s'' \<mapsto> SocketNode 0x180], ho_listeners = [UnixListener ''/run/s'']\<rparr>)"
  by (simp add: listen_on_def socket_options_def clear_path_def os_lstat_def os_remove_def no_faults_def
      stale_host_def net_listen_unix_def abstract_name_def os_chmod_def)

section \<open>Properties\<close>

text \<open>
  C14: Whatever the host does, \<open>listen\<close> either fails and leaves no listener open, or
  opens exactly one: on TCP for localhost or a loopback address, or on the configured Unix
  socket, which then is a socket with mode 0600 and never an abstract name. A file that
  is not a socket is never removed, and no other path is touched.
\<close>

theorem server_listens_locally:
  "case listen_on lib opts h of
     (Inl e, h') \<Rightarrow> ho_listeners h' = ho_listeners h \<and> spares (so_socket_path opts) h h'
   | (Inr lis, h') \<Rightarrow>
       ho_listeners h' = lis # ho_listeners h \<and> spares (so_socket_path opts) h h' \<and>
       (case lis of
          TCPListener a \<Rightarrow> a = so_bind_address opts \<and>
            (\<exists>host port. split_host_port a = Inr (host, port) \<and>
               (host = ''localhost'' \<or> (\<exists>ip. parse_ip host = Some ip \<and> is_loopback ip)))
        | UnixListener p \<Rightarrow> p = so_socket_path opts \<and> \<not> abstract_name p \<and>
            ho_files h' p = Some (SocketNode 0x180) \<and> ho_files h p \<noteq> Some OtherNode)"
  using listen_on_core [where lib = lib and opts = opts and h = h]
  by (auto simp: bind_error_None split: prod.splits sum.splits listener.splits)

text \<open>Of the printed IPv4 addresses, the bind check accepts exactly 127.0.0.0/8, with any
  port text; an address without a host, which would listen on every interface, is
  refused.
\<close>

theorem bind_loopback_only:
  assumes "a < 256" "b < 256" "c < 256" "d < 256"
    and "set port \<inter> {CHR '':'', CHR ''['', CHR '']''} = {}"
  shows "(bind_error (dotted a b c d @ CHR '':'' # port) = None \<longleftrightarrow> a = 127) \<and>
    bind_error (CHR '':'' # port) \<noteq> None"
proof
  have "split_host_port (dotted a b c d @ CHR '':'' # port) = Inr (dotted a b c d, port)"
    using assms(5) by (intro split_host_port_plain) auto
  moreover have "dotted a b c d \<noteq> ''localhost''"
  proof
    assume "dotted a b c d = ''localhost''"
    then have "CHR ''.'' \<in> set ''localhost''" by (metis dotted_def in_set_conv_decomp append_Cons)
    then show False by simp
  qed
  ultimately show "bind_error (dotted a b c d @ CHR '':'' # port) = None \<longleftrightarrow> a = 127"
    using assms by (simp add: bind_error_def parse_ip_dotted)
  have "split_host_port (CHR '':'' # port) = Inr ([], port)"
    using split_host_port_plain [of "[]" port] assms(5) by simp
  then show "bind_error (CHR '':'' # port) \<noteq> None"
    by (simp add: bind_error_def parse_ip_def)
qed

theorem bind_loopback_only_witness:
  "bind_error (dotted 127 0 0 1 @ CHR '':'' # ''8080'') = None \<and>
   bind_error (dotted 10 0 0 1 @ CHR '':'' # ''8080'') \<noteq> None"
  using bind_loopback_only [of 127 0 0 1 "''8080''"] bind_loopback_only [of 10 0 0 1 "''8080''"]
  by simp

text \<open>
  C27: In every interleaving of unary calls, the places taken in the semaphore are the
  handlers that are running: never more than there are places, and none is ever lost. A call
  is refused only while every place is taken.
\<close>

theorem limiter_bounded:
  assumes "limiter_reach cap (n, rs)"
  shows "n = running rs \<and> running rs \<le> cap \<and>
    ((\<exists>st. unary_enter cap m n = Inl st) \<longleftrightarrow> running rs = cap)"
  using limiter_invariant [OF assms] by (auto simp: unary_enter_def)

theorem limiter_bounded_witness:
  "limiter_reach 1 (1, [Running, Arrived ''m'' :: unit rpc]) \<and>
   (\<exists>st. unary_enter 1 ''m'' 1 = Inl st)"
proof -
  note step = limiter_next
  have "limiter_reach 1 (0, [Arrived ''m'' :: unit rpc])"
    using step [OF limiter_start rpc_arrives, of 1 "''m''"] by simp
  from step [OF this rpc_arrives, of "''m''"]
  have "limiter_reach 1 (0, [Arrived ''m'', Arrived ''m'' :: unit rpc])" by simp
  from step [OF this rpc_enters [of 0 _ "''m''" _ _ 1]]
  have r: "limiter_reach 1 (1, [Running, Arrived ''m'' :: unit rpc])"
    by (simp add: unary_enter_def)
  with limiter_bounded [OF r, of "''m''"] show ?thesis by simp
qed

text \<open>However Run ends, the listeners are the ones from before, no file but the socket was
  touched, and a socket that was served on is gone.
\<close>

theorem server_run_cleans_up:
  "case run_server env opts h w of
     (r, h', w') \<Rightarrow>
       ho_listeners h' = ho_listeners h \<and> spares (so_socket_path opts) h h' \<and>
       (r = None \<and> so_bind_address opts = [] \<longrightarrow> ho_files h' (so_socket_path opts) = None)"
proof -
  let ?o = "with_defaults opts"
  have o: "so_socket_path ?o = so_socket_path opts" "so_bind_address ?o = so_bind_address opts"
    by simp_all
  obtain r1 w1 where i: "initialize_driver env w = (r1, w1)" by (cases "initialize_driver env w")
  obtain l h1 where l: "listen_on (sv_host env) ?o h = (l, h1)" by (cases "listen_on (sv_host env) ?o h")
  note core = listen_on_core [where lib = "sv_host env" and opts = ?o and h = h, unfolded l o]
  show ?thesis
  proof (cases r1)
    case (Some e)
    with i show ?thesis by (simp add: run_server_def)
  next
    case None
    show ?thesis
    proof (cases l)
      case (Inl e)
      with None i l core show ?thesis by (simp add: run_server_def)
    next
      case (Inr lis)
      obtain r w2 where "serve_until env ?o lis w1 = (r, w2)" by (cases "serve_until env ?o lis w1")
      with None i l Inr have run: "run_server env opts h w = (r, cleanup (sv_host env) lis h1, w2)"
        by (simp add: run_server_def)
      have h1: "ho_listeners h1 = lis # ho_listeners h" using core Inr by simp
      show ?thesis
        using core cleanup_undoes [OF h1, of "sv_host env"]
        unfolding run Inr by (cases lis) (auto simp: spares_def)
    qed
  qed
qed

theorem server_run_cleans_up_witness:
  "fst (run_server quiet_server socket_options stale_host ()) = None \<and>
   ho_files (fst (snd (run_server quiet_server socket_options stale_host ()))) ''/run/s'' = None"
proof -
  have "fst (run_server quiet_server socket_options stale_host ()) = None"
    by (simp add: run_server_def server_accepts_over_stale_socket quiet_server_def initialize_driver_def
        serve_until_def run_error_def exit_error_def)
  with server_run_cleans_up [where env = quiet_server and opts = socket_options and h = stale_host and w = "()"]
  show ?thesis by (auto simp: socket_options_def split: prod.splits)
qed

text \<open>
  C28: Run reports success only after the driver was reconciled and the listener opened, and
  when what ended the wait was one of four things: a run context cancelled with a plain
  cancellation as its cause; a grpc server that returned once the run context was done, with
  no error but its own stopping; a watcher that reported once the run context was done; or a
  report, of the server or of the watcher, that itself wraps context.Canceled. So a server or
  watcher that ends while the run context is live is an error, with or without one of its
  own, unless the error it reports is a cancellation.
\<close>

theorem server_success_is_shutdown:
  assumes "run_server env opts h w = (None, h', w')"
  shows "\<exists>w1 lis h1 ev w2.
    initialize_driver env w = (None, w1) \<and>
    listen_on (sv_host env) (with_defaults opts) h = (Inr lis, h1) \<and>
    sv_select env (case sv_start_watcher env of
        None \<Rightarrow> sv_serve env (grpc_limits_of (with_defaults opts)) lis w1
      | Some start \<Rightarrow> start (sv_serve env (grpc_limits_of (with_defaults opts)) lis w1)) = (ev, w2) \<and>
    (case ev of
       ContextDone cause \<Rightarrow> errors_is cause ErrCanceled
     | ServeReturned err live \<Rightarrow>
         \<not> live \<and> (\<forall>e. err = Some e \<longrightarrow> errors_is e err_server_stopped) \<or>
         (\<exists>e. err = Some e \<and> errors_is e ErrCanceled)
     | WatchReported r live \<Rightarrow> \<not> live \<or> (\<exists>e. watcher_error r = Some e \<and> errors_is e ErrCanceled))"
proof -
  obtain r1 w1 where i: "initialize_driver env w = (r1, w1)" by (cases "initialize_driver env w")
  with assms have r1: "r1 = None" by (cases r1) (simp_all add: run_server_def)
  obtain l h1 where l: "listen_on (sv_host env) opts h = (l, h1)"
    by (cases "listen_on (sv_host env) opts h")
  with assms i r1 obtain lis where lis: "l = Inr lis" by (cases l) (simp_all add: run_server_def)
  let ?s = "case sv_start_watcher env of
      None \<Rightarrow> sv_serve env (grpc_limits_of (with_defaults opts)) lis w1
    | Some start \<Rightarrow> start (sv_serve env (grpc_limits_of (with_defaults opts)) lis w1)"
  obtain ev w2 where ev: "sv_select env ?s = (ev, w2)" by (cases "sv_select env ?s")
  with assms i l r1 lis have "exit_error (run_error ev) = None"
    by (simp add: run_server_def serve_until_def Let_def)
  then have "case ev of
       ContextDone cause \<Rightarrow> errors_is cause ErrCanceled
     | ServeReturned err live \<Rightarrow>
         \<not> live \<and> (\<forall>e. err = Some e \<longrightarrow> errors_is e err_server_stopped) \<or>
         (\<exists>e. err = Some e \<and> errors_is e ErrCanceled)
     | WatchReported r live \<Rightarrow> \<not> live \<or> (\<exists>e. watcher_error r = Some e \<and> errors_is e ErrCanceled)"
    unfolding exit_error_None by (auto split: wakeup.splits option.splits if_splits)
  with i l ev r1 lis show ?thesis by (simp add: exI [of _ lis])
qed

theorem server_success_is_shutdown_witness:
  "\<exists>h'. run_server quiet_server socket_options stale_host () = (None, h', ()) \<and>
    fst (sv_select quiet_server ()) = ContextDone ErrCanceled"
proof -
  have "fst (run_server quiet_server socket_options stale_host ()) = None"
    by (simp add: run_server_def server_accepts_over_stale_socket quiet_server_def initialize_driver_def
        serve_until_def run_error_def exit_error_def)
  then obtain h' where "run_server quiet_server socket_options stale_host () = (None, h', ())"
    by (metis prod.collapse old.unit.exhaust)
  with server_success_is_shutdown [OF this] show ?thesis by (simp add: quiet_server_def)
qed


text \<open>
  A signal is no cancellation: since Go 1.26 the cause of a context that
  \<open>signal.NotifyContext\<close> cancelled names the signal, and Run reports it as an error.
\<close>

definition sigterm_cause :: goerr where
  "sigterm_cause = ErrNew ''terminated signal received''"

theorem server_signal_is_an_error:
  assumes "fst (initialize_driver env w) = None"
    and "\<exists>lis. fst (listen_on (sv_host env) (with_defaults opts) h) = Inr lis"
    and "\<forall>s. fst (sv_select env s) = ContextDone sigterm_cause"
  shows "fst (run_server env opts h w) = Some sigterm_cause"
proof -
  from assms(2) obtain lis h1 where
    "listen_on (sv_host env) (with_defaults opts) h = (Inr lis, h1)" by (metis prod.collapse)
  with assms(1,3) show ?thesis
    by (simp add: run_server_def serve_until_def split_def Let_def run_error_def exit_error_def sigterm_cause_def
        split: option.split)
qed

text \<open>The drivers are reconciled before anything listens: when the first poll fails, Run
  answers with its error, wrapped, and has not touched the host; when it succeeds, serving
  starts from the registry the poll left.
\<close>

theorem drivers_reconcile_before_listening:
  "run_server (ec2_server edrv env) opts h s =
     (case run (ec2_initialize edrv) s of
        (Some e, s') \<Rightarrow> (Some (ErrWrap ''initial driver reconciliation: %w'' [] e), h, s')
      | (None, s') \<Rightarrow> run_server (env\<lparr>sv_initialize := None\<rparr>) opts h s') \<and>
   run_server (kv_server kdrv kenv) opts h t =
     (case run (kv_initialize kdrv) t of
        (Some e, t') \<Rightarrow> (Some (ErrWrap ''initial driver reconciliation: %w'' [] e), h, t')
      | (None, t') \<Rightarrow> run_server (kenv\<lparr>sv_initialize := None\<rparr>) opts h t')"
  by (simp add: ec2_server_def kv_server_def run_server_initialize)

end
