(* ===== verification/GoFlag.thy ===== *)
theory GoFlag
  imports GoNet GoFloat GoTime Bootstrap
begin

text \<open>
  The command line of a Go program: the values strconv and time read from text, and
  \<open>flag.FlagSet.Parse\<close> for string, bool, int and duration flags with ContinueOnError. The
  lemmas say that a parsed flag is one that was defined, with a value of its kind.
\<close>

section \<open>Values\<close>

datatype num_failure = BadSyntax | OutOfRange

definition syntax_error :: "bytestr \<Rightarrow> bytestr \<Rightarrow> goerr" where
  "syntax_error fn s = ErrFmt ''strconv.%s: parsing %q: invalid syntax'' [AStr fn, AStr s]"

definition parse_bool :: "bytestr \<Rightarrow> goerr + bool" where
  "parse_bool s =
     (if s \<in> {''1'', ''t'', ''T'', ''true'', ''TRUE'', ''True''} then Inr True
      else if s \<in> {''0'', ''f'', ''F'', ''false'', ''FALSE'', ''False''} then Inr False
      else Inl (syntax_error ''ParseBool'' s))"

text \<open>
  \<open>ParseInt(s, 0, 64)\<close>: the base from the prefix, underscores where a literal may have
  them.
\<close>

definition base_prefix :: "bytestr \<Rightarrow> nat \<times> bytestr" where
  "base_prefix s =
     (case s of
        [] \<Rightarrow> (10, s)
      | c # t \<Rightarrow>
          if c \<noteq> CHR ''0'' then (10, s)
          else if length s \<ge> 3 \<and> lower_char (hd t) = CHR ''b'' then (2, tl t)
          else if length s \<ge> 3 \<and> lower_char (hd t) = CHR ''o'' then (8, tl t)
          else if length s \<ge> 3 \<and> lower_char (hd t) = CHR ''x'' then (16, tl t)
          else (8, t))"

definition digit_of :: "char \<Rightarrow> nat option" where
  "digit_of c =
     (if is_digit c then Some (byte c - 48)
      else if 97 \<le> byte (lower_char c) \<and> byte (lower_char c) \<le> 122 then Some (byte (lower_char c) - 87)
      else None)"

fun uint_digits :: "nat \<Rightarrow> nat \<Rightarrow> bytestr \<Rightarrow> num_failure + nat" where
  "uint_digits b acc [] = Inr acc"
| "uint_digits b acc (c # s) =
     (if c = CHR ''_'' then uint_digits b acc s
      else (case digit_of c of
              None \<Rightarrow> Inl BadSyntax
            | Some d \<Rightarrow>
                if d \<ge> b then Inl BadSyntax
                else if acc * b + d \<ge> 2 ^ 64 then Inl OutOfRange
                else uint_digits b (acc * b + d) s))"

definition parse_int0 :: "bytestr \<Rightarrow> num_failure + int" where
  "parse_int0 s =
     (let (neg, t) = drop_sign s; (b, digits) = base_prefix t in
      if t = [] then Inl BadSyntax
      else
        (case uint_digits b 0 digits of
           Inl f \<Rightarrow> Inl f
         | Inr n \<Rightarrow>
             if CHR ''_'' \<in> set digits \<and> \<not> underscore_ok t then Inl BadSyntax
             else if neg \<and> n > 2 ^ 63 \<or> \<not> neg \<and> n \<ge> 2 ^ 63 then Inl OutOfRange
             else Inr (if neg then - int n else int n)))"

section \<open>ParseDuration\<close>

definition unit_map :: "bytestr \<Rightarrow> nat option" where
  "unit_map u =
     (if u = ''ns'' then Some 1
      else if u = ''us'' \<or> u = [CHR 0xC2, CHR 0xB5, CHR ''s''] \<or> u = [CHR 0xCE, CHR 0xBC, CHR ''s'']
      then Some 1000
      else if u = ''ms'' then Some 1000000
      else if u = ''s'' then Some 1000000000
      else if u = ''m'' then Some 60000000000
      else if u = ''h'' then Some 3600000000000
      else None)"

text \<open>\<open>leadingFraction\<close>: digits are taken in as long as the value fits; the scale goes with them.\<close>

fun leading_fraction :: "nat \<Rightarrow> nat \<Rightarrow> bytestr \<Rightarrow> nat \<times> nat" where
  "leading_fraction x scale [] = (x, scale)"
| "leading_fraction x scale (c # s) =
     (if x > (2 ^ 63 - 1) div 10 \<or> x * 10 + digit_val c > 2 ^ 63 then (x, scale)
      else leading_fraction (x * 10 + digit_val c) (scale * 10) s)"

text \<open>\<open>uint64(float64(f) * (float64(unit) / scale))\<close>.\<close>

definition fraction_of :: "nat \<Rightarrow> nat \<Rightarrow> nat \<Rightarrow> nat" where
  "fraction_of f scale unit =
     (case (round64 (of_nat f), round64 (of_nat unit / of_nat scale)) of
        (Fin a, Fin b) \<Rightarrow> (case round64 (a * b) of Fin c \<Rightarrow> nat \<lfloor>c\<rfloor> | _ \<Rightarrow> 0)
      | _ \<Rightarrow> 0)"

definition bad_duration :: "bytestr \<Rightarrow> goerr" where
  "bad_duration orig = ErrFmt ''time: invalid duration %q'' [AStr orig]"

text \<open>One number with its unit, in nanoseconds, and what follows it.\<close>

definition not_number :: "char \<Rightarrow> bool" where
  "not_number c \<longleftrightarrow> c \<noteq> CHR ''.'' \<and> \<not> is_digit c"

definition split_number :: "bytestr \<Rightarrow> bytestr \<times> bytestr \<times> bytestr" where
  "split_number s =
     (case dropWhile is_digit s of
        c # t \<Rightarrow>
          if c = CHR ''.'' then (takeWhile is_digit s, takeWhile is_digit t, dropWhile is_digit t)
          else (takeWhile is_digit s, [], c # t)
      | [] \<Rightarrow> (takeWhile is_digit s, [], []))"

definition duration_part :: "bytestr \<Rightarrow> bytestr \<Rightarrow> goerr + nat \<times> bytestr" where
  "duration_part orig s =
     (let (whole, frac, r) = split_number s;
          u = takeWhile not_number r; rest = dropWhile not_number r;
          v = num whole; (f, scale) = leading_fraction 0 1 frac
      in if v > 2 ^ 63 \<or> whole = [] \<and> frac = [] then Inl (bad_duration orig)
         else if u = [] then Inl (ErrFmt ''time: missing unit in duration %q'' [AStr orig])
         else
           (case unit_map u of
              None \<Rightarrow> Inl (ErrFmt ''time: unknown unit %q in duration %q'' [AStr u, AStr orig])
            | Some unit \<Rightarrow>
                if v > 2 ^ 63 div unit then Inl (bad_duration orig)
                else
                  (let n = v * unit + (if f > 0 then fraction_of f scale unit else 0)
                   in if n > 2 ^ 63 then Inl (bad_duration orig) else Inr (n, rest))))"

lemma split_number_shrinks: "split_number s = (a, b, r) \<Longrightarrow> length r \<le> length s"
  by (auto simp: split_number_def split: list.split_asm if_split_asm
      dest: arg_cong [where f = length] intro: order_trans [OF length_dropWhile_le])
    (metis Suc_leD length_Cons length_dropWhile_le order_trans)+

lemma duration_part_shrinks:
  assumes "duration_part orig s = Inr (n, rest)" shows "length rest < length s"
proof -
  obtain a b r where s: "split_number s = (a, b, r)" by (cases "split_number s")
  with assms have u: "takeWhile not_number r \<noteq> []" "rest = dropWhile not_number r"
    by (auto simp: duration_part_def Let_def split: prod.split_asm if_split_asm option.split_asm)
  then have "length rest < length r"
    by (cases r) (auto simp: le_imp_less_Suc length_dropWhile_le split: if_split_asm)
  with split_number_shrinks [OF s] show ?thesis by simp
qed

function duration_parts :: "bytestr \<Rightarrow> nat \<Rightarrow> bytestr \<Rightarrow> goerr + nat" where
  "duration_parts orig d s =
     (if s = [] then Inr d
      else
        (case duration_part orig s of
           Inl e \<Rightarrow> Inl e
         | Inr (n, rest) \<Rightarrow>
             if (d + n) mod 2 ^ 64 > 2 ^ 63 then Inl (bad_duration orig)
             else duration_parts orig ((d + n) mod 2 ^ 64) rest))"
  by pat_completeness auto
termination
  by (relation "measure (\<lambda>(_, _, s). length s)") (auto dest: duration_part_shrinks)

declare duration_parts.simps [simp del]

definition parse_duration :: "bytestr \<Rightarrow> goerr + duration" where
  "parse_duration orig =
     (let (neg, s) = drop_sign orig in
      if s = ''0'' then Inr 0
      else if s = [] then Inl (bad_duration orig)
      else
        (case duration_parts orig 0 s of
           Inl e \<Rightarrow> Inl e
         | Inr d \<Rightarrow>
             if neg then Inr (- int d)
             else if d > 2 ^ 63 - 1 then Inl (bad_duration orig)
             else Inr (int d)))"

section \<open>FlagSet.Parse\<close>

datatype flag_kind = FString | FBool | FInt | FDuration

datatype flag_val = VString bytestr | VBool bool | VInt int | VDuration duration

definition err_help :: goerr where "err_help = ErrNew ''flag: help requested''"

definition bad_value :: "bytestr \<Rightarrow> bytestr \<Rightarrow> bytestr \<Rightarrow> goerr" where
  "bad_value nm value why = ErrFmt ''invalid value %q for flag -%s: %v'' [AStr value, AStr nm, AStr why]"

text \<open>The \<open>Set\<close> method of each kind.\<close>

definition set_value :: "flag_kind \<Rightarrow> bytestr \<Rightarrow> bytestr \<Rightarrow> goerr + flag_val" where
  "set_value k nm value =
     (case k of
        FString \<Rightarrow> Inr (VString value)
      | FBool \<Rightarrow>
          (case parse_bool value of
             Inl _ \<Rightarrow> Inl (ErrFmt ''invalid boolean value %q for -%s: %v''
                               [AStr value, AStr nm, AStr ''parse error''])
           | Inr b \<Rightarrow> Inr (VBool b))
      | FInt \<Rightarrow>
          (case parse_int0 value of
             Inl BadSyntax \<Rightarrow> Inl (bad_value nm value ''parse error'')
           | Inl OutOfRange \<Rightarrow> Inl (bad_value nm value ''value out of range'')
           | Inr i \<Rightarrow> Inr (VInt i))
      | FDuration \<Rightarrow>
          (case parse_duration value of
             Inl _ \<Rightarrow> Inl (bad_value nm value ''parse error'')
           | Inr d \<Rightarrow> Inr (VDuration d)))"

text \<open>
  Parse, up to the first argument that is no flag or a bare double dash. The result has
  the flags that were set, the latest first. A bool flag takes no argument of its own;
  another one takes the next argument when it has no equals sign.
\<close>

definition flag_text :: "bytestr \<Rightarrow> bytestr option" where
  "flag_text s =
     (if length s < 2 \<or> hd s \<noteq> CHR ''-'' then None
      else if hd (tl s) = CHR ''-'' then (if length s = 2 then None else Some (drop 2 s))
      else Some (tl s))"

definition name_value :: "bytestr \<Rightarrow> bytestr \<times> bytestr option" where
  "name_value t = (case cut_at CHR ''='' t of None \<Rightarrow> (t, None) | Some (n, v) \<Rightarrow> (n, Some v))"

type_synonym flag_values = "(bytestr \<times> flag_val) list"

definition add_value :: "flag_kind \<Rightarrow> bytestr \<Rightarrow> bytestr \<Rightarrow> flag_values \<Rightarrow> goerr + flag_values" where
  "add_value k nm value acc = map_sum id (\<lambda>v. (nm, v) # acc) (set_value k nm value)"

text \<open>One argument: \<open>None\<close> ends the parse, otherwise what is left to parse.\<close>

definition take_value ::
  "flag_kind \<Rightarrow> bytestr \<Rightarrow> bytestr option \<Rightarrow> bytestr list \<Rightarrow> goerr + bytestr \<times> bytestr list" where
  "take_value k nm value args =
     (case value of
        Some v \<Rightarrow> Inr (v, args)
      | None \<Rightarrow>
          if k = FBool then Inr (''true'', args)
          else
            (case args of
               [] \<Rightarrow> Inl (ErrFmt ''flag needs an argument: -%s'' [AStr nm])
             | v # args' \<Rightarrow> Inr (v, args')))"

definition parse_one ::
  "(bytestr \<times> flag_kind) list \<Rightarrow> bytestr \<Rightarrow> bytestr list \<Rightarrow> flag_values \<Rightarrow>
   goerr + (bytestr list \<times> flag_values) option" where
  "parse_one defs s args acc =
     (case flag_text s of
        None \<Rightarrow> Inr None
      | Some t \<Rightarrow>
          if t = [] \<or> hd t = CHR ''-'' \<or> hd t = CHR ''=''
          then Inl (ErrFmt ''bad flag syntax: %s'' [AStr s])
          else
            (case name_value t of
               (nm, value) \<Rightarrow>
                 (case map_of defs nm of
                    None \<Rightarrow>
                      if nm = ''help'' \<or> nm = ''h'' then Inl err_help
                      else Inl (ErrFmt ''flag provided but not defined: -%s'' [AStr nm])
                  | Some k \<Rightarrow>
                      (case take_value k nm value args of
                         Inl e \<Rightarrow> Inl e
                       | Inr (v, args') \<Rightarrow>
                           (case add_value k nm v acc of
                              Inl e \<Rightarrow> Inl e
                            | Inr acc' \<Rightarrow> Inr (Some (args', acc')))))))"

lemma take_value_shrinks: "take_value k nm value args = Inr (v, args') \<Longrightarrow> length args' \<le> length args"
  by (auto simp: take_value_def split: option.split_asm if_split_asm list.split_asm)

lemma parse_one_Some:
  assumes "parse_one defs s args acc = Inr (Some (args', acc'))"
  obtains k nm v given where "map_of defs nm = Some k" "take_value k nm given args = Inr (v, args')"
    "add_value k nm v acc = Inr acc'"
proof -
  obtain t where t: "flag_text s = Some t" using assms by (cases "flag_text s") (simp_all add: parse_one_def)
  obtain nm given where nv: "name_value t = (nm, given)" by (cases "name_value t")
  obtain k where k: "map_of defs nm = Some k"
    using assms t nv by (cases "map_of defs nm") (auto simp: parse_one_def split: if_split_asm)
  obtain v a where v: "take_value k nm given args = Inr (v, a)"
    using assms t nv k
    by (cases "take_value k nm given args") (auto simp: parse_one_def split: if_split_asm)
  with assms t nv k have "add_value k nm v acc = Inr acc'" "a = args'"
    by (auto simp: parse_one_def split: if_split_asm sum.split_asm)
  with k v show ?thesis using that by blast
qed

function parse_flags ::
  "(bytestr \<times> flag_kind) list \<Rightarrow> bytestr list \<Rightarrow> flag_values \<Rightarrow> goerr + flag_values" where
  "parse_flags defs [] acc = Inr acc"
| "parse_flags defs (s # args) acc =
     (case parse_one defs s args acc of
        Inl e \<Rightarrow> Inl e
      | Inr None \<Rightarrow> Inr acc
      | Inr (Some (args', acc')) \<Rightarrow> parse_flags defs args' acc')"
  by pat_completeness auto
termination
  by (relation "measure (\<lambda>(_, args, _). length args)")
    (auto elim!: parse_one_Some dest!: take_value_shrinks)

text \<open>Every flag that was set is one that was defined, with a value of its kind.\<close>

primrec kind_of :: "flag_val \<Rightarrow> flag_kind" where
  "kind_of (VString _) = FString"
| "kind_of (VBool _) = FBool"
| "kind_of (VInt _) = FInt"
| "kind_of (VDuration _) = FDuration"

definition well_typed :: "(bytestr \<times> flag_kind) list \<Rightarrow> flag_values \<Rightarrow> bool" where
  "well_typed defs vals \<longleftrightarrow> (\<forall>(nm, v) \<in> set vals. map_of defs nm = Some (kind_of v))"

lemma well_typed_Nil [simp]: "well_typed defs []"
  by (simp add: well_typed_def)

lemma set_value_kind: "set_value k nm value = Inr v \<Longrightarrow> kind_of v = k"
  by (auto simp: set_value_def split: flag_kind.split_asm sum.split_asm num_failure.split_asm)

lemma add_value_typed:
  "add_value k nm value acc = Inr acc' \<Longrightarrow> map_of defs nm = Some k \<Longrightarrow> well_typed defs acc \<Longrightarrow>
   well_typed defs acc'"
  by (cases "set_value k nm value") (auto simp: add_value_def well_typed_def set_value_kind)

lemma parse_flags_typed:
  "parse_flags defs args acc = Inr vals \<Longrightarrow> well_typed defs acc \<Longrightarrow> well_typed defs vals"
proof (induction defs args acc rule: parse_flags.induct)
  case (2 defs s args acc)
  show ?case
  proof (cases "parse_one defs s args acc")
    case (Inr r)
    show ?thesis
    proof (cases r)
      case (Some p)
      obtain args' acc' where p: "p = (args', acc')" by (cases p)
      have "well_typed defs acc'"
        using Inr [unfolded Some p] 2(3) by (elim parse_one_Some) (rule add_value_typed)
      with 2(1) [OF Inr Some p [symmetric]] 2(2) Inr Some p show ?thesis by simp
    qed (use 2 Inr in simp)
  qed (use 2 in simp)
qed simp

lemma well_typed_map_of: "well_typed defs vals \<Longrightarrow> map_of vals nm = Some v \<Longrightarrow> map_of defs nm = Some (kind_of v)"
  by (auto simp: well_typed_def dest: map_of_SomeD)

end
