(* ===== verification/Commands.thy ===== *)
theory Commands
  imports GoFlag Server Configs
begin

text \<open>
  cmd/openshell-driver-ec2 and cmd/openshell-driver-kubevirt: loadConfig, which takes each
  setting from the command line, else from the environment, else from the driver's
  defaults, loads the transport, and validates the result. \<open>getenv\<close> answers the empty
  string for a variable that is not set; \<open>ks\<close> is the order in which Validate ranges over
  its map of fields.
\<close>

section \<open>A setting and where it comes from\<close>

text \<open>The variable of a flag after Parse.\<close>

definition string_var :: "flag_values \<Rightarrow> bytestr \<Rightarrow> bytestr \<Rightarrow> bytestr" where
  "string_var vals nm dflt = (case map_of vals nm of Some (VString s) \<Rightarrow> s | _ \<Rightarrow> dflt)"

definition bool_var :: "flag_values \<Rightarrow> bytestr \<Rightarrow> bool \<Rightarrow> bool" where
  "bool_var vals nm dflt = (case map_of vals nm of Some (VBool b) \<Rightarrow> b | _ \<Rightarrow> dflt)"

definition int_var :: "flag_values \<Rightarrow> bytestr \<Rightarrow> int \<Rightarrow> int" where
  "int_var vals nm dflt = (case map_of vals nm of Some (VInt i) \<Rightarrow> i | _ \<Rightarrow> dflt)"

definition duration_var :: "flag_values \<Rightarrow> bytestr \<Rightarrow> duration \<Rightarrow> duration" where
  "duration_var vals nm dflt = (case map_of vals nm of Some (VDuration d) \<Rightarrow> d | _ \<Rightarrow> dflt)"

text \<open>\<open>set[name]\<close>, from Visit.\<close>

definition is_set :: "flag_values \<Rightarrow> bytestr \<Rightarrow> bool" where
  "is_set vals nm \<longleftrightarrow> map_of vals nm \<noteq> None"

type_synonym environment = "bytestr \<Rightarrow> bytestr"

text \<open>The closures of loadConfig: the new target, and the errors they append.\<close>

definition apply_string :: "flag_values \<Rightarrow> environment \<Rightarrow> bytestr \<Rightarrow> bytestr \<Rightarrow> bytestr \<Rightarrow> bytestr" where
  "apply_string vals getenv nm env target =
     (if \<not> is_set vals nm \<and> getenv env \<noteq> [] then getenv env else target)"

definition apply_duration ::
  "flag_values \<Rightarrow> environment \<Rightarrow> bytestr \<Rightarrow> bytestr \<Rightarrow> duration \<Rightarrow> duration \<times> goerr list" where
  "apply_duration vals getenv nm env target =
     (if is_set vals nm \<or> getenv env = [] then (target, [])
      else
        (case parse_duration (getenv env) of
           Inl e \<Rightarrow> (target, [ErrWrap ''%s=%q is not a duration: %w'' [AStr env, AStr (getenv env)] e])
         | Inr v \<Rightarrow> (v, [])))"

definition apply_int ::
  "flag_values \<Rightarrow> environment \<Rightarrow> bytestr \<Rightarrow> bytestr \<Rightarrow> int \<Rightarrow> int \<times> goerr list" where
  "apply_int vals getenv nm env target =
     (if is_set vals nm \<or> getenv env = [] then (target, [])
      else
        (case atoi (getenv env) of
           None \<Rightarrow> (target, [ErrWrap ''%s=%q is not an integer: %w'' [AStr env, AStr (getenv env)]
                              (ErrFmt ''strconv.Atoi: parsing %q'' [AStr (getenv env)])])
         | Some v \<Rightarrow> (v, [])))"

definition apply_bool ::
  "flag_values \<Rightarrow> environment \<Rightarrow> bytestr \<Rightarrow> bytestr \<Rightarrow> bool \<Rightarrow> bool \<times> goerr list" where
  "apply_bool vals getenv nm env target =
     (if is_set vals nm \<or> getenv env = [] then (target, [])
      else
        (case parse_bool (getenv env) of
           Inl e \<Rightarrow> (target, [ErrWrap ''%s=%q is not a boolean: %w'' [AStr env, AStr (getenv env)] e])
         | Inr v \<Rightarrow> (v, [])))"

text \<open>The files and the libraries the loaders ask.\<close>

record load_lib =
  ld_transport :: transport_lib
  ld_k8s :: k8s_lib
  ld_read_file :: "bytestr \<Rightarrow> goerr + bytestr"
  ld_keys :: "bytestr list"

text \<open>What both commands do with the transport settings.\<close>

definition command_transport ::
  "load_lib \<Rightarrow> flag_values \<Rightarrow> environment \<Rightarrow> bool \<Rightarrow> goerr + transport_config" where
  "command_transport lib vals getenv insecure =
     (case load_transport_config (ld_transport lib) (ld_read_file lib)
             (apply_string vals getenv ''gateway-endpoint'' ''OPENSHELL_GATEWAY_ENDPOINT''
                (string_var vals ''gateway-endpoint'' (t_gateway_endpoint zero_transport)))
             (apply_string vals getenv ''gateway-ca-cert'' ''OPENSHELL_GATEWAY_CA_CERT''
                (string_var vals ''gateway-ca-cert'' []))
             (apply_string vals getenv ''gateway-client-cert'' ''OPENSHELL_GATEWAY_CLIENT_CERT''
                (string_var vals ''gateway-client-cert'' []))
             (apply_string vals getenv ''gateway-client-key'' ''OPENSHELL_GATEWAY_CLIENT_KEY''
                (string_var vals ''gateway-client-key'' []))
             insecure of
        Inl e \<Rightarrow> Inl (ErrWrap ''transport configuration: %w'' [] e)
      | Inr t \<Rightarrow> Inr t)"

definition command_server :: "flag_values \<Rightarrow> environment \<Rightarrow> bytestr \<Rightarrow> transport_config \<Rightarrow> server_options" where
  "command_server vals getenv dflt transport =
     \<lparr>so_socket_path = apply_string vals getenv ''socket'' ''OPENSHELL_DRIVER_SOCKET'' (string_var vals ''socket'' dflt),
      so_bind_address =
        apply_string vals getenv ''bind-address'' ''OPENSHELL_DRIVER_BIND'' (string_var vals ''bind-address'' []),
      so_insecure = t_insecure transport, so_shutdown_timeout = 0, so_max_recv = 0, so_max_rpcs = 0\<rparr>"

text \<open>Go's conversion of an int to an int32.\<close>

definition to_int32 :: "int \<Rightarrow> int" where
  "to_int32 x = sint (word_of_int x :: 32 word)"

section \<open>openshell-driver-ec2\<close>

definition ec2_flags :: "(bytestr \<times> flag_kind) list" where
  "ec2_flags =
     [(''socket'', FString), (''bind-address'', FString), (''ami-id'', FString),
      (''instance-type'', FString), (''subnet-id'', FString), (''security-group-id'', FString),
      (''key-name'', FString), (''gateway-endpoint'', FString), (''gateway-ca-cert'', FString),
      (''gateway-client-cert'', FString), (''gateway-client-key'', FString), (''insecure'', FBool),
      (''gateway-id'', FString), (''region'', FString), (''poll-interval'', FDuration),
      (''spot'', FBool), (''disk-size-gb'', FInt), (''max-instances'', FInt),
      (''max-instance-age'', FDuration)]"

record ec2_app =
  ea_driver :: ec2_config
  ea_server :: server_options

text \<open>From the parsed flags on.\<close>

definition ec2_config_from :: "load_lib \<Rightarrow> flag_values \<Rightarrow> environment \<Rightarrow> goerr + ec2_app" where
  "ec2_config_from lib vals getenv =
     (let defaults = ec2_default_config;
          str = (\<lambda>nm env dflt. apply_string vals getenv nm env (string_var vals nm dflt));
          (insecure, e1) = apply_bool vals getenv ''insecure'' ''OPENSHELL_INSECURE''
                             (bool_var vals ''insecure'' False);
          (poll, e2) = apply_duration vals getenv ''poll-interval'' ''OPENSHELL_EC2_POLL_INTERVAL''
                         (duration_var vals ''poll-interval'' (e_poll_interval defaults));
          (spot, e3) = apply_bool vals getenv ''spot'' ''OPENSHELL_EC2_SPOT''
                         (bool_var vals ''spot'' (e_use_spot defaults));
          (disk, e4) = apply_int vals getenv ''disk-size-gb'' ''OPENSHELL_EC2_DISK_SIZE_GB''
                         (int_var vals ''disk-size-gb'' (e_disk_size_gb defaults));
          (instances, e5) = apply_int vals getenv ''max-instances'' ''OPENSHELL_EC2_MAX_INSTANCES''
                              (int_var vals ''max-instances'' (e_max_instances defaults));
          (age, e6) = apply_duration vals getenv ''max-instance-age'' ''OPENSHELL_EC2_MAX_INSTANCE_AGE''
                        (duration_var vals ''max-instance-age'' (e_max_instance_age defaults))
      in case errors_join (e1 @ e2 @ e3 @ e4 @ e5 @ e6) of
           Some e \<Rightarrow> Inl e
         | None \<Rightarrow>
             (case command_transport lib vals getenv insecure of
                Inl e \<Rightarrow> Inl e
              | Inr transport \<Rightarrow>
                  (let cfg =
                     \<lparr>e_ami_id = str ''ami-id'' ''OPENSHELL_EC2_AMI_ID'' (e_ami_id defaults),
                      e_default_instance =
                        str ''instance-type'' ''OPENSHELL_EC2_INSTANCE_TYPE'' (e_default_instance defaults),
                      e_subnet_id = str ''subnet-id'' ''OPENSHELL_EC2_SUBNET_ID'' (e_subnet_id defaults),
                      e_security_group_id =
                        str ''security-group-id'' ''OPENSHELL_EC2_SECURITY_GROUP_ID''
                          (e_security_group_id defaults),
                      e_key_name = str ''key-name'' ''OPENSHELL_EC2_KEY_NAME'' (e_key_name defaults),
                      e_transport = transport,
                      e_gateway_id = str ''gateway-id'' ''OPENSHELL_GATEWAY_ID'' (e_gateway_id defaults),
                      e_region = str ''region'' ''AWS_REGION'' (e_region defaults),
                      e_poll_interval = poll, e_use_spot = spot, e_disk_size_gb = to_int32 disk,
                      e_max_instances = instances, e_max_instance_age = age\<rparr>
                   in case ec2_validate_config (ld_transport lib) (ld_keys lib) cfg of
                        Some e \<Rightarrow> Inl e
                      | None \<Rightarrow>
                          Inr \<lparr>ea_driver = cfg,
                               ea_server = command_server vals getenv ''/run/openshell/ec2.sock'' transport\<rparr>)))"

definition ec2_load_config :: "load_lib \<Rightarrow> bytestr list \<Rightarrow> environment \<Rightarrow> goerr + ec2_app" where
  "ec2_load_config lib args getenv =
     (case parse_flags ec2_flags args [] of
        Inl e \<Rightarrow> Inl e
      | Inr vals \<Rightarrow> ec2_config_from lib vals getenv)"

section \<open>openshell-driver-kubevirt\<close>

definition kv_flags :: "(bytestr \<times> flag_kind) list" where
  "kv_flags =
     [(''socket'', FString), (''bind-address'', FString), (''namespace'', FString),
      (''boot-source'', FString), (''boot-source-namespace'', FString),
      (''default-instancetype'', FString), (''default-preference'', FString),
      (''storage-class'', FString), (''gateway-endpoint'', FString), (''gateway-ca-cert'', FString),
      (''gateway-client-cert'', FString), (''gateway-client-key'', FString), (''insecure'', FBool),
      (''gateway-id'', FString), (''disk-size'', FString), (''poll-interval'', FDuration),
      (''max-instances'', FInt), (''max-instance-age'', FDuration), (''storage-label'', FString),
      (''storage-annotation'', FString), (''kubeconfig'', FString)]"

record kv_app =
  ka_driver :: kv_config
  ka_server :: server_options
  ka_kubeconfig :: bytestr

text \<open>A key=value flag: no entry when it is empty, an error without an equals sign.\<close>

definition key_value :: "bytestr \<Rightarrow> bytestr \<Rightarrow> goerr + (bytestr \<times> bytestr) list" where
  "key_value msg s =
     (if s = [] then Inr []
      else
        (case cut_at CHR ''='' s of
           Some (k, v) \<Rightarrow> Inr (AList.update k v [])
         | None \<Rightarrow> Inl (ErrFmt msg [AStr s])))"

text \<open>From the parsed flags on.\<close>

definition kv_config_from :: "load_lib \<Rightarrow> flag_values \<Rightarrow> environment \<Rightarrow> goerr + kv_app" where
  "kv_config_from lib vals getenv =
     (let defaults = kv_default_config;
          str = (\<lambda>nm env dflt. apply_string vals getenv nm env (string_var vals nm dflt));
          (insecure, e1) = apply_bool vals getenv ''insecure'' ''OPENSHELL_INSECURE''
                             (bool_var vals ''insecure'' False);
          (poll, e2) = apply_duration vals getenv ''poll-interval'' ''OPENSHELL_KUBEVIRT_POLL_INTERVAL''
                         (duration_var vals ''poll-interval'' (k_poll_interval defaults));
          (instances, e3) = apply_int vals getenv ''max-instances'' ''OPENSHELL_KUBEVIRT_MAX_INSTANCES''
                              (int_var vals ''max-instances'' (k_max_instances defaults));
          (age, e4) = apply_duration vals getenv ''max-instance-age'' ''OPENSHELL_KUBEVIRT_MAX_INSTANCE_AGE''
                        (duration_var vals ''max-instance-age'' (k_max_instance_age defaults))
      in case errors_join (e1 @ e2 @ e3 @ e4) of
           Some e \<Rightarrow> Inl e
         | None \<Rightarrow>
             (case command_transport lib vals getenv insecure of
                Inl e \<Rightarrow> Inl e
              | Inr transport \<Rightarrow>
                  (case key_value ''--storage-label must be key=value, got %q''
                          (string_var vals ''storage-label'' []) of
                     Inl e \<Rightarrow> Inl e
                   | Inr labels \<Rightarrow>
                       (case key_value ''--storage-annotation must be key=value, got %q''
                               (string_var vals ''storage-annotation'' []) of
                          Inl e \<Rightarrow> Inl e
                        | Inr anns \<Rightarrow>
                            (let cfg =
                               \<lparr>k_namespace = str ''namespace'' ''OPENSHELL_KUBEVIRT_NAMESPACE'' (k_namespace defaults),
                                k_boot_source =
                                  str ''boot-source'' ''OPENSHELL_KUBEVIRT_BOOT_SOURCE'' (k_boot_source defaults),
                                k_boot_source_namespace =
                                  str ''boot-source-namespace'' ''OPENSHELL_KUBEVIRT_BOOT_SOURCE_NAMESPACE''
                                    (k_boot_source_namespace defaults),
                                k_default_instance_type =
                                  str ''default-instancetype'' ''OPENSHELL_KUBEVIRT_DEFAULT_INSTANCETYPE''
                                    (k_default_instance_type defaults),
                                k_default_preference =
                                  str ''default-preference'' ''OPENSHELL_KUBEVIRT_DEFAULT_PREFERENCE''
                                    (k_default_preference defaults),
                                k_storage_class =
                                  str ''storage-class'' ''OPENSHELL_KUBEVIRT_STORAGE_CLASS'' (k_storage_class defaults),
                                k_storage_labels = labels, k_storage_annotations = anns,
                                k_transport = transport,
                                k_gateway_id = str ''gateway-id'' ''OPENSHELL_GATEWAY_ID'' (k_gateway_id defaults),
                                k_disk_size = str ''disk-size'' ''OPENSHELL_KUBEVIRT_DISK_SIZE'' (k_disk_size defaults),
                                k_poll_interval = poll, k_max_instances = instances, k_max_instance_age = age\<rparr>
                             in case kv_validate_config (ld_transport lib) (ld_k8s lib) (ld_keys lib) cfg of
                                  Some e \<Rightarrow> Inl e
                                | None \<Rightarrow>
                                    Inr \<lparr>ka_driver = cfg,
                                         ka_server = command_server vals getenv ''/run/openshell/kubevirt.sock'' transport,
                                         ka_kubeconfig = str ''kubeconfig'' ''KUBECONFIG'' []\<rparr>)))))"

definition kv_load_config :: "load_lib \<Rightarrow> bytestr list \<Rightarrow> environment \<Rightarrow> goerr + kv_app" where
  "kv_load_config lib args getenv =
     (case parse_flags kv_flags args [] of
        Inl e \<Rightarrow> Inl e
      | Inr vals \<Rightarrow> kv_config_from lib vals getenv)"

end
