(* ===== verification/CommandTheorems.thy ===== *)
theory CommandTheorems
  imports Commands LibraryTheorems
begin

text \<open>
  What the command lines promise: a configuration that loads is valid, plaintext transport
  is only ever asked for explicitly, a flag wins over the environment, and the key=value
  flags keep what they were given. One theorem shows a defect: the disk size is cut to 32
  bits before it is checked.
\<close>

section \<open>Settings\<close>

text \<open>The flag says true, or it is not set and the variable does.\<close>

definition explicit_true :: "flag_values \<Rightarrow> environment \<Rightarrow> bytestr \<Rightarrow> bytestr \<Rightarrow> bool" where
  "explicit_true vals getenv nm env \<longleftrightarrow>
     map_of vals nm = Some (VBool True) \<or> map_of vals nm = None \<and> parse_bool (getenv env) = Inr True"

lemma apply_bool_explicit:
  "apply_bool vals getenv nm env (bool_var vals nm False) = (True, e) \<Longrightarrow> explicit_true vals getenv nm env"
  by (auto simp: apply_bool_def bool_var_def explicit_true_def is_set_def
      split: if_split_asm option.split_asm sum.split_asm flag_val.split_asm)

text \<open>Two environments that agree on every variable whose flag is not set.\<close>

definition agree :: "flag_values \<Rightarrow> (bytestr \<times> bytestr) list \<Rightarrow> environment \<Rightarrow> environment \<Rightarrow> bool" where
  "agree vals table g g' \<longleftrightarrow> list_all (\<lambda>(nm, env). is_set vals nm \<or> g env = g' env) table"

lemma apply_agree:
  assumes "is_set vals nm \<or> g env = g' env"
  shows "apply_string vals g nm env = apply_string vals g' nm env"
    "apply_bool vals g nm env = apply_bool vals g' nm env"
    "apply_int vals g nm env = apply_int vals g' nm env"
    "apply_duration vals g nm env = apply_duration vals g' nm env"
  using assms
  by (auto simp: apply_string_def apply_bool_def apply_int_def apply_duration_def intro!: ext split: sum.split option.split)

definition transport_env :: "(bytestr \<times> bytestr) list" where
  "transport_env =
     [(''socket'', ''OPENSHELL_DRIVER_SOCKET''), (''bind-address'', ''OPENSHELL_DRIVER_BIND''),
      (''gateway-endpoint'', ''OPENSHELL_GATEWAY_ENDPOINT''),
      (''gateway-ca-cert'', ''OPENSHELL_GATEWAY_CA_CERT''),
      (''gateway-client-cert'', ''OPENSHELL_GATEWAY_CLIENT_CERT''),
      (''gateway-client-key'', ''OPENSHELL_GATEWAY_CLIENT_KEY''),
      (''insecure'', ''OPENSHELL_INSECURE''), (''gateway-id'', ''OPENSHELL_GATEWAY_ID'')]"

definition ec2_env_table :: "(bytestr \<times> bytestr) list" where
  "ec2_env_table = transport_env @
     [(''ami-id'', ''OPENSHELL_EC2_AMI_ID''), (''instance-type'', ''OPENSHELL_EC2_INSTANCE_TYPE''),
      (''subnet-id'', ''OPENSHELL_EC2_SUBNET_ID''),
      (''security-group-id'', ''OPENSHELL_EC2_SECURITY_GROUP_ID''),
      (''key-name'', ''OPENSHELL_EC2_KEY_NAME''), (''region'', ''AWS_REGION''),
      (''poll-interval'', ''OPENSHELL_EC2_POLL_INTERVAL''), (''spot'', ''OPENSHELL_EC2_SPOT''),
      (''disk-size-gb'', ''OPENSHELL_EC2_DISK_SIZE_GB''),
      (''max-instances'', ''OPENSHELL_EC2_MAX_INSTANCES''),
      (''max-instance-age'', ''OPENSHELL_EC2_MAX_INSTANCE_AGE'')]"

definition kv_env_table :: "(bytestr \<times> bytestr) list" where
  "kv_env_table = transport_env @
     [(''namespace'', ''OPENSHELL_KUBEVIRT_NAMESPACE''),
      (''boot-source'', ''OPENSHELL_KUBEVIRT_BOOT_SOURCE''),
      (''boot-source-namespace'', ''OPENSHELL_KUBEVIRT_BOOT_SOURCE_NAMESPACE''),
      (''default-instancetype'', ''OPENSHELL_KUBEVIRT_DEFAULT_INSTANCETYPE''),
      (''default-preference'', ''OPENSHELL_KUBEVIRT_DEFAULT_PREFERENCE''),
      (''storage-class'', ''OPENSHELL_KUBEVIRT_STORAGE_CLASS''),
      (''disk-size'', ''OPENSHELL_KUBEVIRT_DISK_SIZE''), (''kubeconfig'', ''KUBECONFIG''),
      (''poll-interval'', ''OPENSHELL_KUBEVIRT_POLL_INTERVAL''),
      (''max-instances'', ''OPENSHELL_KUBEVIRT_MAX_INSTANCES''),
      (''max-instance-age'', ''OPENSHELL_KUBEVIRT_MAX_INSTANCE_AGE'')]"

lemma ec2_config_agree:
  assumes "agree vals ec2_env_table g g'"
  shows "ec2_config_from lib vals g = ec2_config_from lib vals g'"
proof -
  note eq = apply_agree [of vals _ g _ g']
  show ?thesis
    using assms unfolding agree_def ec2_env_table_def transport_env_def list.pred_inject append.simps prod.case
    by (simp only: ec2_config_from_def command_transport_def command_server_def Let_def eq
        cong del: sum.case_cong_weak option.case_cong_weak prod.case_cong_weak)
qed

lemma kv_config_agree:
  assumes "agree vals kv_env_table g g'"
  shows "kv_config_from lib vals g = kv_config_from lib vals g'"
proof -
  note eq = apply_agree [of vals _ g _ g']
  show ?thesis
    using assms unfolding agree_def kv_env_table_def transport_env_def list.pred_inject append.simps prod.case
    by (simp only: kv_config_from_def command_transport_def command_server_def Let_def eq
        cong del: sum.case_cong_weak option.case_cong_weak prod.case_cong_weak)
qed

section \<open>What a loaded configuration is\<close>

lemma command_transport_ok:
  assumes "command_transport lib vals getenv insecure = Inr t"
  shows "validate_transport (ld_transport lib) t = None \<and> t_insecure t = insecure"
  using assms load_transport_valid
  by (auto simp: command_transport_def split: sum.split_asm)

lemma ec2_config_from_ok:
  assumes "ec2_config_from lib vals getenv = Inr app"
  shows "ec2_validate_config (ld_transport lib) (ld_keys lib) (ea_driver app) = None \<and>
    so_insecure (ea_server app) = t_insecure (e_transport (ea_driver app)) \<and>
    (t_insecure (e_transport (ea_driver app)) \<longrightarrow>
       explicit_true vals getenv ''insecure'' ''OPENSHELL_INSECURE'')"
proof -
  obtain ins e1 where i: "apply_bool vals getenv ''insecure'' ''OPENSHELL_INSECURE''
      (bool_var vals ''insecure'' False) = (ins, e1)" by fastforce
  then obtain t where t: "command_transport lib vals getenv ins = Inr t"
      "ec2_validate_config (ld_transport lib) (ld_keys lib) (ea_driver app) = None"
      "e_transport (ea_driver app) = t" "so_insecure (ea_server app) = t_insecure t"
    using assms unfolding ec2_config_from_def command_server_def
    by (auto simp: Let_def split: prod.split_asm option.split_asm sum.split_asm)
  have "ins \<Longrightarrow> explicit_true vals getenv ''insecure'' ''OPENSHELL_INSECURE''"
    using i by (auto intro: apply_bool_explicit)
  with t command_transport_ok [OF t(1)] show ?thesis by auto
qed

lemma kv_config_from_ok:
  assumes "kv_config_from lib vals getenv = Inr app"
  shows "kv_validate_config (ld_transport lib) (ld_k8s lib) (ld_keys lib) (ka_driver app) = None \<and>
    so_insecure (ka_server app) = t_insecure (k_transport (ka_driver app)) \<and>
    (t_insecure (k_transport (ka_driver app)) \<longrightarrow>
       explicit_true vals getenv ''insecure'' ''OPENSHELL_INSECURE'')"
proof -
  obtain ins e1 where i: "apply_bool vals getenv ''insecure'' ''OPENSHELL_INSECURE''
      (bool_var vals ''insecure'' False) = (ins, e1)" by fastforce
  then obtain t where t: "command_transport lib vals getenv ins = Inr t"
      "kv_validate_config (ld_transport lib) (ld_k8s lib) (ld_keys lib) (ka_driver app) = None"
      "k_transport (ka_driver app) = t" "so_insecure (ka_server app) = t_insecure t"
    using assms unfolding kv_config_from_def command_server_def
    by (auto simp: Let_def split: prod.split_asm option.split_asm sum.split_asm)
  have "ins \<Longrightarrow> explicit_true vals getenv ''insecure'' ''OPENSHELL_INSECURE''"
    using i by (auto intro: apply_bool_explicit)
  with t command_transport_ok [OF t(1)] show ?thesis by auto
qed

text \<open>The map entry a key=value flag gives.\<close>

definition flag_entry :: "bytestr \<Rightarrow> (bytestr \<times> bytestr) list \<Rightarrow> bool" where
  "flag_entry s m \<longleftrightarrow>
     (if s = [] then m = [] else \<exists>k v. s = k @ CHR ''='' # v \<and> CHR ''='' \<notin> set k \<and> m = [(k, v)])"

lemma key_value_entry: "key_value msg s = Inr m \<Longrightarrow> flag_entry s m"
  by (auto simp: key_value_def flag_entry_def cut_at_Some split: if_split_asm option.split_asm)

lemma kv_config_from_entries:
  assumes "kv_config_from lib vals getenv = Inr app"
  shows "flag_entry (string_var vals ''storage-label'' []) (k_storage_labels (ka_driver app)) \<and>
    flag_entry (string_var vals ''storage-annotation'' []) (k_storage_annotations (ka_driver app))"
  using assms unfolding kv_config_from_def command_server_def
  by (auto simp: Let_def intro: key_value_entry split: prod.split_asm option.split_asm sum.split_asm)

lemma to_int32_eq: "to_int32 x = (x + 2 ^ 31) mod 2 ^ 32 - 2 ^ 31"
  using int_word_sint [where 'a = 32 and x = x] by (simp add: to_int32_def)

lemma to_int32_wraps: "to_int32 (i + 2 ^ 32) = to_int32 i"
proof -
  have "i + 2 ^ 32 + 2 ^ 31 = (i + 2 ^ 31) + 2 ^ 32" by simp
  then show ?thesis by (simp only: to_int32_eq mod_add_self2)
qed

lemma to_int32_small: "0 \<le> i \<Longrightarrow> i < 2 ^ 31 \<Longrightarrow> to_int32 i = i"
  by (simp add: to_int32_eq)

section \<open>Properties\<close>

text \<open>
  C20: A configuration that openshell-driver-ec2 loads passes Validate, so its sizes and
  times are within bounds, and its server knows whether the gateway transport is plaintext;
  it is so only when the command line says it or, with the flag not set, the environment.
\<close>

theorem ec2_command_config_safe:
  assumes "ec2_load_config lib args getenv = Inr app"
    and "set (ld_keys lib) = fst ` set (ec2_config_fields (ea_driver app))"
  shows "validate_transport (ld_transport lib) (e_transport (ea_driver app)) = None \<and>
    in_range 0 16384 (e_disk_size_gb (ea_driver app)) \<and>
    in_range 0 1000 (e_max_instances (ea_driver app)) \<and>
    in_range 0 hour (e_poll_interval (ea_driver app)) \<and>
    in_range 0 (30 * 24 * hour) (e_max_instance_age (ea_driver app)) \<and>
    so_insecure (ea_server app) = t_insecure (e_transport (ea_driver app)) \<and>
    (\<exists>vals. parse_flags ec2_flags args [] = Inr vals \<and>
       (t_insecure (e_transport (ea_driver app)) \<longrightarrow>
          explicit_true vals getenv ''insecure'' ''OPENSHELL_INSECURE''))"
proof -
  obtain vals where vals: "parse_flags ec2_flags args [] = Inr vals"
      and from_vals: "ec2_config_from lib vals getenv = Inr app"
    using assms(1) by (auto simp: ec2_load_config_def split: sum.split_asm)
  note ok = ec2_config_from_ok [OF from_vals]
  then show ?thesis
    using vals ec2_validate_config_core [OF assms(2), of "ld_transport lib"] by simp
qed

text \<open>The same for openshell-driver-kubevirt; and the storage label and annotation keep
  the key and the value of their flags, split at the first equals sign.
\<close>

theorem kv_command_config_safe:
  assumes "kv_load_config lib args getenv = Inr app"
    and "set (ld_keys lib) = fst ` set (kv_config_fields (ka_driver app))"
  shows "validate_transport (ld_transport lib) (k_transport (ka_driver app)) = None \<and>
    k_storage_class (ka_driver app) \<noteq> [] \<and>
    in_range 0 1000 (k_max_instances (ka_driver app)) \<and>
    in_range 0 (30 * 24 * hour) (k_max_instance_age (ka_driver app)) \<and>
    so_insecure (ka_server app) = t_insecure (k_transport (ka_driver app)) \<and>
    (\<exists>vals. parse_flags kv_flags args [] = Inr vals \<and>
       (t_insecure (k_transport (ka_driver app)) \<longrightarrow>
          explicit_true vals getenv ''insecure'' ''OPENSHELL_INSECURE'') \<and>
       flag_entry (string_var vals ''storage-label'' []) (k_storage_labels (ka_driver app)) \<and>
       flag_entry (string_var vals ''storage-annotation'' []) (k_storage_annotations (ka_driver app)))"
proof -
  obtain vals where vals: "parse_flags kv_flags args [] = Inr vals"
      and from_vals: "kv_config_from lib vals getenv = Inr app"
    using assms(1) by (auto simp: kv_load_config_def split: sum.split_asm)
  note ok = kv_config_from_ok [OF from_vals] kv_config_from_entries [OF from_vals]
  then show ?thesis
    using vals kv_validate_config_core [OF assms(2), of "ld_transport lib" "ld_k8s lib"] by simp
qed

text \<open>
  C37: A flag on the command line wins over the environment, whatever the variable holds,
  malformed text included: two environments that agree where no flag is set load the same
  configuration or fail with the same error.
\<close>

theorem flags_override_environment:
  assumes "parse_flags ec2_flags args [] = Inr vals" and "agree vals ec2_env_table g g'"
    and "parse_flags kv_flags kargs [] = Inr kvals" and "agree kvals kv_env_table h h'"
  shows "ec2_load_config lib args g = ec2_load_config lib args g' \<and>
    kv_load_config lib kargs h = kv_load_config lib kargs h'"
  using assms by (simp add: ec2_load_config_def kv_load_config_def ec2_config_agree [of vals g g']
      kv_config_agree [of kvals h h'])

text \<open>C40: The disk size of the EC2 command is cut to 32 bits before Validate sees it: asking
  for 2^32 GB more is the same as asking for the rest, and is accepted whenever that is.
\<close>

theorem ec2_disk_size_wraps:
  "ec2_config_from lib ((''disk-size-gb'', VInt (i + 2 ^ 32)) # vals) getenv =
   ec2_config_from lib ((''disk-size-gb'', VInt i) # vals) getenv"
proof -
  let ?a = "(''disk-size-gb'', VInt (i + 2 ^ 32)) # vals" and ?b = "(''disk-size-gb'', VInt i) # vals"
  have set: "is_set ?a = is_set ?b"
    by (intro ext) (simp add: is_set_def)
  have vars: "string_var ?a = string_var ?b" "bool_var ?a = bool_var ?b" "duration_var ?a = duration_var ?b"
    by (intro ext; simp add: string_var_def bool_var_def duration_var_def)+
  have ints: "int_var ?a ''max-instances'' = int_var ?b ''max-instances''"
    by (intro ext) (simp add: int_var_def)
  have closures: "apply_string ?a = apply_string ?b" "apply_bool ?a = apply_bool ?b"
      "apply_duration ?a = apply_duration ?b" "apply_int ?a = apply_int ?b"
    unfolding apply_string_def apply_bool_def apply_duration_def apply_int_def set by (rule refl)+
  have disk: "apply_int ?b getenv ''disk-size-gb'' env t = (t, [])"
      "int_var ?a ''disk-size-gb'' dflt = i + 2 ^ 32" "int_var ?b ''disk-size-gb'' dflt = i" for env t dflt
    by (simp_all add: apply_int_def is_set_def int_var_def)
  show ?thesis
    unfolding ec2_config_from_def command_transport_def command_server_def closures vars ints disk Let_def
      prod.case to_int32_wraps ..
qed

text \<open>Sample command lines: everything from the environment.\<close>

definition ec2_sample_env :: environment where
  "ec2_sample_env =
     (\<lambda>_. [])(''OPENSHELL_EC2_AMI_ID'' := ''ami-0a'', ''OPENSHELL_EC2_SUBNET_ID'' := ''subnet-0b'',
       ''OPENSHELL_EC2_SECURITY_GROUP_ID'' := ''sg-0c'', ''OPENSHELL_GATEWAY_ID'' := ''gw1'',
       ''OPENSHELL_GATEWAY_ENDPOINT'' := ''http://gw:8080'', ''OPENSHELL_INSECURE'' := ''true'')"

definition kv_sample_env :: environment where
  "kv_sample_env =
     (\<lambda>_. [])(''OPENSHELL_KUBEVIRT_STORAGE_CLASS'' := ''fast'', ''OPENSHELL_GATEWAY_ID'' := ''gw1'',
       ''OPENSHELL_GATEWAY_ENDPOINT'' := ''http://gw:8080'', ''OPENSHELL_INSECURE'' := ''true'')"

definition ec2_sample_lib :: load_lib where
  "ec2_sample_lib = \<lparr>ld_transport = plain_lib, ld_k8s = sample_k8s, ld_read_file = \<lambda>_. Inl ErrCanceled,
     ld_keys = ec2_config_keys\<rparr>"

definition kv_sample_lib :: load_lib where
  "kv_sample_lib = ec2_sample_lib\<lparr>ld_keys := kv_config_keys\<rparr>"

lemma sample_apply [simp]:
  "apply_string [] getenv nm env t = (if getenv env \<noteq> [] then getenv env else t)"
  "getenv env = [] \<Longrightarrow> apply_int [] getenv nm env n = (n, [])"
  "getenv env = [] \<Longrightarrow> apply_duration [] getenv nm env d = (d, [])"
  "getenv env = [] \<Longrightarrow> apply_bool [] getenv nm env b = (b, [])"
  "getenv env = ''true'' \<Longrightarrow> apply_bool [] getenv nm env b = (True, [])"
  by (simp_all add: apply_string_def apply_int_def apply_duration_def apply_bool_def is_set_def parse_bool_def)

lemma plain_loads:
  "ld_transport lib = plain_lib \<Longrightarrow> getenv ''OPENSHELL_GATEWAY_ENDPOINT'' = ''http://gw:8080'' \<Longrightarrow>
   command_transport lib [] getenv True = Inr plain_transport"
  using plain_valid
  by (simp add: command_transport_def load_transport_config_def plain_transport_def)

lemma ec2_sample_valid: "ec2_validate_config plain_lib ec2_config_keys ec2_sample_config = None"
proof -
  have "id_pattern ''ami-'' ''ami-0a''" "id_pattern ''subnet-'' ''subnet-0b''" "id_pattern ''sg-'' ''sg-0c''"
    "instance_pattern ''c7i.4xlarge''" "region_pattern ''us-east-1''"
    "\<not> line_break ''gw1''" "\<not> line_break ''us-east-1''" "\<not> line_break []" by code_simp+
  then show ?thesis
    unfolding ec2_validate_config_core [OF ec2_config_keys]
    by (simp add: ec2_sample_config_def ec2_default_config_def plain_valid in_range_def hour_def
        minute_def second_def)
qed

lemma kv_sample_valid: "kv_validate_config plain_lib sample_k8s kv_config_keys kv_sample_config = None"
proof -
  have "\<forall>s \<in> {''openshell'', ''fedora'', ''openshift-virtualization-os-images'', ''cx1.4xlarge'', [],
      ''fast'', ''gw1'', ''100Gi''}. \<not> line_break s" by code_simp
  then show ?thesis
    unfolding kv_validate_config_core [OF kv_config_keys]
    by (simp add: kv_sample_config_def kv_default_config_def kv_config_fields_def sample_k8s_def plain_valid
        in_range_def hour_def minute_def second_def gib_def tib_def)
qed

lemmas sample_env_at = fun_cong [OF ec2_sample_env_def] fun_cong [OF kv_sample_env_def]

lemma sample_libs [simp]:
  "ld_transport ec2_sample_lib = plain_lib" "ld_keys ec2_sample_lib = ec2_config_keys"
  "ld_transport kv_sample_lib = plain_lib" "ld_keys kv_sample_lib = kv_config_keys"
  "ld_k8s kv_sample_lib = sample_k8s"
  by (simp_all add: ec2_sample_lib_def kv_sample_lib_def)

lemma no_values [simp]:
  "string_var [] nm s = s" "bool_var [] nm b = b" "int_var [] nm i = i" "duration_var [] nm d = d"
  by (simp_all add: string_var_def bool_var_def int_var_def duration_var_def)

lemma ec2_sample_loads:
  "\<exists>app. ec2_load_config ec2_sample_lib [] ec2_sample_env = Inr app \<and> ea_driver app = ec2_sample_config"
proof -
  have t: "command_transport ec2_sample_lib [] ec2_sample_env True = Inr plain_transport"
    by (rule plain_loads) (simp_all add: sample_env_at)
  show ?thesis
    using t ec2_sample_valid
    by (simp add: ec2_load_config_def ec2_config_from_def sample_env_at to_int32_small Let_def errors_join_def ec2_sample_config_def
        ec2_default_config_def)
qed

lemma kv_sample_loads:
  "\<exists>app. kv_load_config kv_sample_lib [] kv_sample_env = Inr app \<and> ka_driver app = kv_sample_config"
proof -
  have t: "command_transport kv_sample_lib [] kv_sample_env True = Inr plain_transport"
    by (rule plain_loads) (simp_all add: sample_env_at)
  show ?thesis
    using t kv_sample_valid
    by (simp add: kv_load_config_def kv_config_from_def sample_env_at key_value_def Let_def errors_join_def kv_sample_config_def
        kv_default_config_def)
qed

theorem ec2_command_config_safe_witness:
  "\<exists>app. ec2_load_config ec2_sample_lib [] ec2_sample_env = Inr app \<and>
     in_range 0 16384 (e_disk_size_gb (ea_driver app))"
proof -
  obtain app where a: "ec2_load_config ec2_sample_lib [] ec2_sample_env = Inr app"
      "ea_driver app = ec2_sample_config"
    using ec2_sample_loads by blast
  have "set (ld_keys ec2_sample_lib) = fst ` set (ec2_config_fields (ea_driver app))"
    by (simp add: ec2_config_keys)
  with ec2_command_config_safe [OF a(1)] a(1) show ?thesis by blast
qed

theorem kv_command_config_safe_witness:
  "\<exists>app. kv_load_config kv_sample_lib [] kv_sample_env = Inr app \<and>
     k_storage_class (ka_driver app) \<noteq> [] \<and> k_storage_labels (ka_driver app) = []"
proof -
  obtain app where a: "kv_load_config kv_sample_lib [] kv_sample_env = Inr app"
      "ka_driver app = kv_sample_config"
    using kv_sample_loads by blast
  have "set (ld_keys kv_sample_lib) = fst ` set (kv_config_fields (ka_driver app))"
    by (simp add: kv_config_keys)
  with kv_command_config_safe [OF a(1)] a show ?thesis
    by (auto simp: kv_sample_config_def kv_default_config_def)
qed

theorem flags_override_environment_witness:
  "ec2_load_config ec2_sample_lib [''-spot''] (ec2_sample_env(''OPENSHELL_EC2_SPOT'' := ''maybe'')) =
   ec2_load_config ec2_sample_lib [''-spot''] ec2_sample_env"
proof -
  have p: "parse_flags ec2_flags [''-spot''] [] = Inr [(''spot'', VBool True)]"
    by (simp add: parse_one_def flag_text_def name_value_def cut_at_def ec2_flags_def take_value_def
        add_value_def set_value_def parse_bool_def)
  have a: "agree [(''spot'', VBool True)] ec2_env_table (ec2_sample_env(''OPENSHELL_EC2_SPOT'' := ''maybe''))
      ec2_sample_env"
    by (simp add: agree_def ec2_env_table_def transport_env_def is_set_def)
  have k: "agree [] kv_env_table kv_sample_env kv_sample_env"
    by (simp add: agree_def list_all_iff)
  show ?thesis
    by (rule flags_override_environment [OF p a parse_flags.simps(1) k, THEN conjunct1])
qed

end
