(* ===== verification/Programs.thy ===== *)
theory Programs
  imports ServerTheorems CommandTheorems
begin

text \<open>
  The two programs as they are put together: the drivers on their adapters, and \<open>main\<close>,
  from the command line to the exit code. The clients of the cloud and of the cluster,
  and loading their credentials, are arguments. A listing that has not ended after the
  given number of pages answers a deadline error, as it does in the code once its context
  ends.
\<close>

section \<open>The drivers on their adapters\<close>

definition aws_listing :: "'w ec2_api \<Rightarrow> nat \<Rightarrow> instance_filter \<Rightarrow> 'w \<Rightarrow> (goerr + ec2_inst list) \<times> 'w" where
  "aws_listing api pages f w =
     (case aws_list api pages f w of None \<Rightarrow> (Inl ErrDeadlineExceeded, w) | Some r \<Rightarrow> r)"

definition ec2_on_aws :: "'w ec2_api \<Rightarrow> nat \<Rightarrow> 'w ec2_env \<Rightarrow> 'w ec2_env" where
  "ec2_on_aws api pages env =
     env\<lparr>ee_launch := aws_launch api,
         ee_list := aws_listing api pages,
         ee_stop := aws_stop api, ee_terminate := aws_terminate api\<rparr>"

definition kv_on_kube :: "'w kube_api \<Rightarrow> k8s_lib \<Rightarrow> nat \<Rightarrow> 'w kv_env \<Rightarrow> 'w kv_env" where
  "kv_on_kube api klib pages env =
     env\<lparr>ke_check_ready := kube_check_ready api (ke_config env),
         ke_launch := kube_launch api klib (ke_config env),
         ke_list := kube_listing api pages,
         ke_stop := kube_stop api, ke_terminate := kube_terminate api\<rparr>"

text \<open>NewKubeAPIProvider: the core client, then the dynamic one.\<close>

definition new_kube_api_provider ::
  "('c \<Rightarrow> goerr option) \<Rightarrow> ('c \<Rightarrow> goerr + 'w kube_api) \<Rightarrow> 'c option \<Rightarrow> goerr + 'w kube_api" where
  "new_kube_api_provider core dynamic rest =
     (case rest of
        None \<Rightarrow> Inl (ErrNew ''kubernetes REST config is required'')
      | Some c \<Rightarrow>
          (case core c of
             Some e \<Rightarrow> Inl (ErrWrap ''construct Kubernetes client: %w'' [] e)
           | None \<Rightarrow>
               (case dynamic c of
                  Inl e \<Rightarrow> Inl (ErrWrap ''construct dynamic Kubernetes client: %w'' [] e)
                | Inr api \<Rightarrow> Inr api)))"

section \<open>main\<close>

text \<open>What main gets from outside: libraries, clients, the runtime, the grpc server.\<close>

record 'w ec2_program =
  ep_load :: load_lib
  ep_aws_config :: "bytestr \<Rightarrow> goerr + 'w ec2_api"
  ep_pages :: nat
  ep_env :: "'w ec2_env"
  ep_keys :: "bytestr list"
  ep_server :: "'w sys server_env"

record ('c, 'w) kv_program =
  kp_load :: load_lib
  kp_rest_config :: "bytestr option \<Rightarrow> goerr + 'c"
  kp_core :: "'c \<Rightarrow> goerr option"
  kp_dynamic :: "'c \<Rightarrow> goerr + 'w kube_api"
  kp_pages :: nat
  kp_env :: "'w kv_env"
  kp_keys :: "bytestr list"
  kp_server :: "'w sys server_env"

definition version_asked :: "bytestr list \<Rightarrow> bool" where
  "version_asked os_args \<longleftrightarrow> length os_args = 2 \<and> os_args ! 1 = ''--version''"

definition exit_code :: "goerr option \<Rightarrow> nat" where
  "exit_code err = (if err = None then 0 else 1)"

definition load_exit :: "goerr \<Rightarrow> nat" where
  "load_exit e = (if errors_is e err_help then 0 else 1)"

text \<open>The driver main builds, and the server it runs it in.\<close>

definition ec2_main_driver :: "'w ec2_program \<Rightarrow> ec2_config \<Rightarrow> 'w ec2_api \<Rightarrow> 'w ec2_env" where
  "ec2_main_driver prog c api =
     ec2_on_aws api (ep_pages prog)
       ((ep_env prog)\<lparr>ee_config := c, ee_transport_lib := ld_transport (ep_load prog)\<rparr>)"

definition ec2_main ::
  "'w ec2_program \<Rightarrow> bytestr list \<Rightarrow> environment \<Rightarrow> host \<Rightarrow> 'w \<Rightarrow> nat \<times> host \<times> 'w sys option" where
  "ec2_main prog os_args getenv h w =
     (if version_asked os_args then (0, h, None)
      else
        (case ec2_load_config (ep_load prog) (tl os_args) getenv of
           Inl e \<Rightarrow> (load_exit e, h, None)
         | Inr app \<Rightarrow>
             (case ep_aws_config prog (e_region (ea_driver app)) of
                Inl e \<Rightarrow> (1, h, None)
              | Inr api \<Rightarrow>
                  (case new_ec2_driver (ld_transport (ep_load prog)) (ep_keys prog) (ea_driver app) (Some api) of
                     Inl e \<Rightarrow> (1, h, None)
                   | Inr reg \<Rightarrow>
                       (case run_server (ec2_server (ec2_main_driver prog (ea_driver app) api) (ep_server prog))
                               (ea_server app) h \<lparr>sy_reg = reg, sy_world = w\<rparr> of
                          (err, h', s) \<Rightarrow> (exit_code err, h', Some s))))))"

definition kv_main_driver :: "('c, 'w) kv_program \<Rightarrow> kv_config \<Rightarrow> 'w kube_api \<Rightarrow> 'w kv_env" where
  "kv_main_driver prog c api =
     kv_on_kube api (ld_k8s (kp_load prog)) (kp_pages prog)
       ((kp_env prog)\<lparr>ke_config := c, ke_transport_lib := ld_transport (kp_load prog)\<rparr>)"

definition kv_main ::
  "('c, 'w) kv_program \<Rightarrow> bytestr list \<Rightarrow> environment \<Rightarrow> host \<Rightarrow> 'w \<Rightarrow> nat \<times> host \<times> 'w sys option" where
  "kv_main prog os_args getenv h w =
     (if version_asked os_args then (0, h, None)
      else
        (case kv_load_config (kp_load prog) (tl os_args) getenv of
           Inl e \<Rightarrow> (load_exit e, h, None)
         | Inr app \<Rightarrow>
             (case kp_rest_config prog (if ka_kubeconfig app \<noteq> [] then Some (ka_kubeconfig app) else None) of
                Inl e \<Rightarrow> (1, h, None)
              | Inr rest \<Rightarrow>
                  (case new_kube_api_provider (kp_core prog) (kp_dynamic prog) (Some rest) of
                     Inl e \<Rightarrow> (1, h, None)
                   | Inr api \<Rightarrow>
                       (case new_kubevirt_driver (ld_transport (kp_load prog)) (ld_k8s (kp_load prog))
                               (kp_keys prog) (ka_driver app) (Some api) of
                          Inl e \<Rightarrow> (1, h, None)
                        | Inr reg \<Rightarrow>
                            (case run_server (kv_server (kv_main_driver prog (ka_driver app) api) (kp_server prog))
                                    (ka_server app) h \<lparr>sy_reg = reg, sy_world = w\<rparr> of
                               (err, h', s) \<Rightarrow> (exit_code err, h', Some s)))))))"

section \<open>The composed driver is bounded\<close>

text \<open>The API server names every object it lists.\<close>

definition kube_names_objects :: "'w kube_api \<Rightarrow> bool" where
  "kube_names_objects api \<longleftrightarrow>
     (\<forall>kind sel size token w page more w'.
        ka_list api kind sel size token w = (Inr (page, more), w') \<longrightarrow> (\<forall>u \<in> set page. un_name u \<noteq> []))"

lemma retry_answer:
  assumes "retry_with_backoff api fn w = (Inr a, w')" shows "\<exists>w1 w2. fn w1 = (Inr a, w2)"
proof -
  have "backoff_loop api fn steps n l w = (Inr a, l', w') \<Longrightarrow> \<exists>w1 w2. fn w1 = (Inr a, w2)" for steps n l w l' w'
    by (induction steps arbitrary: n l w) (auto split: prod.split_asm option.split_asm sum.split_asm if_split_asm)
  with assms show ?thesis
    by (auto simp: retry_with_backoff_def split: prod.split_asm option.split_asm sum.split_asm if_split_asm)
qed

lemma list_all_named:
  assumes "kube_names_objects api"
  shows "list_all api kind sel fuel token items w = Some (Inr us, w') \<Longrightarrow> \<forall>u \<in> set items. un_name u \<noteq> [] \<Longrightarrow>
    \<forall>u \<in> set us. un_name u \<noteq> []"
proof (induction fuel arbitrary: token items w)
  case (Suc fuel)
  obtain r w1 where r: "retry_with_backoff api (ka_list api kind sel default_page_size token) w = (r, w1)"
    by (cases "retry_with_backoff api (ka_list api kind sel default_page_size token) w")
  show ?case
  proof (cases r)
    case (Inr p)
    obtain page more where p: "p = (page, more)" by (cases p)
    from retry_answer [OF r [unfolded Inr p]] assms have "\<forall>u \<in> set page. un_name u \<noteq> []"
      unfolding kube_names_objects_def by blast
    then have all: "\<forall>u \<in> set (items @ page). un_name u \<noteq> []" using Suc.prems(2) by auto
    show ?thesis
    proof (cases "more = []")
      case True
      with all Suc.prems(1) r Inr p show ?thesis by auto
    next
      case False
      with Suc.prems(1) r Inr p have "list_all api kind sel fuel more (items @ page) w1 = Some (Inr us, w')"
        by simp
      from Suc.IH [OF this all] show ?thesis .
    qed
  qed (use Suc r in simp)
qed simp

lemma kube_list_named:
  assumes "kube_names_objects api" and "kube_list api fuel f w = Some (Inr is, w')" and "i \<in> set is"
  shows "v_vm_name i \<noteq> []"
proof -
  from assms(2,3) obtain vms vmis w1 where
    v: "list_all api RVm (kube_selector api f) fuel [] [] w = Some (Inr vms, w1)" and i: "i \<in> set (join_vms f vms vmis)"
    by (auto simp: kube_list_def split: option.split_asm prod.split_asm sum.split_asm)
  from i obtain u x where "u \<in> set vms" "i = normalize_vm u x" by (auto simp: join_vms_def)
  with list_all_named [OF assms(1) v] show ?thesis by (simp add: normalize_vm_def Let_def)
qed

lemma kv_on_kube_config [simp]: "ke_config (kv_on_kube api klib pages env) = ke_config env"
  by (simp add: kv_on_kube_def)

lemma kube_driver_names:
  assumes "kube_names_objects api" and "\<And>lt is. set (ke_sort_vms env lt is) = set is"
  shows "kv_provider_names (kv_on_kube api klib pages env)"
  using assms(2)
  by (auto simp: kv_provider_names_def kv_on_kube_def dest!: kube_listing_Inr dest: kube_list_named [OF assms(1)])

section \<open>The main functions\<close>

text \<open>Validating again in the constructor cannot fail, in whatever order the fields are visited.\<close>

lemma ec2_constructed:
  assumes "ec2_validate_config lib ks c = None"
    and "set ks = fst ` set (ec2_config_fields c)" and "set ks' = fst ` set (ec2_config_fields c)"
  shows "new_ec2_driver lib ks' c (Some api) = Inr (new_registry (ec2_limits c))"
  using assms ec2_validate_config_core [of ks c lib] ec2_validate_config_core [of ks' c lib]
  by (simp add: new_ec2_driver_def)

lemma kv_constructed:
  assumes "kv_validate_config lib klib ks c = None"
    and "set ks = fst ` set (kv_config_fields c)" and "set ks' = fst ` set (kv_config_fields c)"
  shows "new_kubevirt_driver lib klib ks' c (Some api) = Inr (new_registry (kv_limits c))"
  using assms kv_validate_config_core [of ks c lib klib] kv_validate_config_core [of ks' c lib klib]
  by (simp add: new_kubevirt_driver_def)

lemma ec2_load_valid:
  "ec2_load_config lib args getenv = Inr app \<Longrightarrow>
   ec2_validate_config (ld_transport lib) (ld_keys lib) (ea_driver app) = None"
  using ec2_config_from_ok by (auto simp: ec2_load_config_def split: sum.split_asm)

lemma kv_load_valid:
  "kv_load_config lib args getenv = Inr app \<Longrightarrow>
   kv_validate_config (ld_transport lib) (ld_k8s lib) (ld_keys lib) (ka_driver app) = None"
  using kv_config_from_ok by (auto simp: kv_load_config_def split: sum.split_asm)

definition ec2_field_names :: "bytestr set" where
  "ec2_field_names =
     {''AMIID'', ''SubnetID'', ''SecurityGroupID'', ''GatewayID'', ''DefaultInstance'', ''Region'', ''KeyName''}"

definition kv_field_names :: "bytestr set" where
  "kv_field_names =
     {''Namespace'', ''BootSource'', ''BootSourceNamespace'', ''DefaultInstanceType'',
      ''DefaultPreference'', ''StorageClass'', ''GatewayID'', ''DiskSize''}"

lemma field_names:
  "fst ` set (ec2_config_fields c) = ec2_field_names" "fst ` set (kv_config_fields k) = kv_field_names"
  by (auto simp: ec2_config_fields_def kv_config_fields_def ec2_field_names_def kv_field_names_def)

text \<open>What main does once its configuration is loaded and its client exists.\<close>

lemma ec2_main_serves:
  assumes "\<not> version_asked os_args" and "ec2_load_config (ep_load prog) (tl os_args) getenv = Inr app"
    and "ep_aws_config prog (e_region (ea_driver app)) = Inr api"
    and "set (ld_keys (ep_load prog)) = ec2_field_names" and "set (ep_keys prog) = ec2_field_names"
  shows "ec2_main prog os_args getenv h w =
    (case run_server (ec2_server (ec2_main_driver prog (ea_driver app) api) (ep_server prog)) (ea_server app) h
            \<lparr>sy_reg = new_registry (ec2_limits (ea_driver app)), sy_world = w\<rparr> of
       (err, h', s) \<Rightarrow> (exit_code err, h', Some s))"
  using assms ec2_constructed [OF ec2_load_valid [OF assms(2)], of "ep_keys prog" api]
  by (simp add: ec2_main_def field_names)

lemma kv_main_serves:
  assumes "\<not> version_asked os_args" and "kv_load_config (kp_load prog) (tl os_args) getenv = Inr app"
    and "kp_rest_config prog (if ka_kubeconfig app \<noteq> [] then Some (ka_kubeconfig app) else None) = Inr rest"
    and "new_kube_api_provider (kp_core prog) (kp_dynamic prog) (Some rest) = Inr api"
    and "set (ld_keys (kp_load prog)) = kv_field_names" and "set (kp_keys prog) = kv_field_names"
  shows "kv_main prog os_args getenv h w =
    (case run_server (kv_server (kv_main_driver prog (ka_driver app) api) (kp_server prog)) (ka_server app) h
            \<lparr>sy_reg = new_registry (kv_limits (ka_driver app)), sy_world = w\<rparr> of
       (err, h', s) \<Rightarrow> (exit_code err, h', Some s))"
  using assms kv_constructed [OF kv_load_valid [OF assms(2)], of "kp_keys prog" api]
  by (simp add: kv_main_def field_names)

section \<open>Properties\<close>

text \<open>
  C11: The KubeVirt driver on the Kubernetes adapter: in every interleaving the reservations
  in flight stay within the configured limit, because the API server names the objects it
  lists; nothing else is assumed of the cluster.
\<close>

theorem kube_driver_bounded:
  assumes "kv_reach (kv_on_kube api klib pages env) c" and "kube_names_objects api"
    and "\<And>lt is. set (ke_sort_vms env lt is) = set is"
  shows "int (card {i. \<exists>rc. reg_lookup (sy_reg (snd c)) i = Some rc \<and> r_instance_id rc = []}) \<le>
    effective_max_instances (kv_limits (ke_config env))"
  using kv_reservations_core [OF assms(1) kube_driver_names [OF assms(2,3)]] by simp

theorem kube_driver_bounded_witness:
  "int (card {i. \<exists>rc. reg_lookup (sy_reg (snd (run (kv_process (kv_on_kube (demo_kube [damaged_vm]) sample_k8s 1 (demo_kv []))
       (ReqCreate (Some plain_sandbox))) (first_sys (kv_limits kv_sample_config))))) i = Some rc \<and>
       r_instance_id rc = []}) \<le> 10"
proof -
  let ?env = "kv_on_kube (demo_kube [damaged_vm]) sample_k8s 1 (demo_kv [])"
  let ?p = "kv_process ?env (ReqCreate (Some plain_sandbox))"
  let ?s = "first_sys (kv_limits kv_sample_config)"
  have cfg: "ke_config (demo_kv []) = kv_sample_config" by (simp add: demo_kv_def)
  then have r: "kv_reach ?env ([Ret (fst (run ?p ?s))], snd (run ?p ?s))"
    unfolding kv_reach_def by (intro reach_one) (simp add: starts_def first_sys_def, blast)
  have n: "kube_names_objects (demo_kube [damaged_vm])"
  proof -
    have "un_name damaged_vm \<noteq> []"
      by (simp add: damaged_vm_def stored_vm_def build_vm_def kube_vm_name_def Let_def)
    then show ?thesis by (auto simp: kube_names_objects_def demo_kube_def split: if_split_asm)
  qed
  have "effective_max_instances (kv_limits kv_sample_config) = 10"
    by (simp add: effective_max_instances_def kv_limits_def kv_sample_config_def kv_default_config_def)
  with kube_driver_bounded [OF r n] cfg show ?thesis by simp
qed

text \<open>
  C19: openshell-driver-ec2 exits with success exactly when it was asked for its version or
  for help, or when its configuration loaded, the client was built and the server, started
  from an empty registry with the configured limits, ran to an ordinary shutdown. The
  constructor of the driver never refuses a configuration that loaded.
\<close>

theorem ec2_main_exit:
  assumes "set (ld_keys (ep_load prog)) = ec2_field_names" and "set (ep_keys prog) = ec2_field_names"
  shows "fst (ec2_main prog os_args getenv h w) = 0 \<longleftrightarrow>
    version_asked os_args \<or>
    (\<exists>e. ec2_load_config (ep_load prog) (tl os_args) getenv = Inl e \<and> errors_is e err_help) \<or>
    (\<exists>app api. ec2_load_config (ep_load prog) (tl os_args) getenv = Inr app \<and>
       ep_aws_config prog (e_region (ea_driver app)) = Inr api \<and>
       fst (run_server (ec2_server (ec2_main_driver prog (ea_driver app) api) (ep_server prog)) (ea_server app) h
              \<lparr>sy_reg = new_registry (ec2_limits (ea_driver app)), sy_world = w\<rparr>) = None)"
proof (cases "version_asked os_args")
  case True
  then show ?thesis by (simp add: ec2_main_def)
next
  case v: False
  show ?thesis
  proof (cases "ec2_load_config (ep_load prog) (tl os_args) getenv")
    case (Inl e)
    with v show ?thesis by (simp add: ec2_main_def load_exit_def)
  next
    case (Inr app)
    show ?thesis
    proof (cases "ep_aws_config prog (e_region (ea_driver app))")
      case (Inl e)
      with v Inr show ?thesis by (simp add: ec2_main_def)
    next
      case api: (Inr api)
      from ec2_main_serves [OF v Inr api assms] show ?thesis
        using v Inr api by (simp add: exit_code_def split_def)
    qed
  qed
qed

text \<open>A program whose cloud does not answer.\<close>

definition down_api :: "unit ec2_api" where
  "down_api = \<lparr>run_instances = \<lambda>_ w. (Inl ErrDeadlineExceeded, w), terminate_instances = \<lambda>_ w. (None, w),
     stop_instances = \<lambda>_ w. (None, w), next_page = \<lambda>_ _ w. (Inl ErrDeadlineExceeded, w)\<rparr>"

definition quiet_ec2_server :: "unit sys server_env" where
  "quiet_ec2_server = \<lparr>sv_host = no_faults, sv_initialize = None, sv_serve = \<lambda>_ _ w. w,
     sv_start_watcher = None, sv_select = \<lambda>w. (ContextDone ErrCanceled, w),
     sv_cancel_workers = \<lambda>w. w, sv_graceful_stop = \<lambda>_ w. (True, w), sv_stop = \<lambda>w. w\<rparr>"

definition down_program :: "unit ec2_program" where
  "down_program = \<lparr>ep_load = ec2_sample_lib, ep_aws_config = \<lambda>_. Inr down_api, ep_pages = 1,
     ep_env = demo_env [], ep_keys = ec2_config_keys, ep_server = quiet_ec2_server\<rparr>"

lemma down_program_keys:
  "set (ld_keys (ep_load down_program)) = ec2_field_names" "set (ep_keys down_program) = ec2_field_names"
  by (simp_all add: down_program_def ec2_config_keys_def ec2_field_names_def)

lemma down_config: "ep_aws_config down_program r = Inr down_api"
  by (simp add: down_program_def)

lemma down_listing:
  "run (ec2_initialize (ec2_main_driver down_program c down_api)) s =
     (Some (ErrWrap ''describe EC2 instances: %w'' [] ErrDeadlineExceeded), s)"
  by (cases s) (simp add: ec2_initialize_def ec2_poll_def ec2_main_driver_def ec2_on_aws_def aws_listing_def
      aws_list_def down_program_def down_api_def exec)

theorem ec2_main_exit_witness:
  "fst (ec2_main down_program [''driver'', ''--version''] ec2_sample_env stale_host ()) = 0 \<and>
   fst (ec2_main down_program [''driver''] ec2_sample_env stale_host ()) \<noteq> 0"
proof
  note exit = ec2_main_exit [OF down_program_keys, of _ ec2_sample_env stale_host "()"]
  show "fst (ec2_main down_program [''driver'', ''--version''] ec2_sample_env stale_host ()) = 0"
    unfolding exit by (simp add: version_asked_def)
  obtain app where app: "ec2_load_config ec2_sample_lib [] ec2_sample_env = Inr app"
    using ec2_sample_loads by blast
  have "ep_load down_program = ec2_sample_lib" by (simp add: down_program_def)
  then show "fst (ec2_main down_program [''driver''] ec2_sample_env stale_host ()) \<noteq> 0"
    unfolding exit using app
    by (auto simp: version_asked_def ec2_server_def run_server_initialize down_config down_listing)
qed

text \<open>A KubeVirt program whose cluster does not answer.\<close>

definition down_kube :: "unit kube_api" where
  "down_kube = (demo_kube [])\<lparr>ka_get_namespace := \<lambda>_ w. (Some ErrDeadlineExceeded, w)\<rparr>"

definition down_kv_program :: "(unit, unit) kv_program" where
  "down_kv_program = \<lparr>kp_load = kv_sample_lib, kp_rest_config = \<lambda>_. Inr (), kp_core = \<lambda>_. None,
     kp_dynamic = \<lambda>_. Inr down_kube, kp_pages = 1, kp_env = demo_kv [], kp_keys = kv_config_keys,
     kp_server = quiet_ec2_server\<rparr>"

lemma down_kv_keys:
  "set (ld_keys (kp_load down_kv_program)) = kv_field_names" "set (kp_keys down_kv_program) = kv_field_names"
  by (simp_all add: down_kv_program_def kv_config_keys_def kv_field_names_def)

lemma down_kv_not_ready:
  "run (kv_initialize (kv_main_driver down_kv_program c down_kube)) s =
     (Some (ErrWrap ''kubevirt prerequisites: %w'' []
        (ErrWrap ''get target namespace %s: %w'' [AStr (k_namespace c)] ErrDeadlineExceeded)), s)"
proof -
  let ?e = "ErrWrap ''get target namespace %s: %w'' [AStr (k_namespace c)] ErrDeadlineExceeded"
  have p: "ka_pause down_kube 0 w = (None, w)" for w by (simp add: down_kube_def demo_kube_def)
  have n: "\<not> is_transient ?e" by (simp add: is_transient_def)
  have o: "check_ready_once down_kube c w = (Inl ?e, w)" for w
    by (simp add: check_ready_once_def must_get_def down_kube_def)
  have "kube_check_ready down_kube c w = (Some ?e, w)" for w
    by (simp add: kube_check_ready_def retry_permanent [OF p o n])
  then show ?thesis
    by (cases s) (simp add: kv_initialize_def kv_main_driver_def kv_on_kube_def exec)
qed

text \<open>
  C18: When the first reconciliation fails, because the cloud or the cluster does not answer,
  either program ends with exit code 1, has opened no listener and touched no file.
\<close>

theorem main_fails_unreconciled:
  "(\<not> version_asked os_args \<and> ec2_load_config (ep_load prog) (tl os_args) getenv = Inr app \<and>
    ep_aws_config prog (e_region (ea_driver app)) = Inr api \<and>
    set (ld_keys (ep_load prog)) = ec2_field_names \<and> set (ep_keys prog) = ec2_field_names \<and>
    run (ec2_initialize (ec2_main_driver prog (ea_driver app) api))
      \<lparr>sy_reg = new_registry (ec2_limits (ea_driver app)), sy_world = w\<rparr> = (Some e, s) \<longrightarrow>
      ec2_main prog os_args getenv h w = (1, h, Some s)) \<and>
   (\<not> version_asked os_args \<and> kv_load_config (kp_load kprog) (tl os_args) getenv = Inr kapp \<and>
    kp_rest_config kprog (if ka_kubeconfig kapp \<noteq> [] then Some (ka_kubeconfig kapp) else None) = Inr rest \<and>
    new_kube_api_provider (kp_core kprog) (kp_dynamic kprog) (Some rest) = Inr kapi \<and>
    set (ld_keys (kp_load kprog)) = kv_field_names \<and> set (kp_keys kprog) = kv_field_names \<and>
    run (kv_initialize (kv_main_driver kprog (ka_driver kapp) kapi))
      \<lparr>sy_reg = new_registry (kv_limits (ka_driver kapp)), sy_world = v\<rparr> = (Some ke, ks) \<longrightarrow>
      kv_main kprog os_args getenv h v = (1, h, Some ks))"
proof (intro conjI impI; elim conjE)
  assume "\<not> version_asked os_args" "ec2_load_config (ep_load prog) (tl os_args) getenv = Inr app"
    "ep_aws_config prog (e_region (ea_driver app)) = Inr api"
    "set (ld_keys (ep_load prog)) = ec2_field_names" "set (ep_keys prog) = ec2_field_names"
    and r: "run (ec2_initialize (ec2_main_driver prog (ea_driver app) api))
      \<lparr>sy_reg = new_registry (ec2_limits (ea_driver app)), sy_world = w\<rparr> = (Some e, s)"
  from ec2_main_serves [OF this(1-5)] r show "ec2_main prog os_args getenv h w = (1, h, Some s)"
    by (simp add: ec2_server_def run_server_initialize exit_code_def)
next
  assume "\<not> version_asked os_args" "kv_load_config (kp_load kprog) (tl os_args) getenv = Inr kapp"
    "kp_rest_config kprog (if ka_kubeconfig kapp \<noteq> [] then Some (ka_kubeconfig kapp) else None) = Inr rest"
    "new_kube_api_provider (kp_core kprog) (kp_dynamic kprog) (Some rest) = Inr kapi"
    "set (ld_keys (kp_load kprog)) = kv_field_names" "set (kp_keys kprog) = kv_field_names"
    and r: "run (kv_initialize (kv_main_driver kprog (ka_driver kapp) kapi))
      \<lparr>sy_reg = new_registry (kv_limits (ka_driver kapp)), sy_world = v\<rparr> = (Some ke, ks)"
  from kv_main_serves [OF this(1-6)] r show "kv_main kprog os_args getenv h v = (1, h, Some ks)"
    by (simp add: kv_server_def run_server_initialize exit_code_def)
qed

theorem main_fails_unreconciled_witness:
  "(\<exists>s. ec2_main down_program [''driver''] ec2_sample_env stale_host () = (1, stale_host, Some s)) \<and>
   (\<exists>s. kv_main down_kv_program [''driver''] kv_sample_env stale_host () = (1, stale_host, Some s))"
proof -
  have v: "\<not> version_asked [''driver'']" by (simp add: version_asked_def)
  obtain app where "ec2_load_config ec2_sample_lib [] ec2_sample_env = Inr app"
    using ec2_sample_loads by blast
  then have e: "ec2_load_config (ep_load down_program) (tl [''driver'']) ec2_sample_env = Inr app"
    "ep_aws_config down_program (e_region (ea_driver app)) = Inr down_api"
    by (simp_all add: down_program_def)
  obtain kapp where "kv_load_config kv_sample_lib [] kv_sample_env = Inr kapp"
    using kv_sample_loads by blast
  then have k: "kv_load_config (kp_load down_kv_program) (tl [''driver'']) kv_sample_env = Inr kapp"
    "kp_rest_config down_kv_program (if ka_kubeconfig kapp \<noteq> [] then Some (ka_kubeconfig kapp) else None) = Inr ()"
    "new_kube_api_provider (kp_core down_kv_program) (kp_dynamic down_kv_program) (Some ()) = Inr down_kube"
    by (simp_all add: down_kv_program_def new_kube_api_provider_def)
  note P = main_fails_unreconciled
  show ?thesis
    using P [THEN conjunct1, rule_format, OF conjI [OF v conjI [OF e(1) conjI [OF e(2)
        conjI [OF down_program_keys(1) conjI [OF down_program_keys(2) down_listing]]]]], of stale_host]
      P [THEN conjunct2, rule_format, OF conjI [OF v conjI [OF k(1) conjI [OF k(2) conjI [OF k(3)
        conjI [OF down_kv_keys(1) conjI [OF down_kv_keys(2) down_kv_not_ready]]]]]], of stale_host]
    by blast
qed

end
