(* ===== verification/SelfDestruct.thy ===== *)
theory SelfDestruct
  imports Programs
begin

text \<open>
  What the EC2 driver asks of the cloud, over all interleavings. The cloud of these theorems
  keeps a log of the launch requests it was sent; every request in it carries the security
  policy, powers its machine off after the lifetime, and can be traced to its sandbox.
\<close>

section \<open>A launch request that conforms\<close>

text \<open>
  The configured place and image, the security policy, and a document that decodes to at
  most 16384 bytes and powers the machine off after the lifetime; the document is the one of
  some sandbox, and the instance, its volumes and its interfaces are tagged as that
  sandbox's, with this gateway and this lifetime.
\<close>

definition launch_conforms :: "ec2_config \<Rightarrow> (nat \<Rightarrow> bool) \<Rightarrow> bytestr \<Rightarrow> run_input \<Rightarrow> bool" where
  "launch_conforms c tbl lifetime ri \<longleftrightarrow>
     launch_policy ri \<and>
     ri_image_id ri = e_ami_id c \<and> ri_subnet_id ri = e_subnet_id c \<and>
     ri_security_group_ids ri = [e_security_group_id c] \<and>
     (let doc = base64_decode (ri_user_data ri)
      in length doc \<le> 16384 \<and> powers_off_at ''OnBootSec'' lifetime doc \<and>
         (\<exists>sb. encoded_files (split_lines doc) =
                 security_files tbl (e_transport c)
                   \<lparr>sec_sandbox_id = sb_id sb, sec_sandbox_token = sandbox_token sb,
                    sec_log_level = sandbox_log_level sb, sec_max_lifetime = lifetime\<rparr> \<and>
            (\<forall>(resource, tags) \<in> set (ri_tag_specifications ri).
               map_of tags ''openshell.io/sandbox-id'' = Some (sb_id sb) \<and>
               map_of tags ''openshell.io/gateway-id'' = Some (e_gateway_id c) \<and>
               map_of tags ''openshell.io/max-lifetime'' = Some lifetime))) \<and>
     {''instance'', ''volume'', ''network-interface''} \<subseteq> fst ` set (ri_tag_specifications ri)"

lemma launch_tag_values:
  "map_of (launch_tags spec) ''openshell.io/sandbox-id'' = Some (ls_sandbox_id spec)"
  "map_of (launch_tags spec) ''openshell.io/gateway-id'' = Some (ls_gateway_id spec)"
  "map_of (launch_tags spec) ''openshell.io/max-lifetime'' = Some (ls_max_lifetime spec)"
  by (rule map_of_is_SomeI [OF launch_tags_distinct];
      simp add: launch_tags_def tag_sandbox_id_def tag_gateway_id_def tag_max_lifetime_def)+

lemma launch_place:
  "ri_image_id (launch_input spec) = ls_image_id spec" "ri_subnet_id (launch_input spec) = ls_subnet_id spec"
  "ri_security_group_ids (launch_input spec) = [ls_security_group_id spec]"
  "ri_user_data (launch_input spec) = ls_user_data spec"
  by (simp_all add: launch_input_def Let_def)

lemma created_conforms:
  assumes "set ks = set sec_keys"
    and "render_user_data (ee_transport_lib env) (ee_print_table env) ks
           (ec2_user_data_params env sb lifetime) = Inr user_data"
  shows "launch_conforms (ee_config env) (ee_print_table env) lifetime
    (launch_input (ec2_launch_spec env sb instance_type user_data t lifetime))"
proof -
  let ?spec = "ec2_launch_spec env sb instance_type user_data t lifetime"
  have "set ks = fst ` set (sec_fields q)" for q using assms(1) sec_keys_fields by simp
  from render_user_data_armed [OF this assms(2)] have doc:
    "length (base64_decode user_data) \<le> 16384" "powers_off_at ''OnBootSec'' lifetime (base64_decode user_data)"
    "encoded_files (split_lines (base64_decode user_data)) =
       security_files (ee_print_table env) (e_transport (ee_config env))
         \<lparr>sec_sandbox_id = sb_id sb, sec_sandbox_token = sandbox_token sb,
          sec_log_level = sandbox_log_level sb, sec_max_lifetime = lifetime\<rparr>"
    by (simp_all add: ec2_user_data_params_def max_ec2_user_data_size_def)
  have tags: "\<forall>(resource, tags) \<in> set (ri_tag_specifications (launch_input ?spec)).
      map_of tags ''openshell.io/sandbox-id'' = Some (sb_id sb) \<and>
      map_of tags ''openshell.io/gateway-id'' = Some (e_gateway_id (ee_config env)) \<and>
      map_of tags ''openshell.io/max-lifetime'' = Some lifetime"
  proof -
    have "ls_sandbox_id ?spec = sb_id sb" "ls_gateway_id ?spec = e_gateway_id (ee_config env)"
      "ls_max_lifetime ?spec = lifetime" by (simp_all add: ec2_launch_spec_def Let_def)
    with launch_tag_values [of ?spec] show ?thesis using launch_tags_everywhere [of _ _ ?spec] by fastforce
  qed
  have place: "ls_image_id ?spec = e_ami_id (ee_config env)" "ls_subnet_id ?spec = e_subnet_id (ee_config env)"
    "ls_security_group_id ?spec = e_security_group_id (ee_config env)" "ls_user_data ?spec = user_data"
    by (simp_all add: ec2_launch_spec_def Let_def)
  show ?thesis
    unfolding launch_conforms_def Let_def launch_place place launch_tagged_resources
    using doc tags by (intro conjI exI [of _ sb]) (auto simp: launch_policy_core)
qed

section \<open>The log\<close>

text \<open>
  A cloud whose world carries a log of the launch requests: a launch adds its request,
  answered or not, and nothing else of the cloud, the clock and the runtime touches it.
\<close>

definition logs_launches :: "('w \<Rightarrow> run_input list) \<Rightarrow> 'w ec2_api \<Rightarrow> 'w runtime \<Rightarrow> bool" where
  "logs_launches sent api rt \<longleftrightarrow>
     (\<forall>ri w. sent (snd (run_instances api ri w)) = sent w @ [ri]) \<and>
     (\<forall>ids w. sent (snd (terminate_instances api ids w)) = sent w) \<and>
     (\<forall>ids w. sent (snd (stop_instances api ids w)) = sent w) \<and>
     (\<forall>fs n w. sent (snd (next_page api fs n w)) = sent w) \<and>
     (\<forall>w. sent (snd (rt_now rt w)) = sent w) \<and> (\<forall>ks w. sent (snd (rt_order rt ks w)) = sent w) \<and>
     (\<forall>w. sent (snd (rt_ctx_err rt w)) = sent w) \<and> (\<forall>ev w. sent (snd (rt_send rt ev w)) = sent w) \<and>
     (\<forall>w. sent (snd (rt_done rt w)) = sent w)"

lemma listing_log:
  assumes "logs_launches sent api rt" shows "sent (snd (aws_listing api pages f w)) = sent w"
proof -
  have np: "sent (snd (next_page api fs n w)) = sent w" for fs n w
    using assms by (simp add: logs_launches_def)
  have "case list_pages api fs fuel n acc w of None \<Rightarrow> True | Some (r, w') \<Rightarrow> sent w' = sent w" for fs fuel n acc
  proof (induction fuel arbitrary: n acc w)
    case (Suc fuel)
    obtain r w1 where r: "next_page api fs n w = (r, w1)" by fastforce
    then have "sent w1 = sent w" using np [of fs n w] by simp
    with r Suc.IH [where n = "Suc n" and acc = "acc @ map normalize_instance (concat (fst (projr r)))" and w = w1] show ?case
      by (cases r) (auto simp: Let_def split: prod.split option.split_asm)
  qed simp
  from this [of "list_filters f" pages 0 "[]"] show ?thesis
    by (auto simp: aws_listing_def aws_list_def split: option.splits)
qed

lemma adapter_log:
  assumes "logs_launches sent api rt"
  shows "sent (snd (aws_stop api i w)) = sent w" and "sent (snd (aws_terminate api ids w)) = sent w"
    and "sent (snd (aws_launch api spec w)) = sent w @ [launch_input spec]"
proof -
  obtain r w1 where r: "run_instances api (launch_input spec) w = (r, w1)" by fastforce
  have "sent w1 = sent w @ [launch_input spec]" using assms r by (metis logs_launches_def snd_conv)
  with r show "sent (snd (aws_launch api spec w)) = sent w @ [launch_input spec]"
    by (auto simp: aws_launch_def Let_def split: sum.split option.split list.split)
  obtain e w2 where e: "stop_instances api [i] w = (e, w2)" by fastforce
  have "sent w2 = sent w" using assms e by (metis logs_launches_def snd_conv)
  with e show "sent (snd (aws_stop api i w)) = sent w" by (simp add: aws_stop_def split: option.split)
  obtain d w3 where d: "terminate_instances api ids w = (d, w3)" by fastforce
  have "sent w3 = sent w" using assms d by (metis logs_launches_def snd_conv)
  with d show "sent (snd (aws_terminate api ids w)) = sent w" by (simp add: aws_terminate_def split: option.split)
qed


text \<open>Everything the driver does to the world other than launching leaves the log alone.\<close>

definition quiet :: "('w \<Rightarrow> run_input list) \<Rightarrow> ('w \<Rightarrow> 'b \<times> 'w) \<Rightarrow> bool" where
  "quiet sent f \<longleftrightarrow> (\<forall>w. sent (snd (f w)) = sent w)"

definition quiet_env :: "('w \<Rightarrow> run_input list) \<Rightarrow> 'w ec2_env \<Rightarrow> bool" where
  "quiet_env sent env \<longleftrightarrow>
     (let rt = ee_runtime env
      in quiet sent (rt_now rt) \<and> (\<forall>ks. quiet sent (rt_order rt ks)) \<and> quiet sent (rt_ctx_err rt) \<and>
         (\<forall>ev. quiet sent (rt_send rt ev)) \<and> quiet sent (rt_done rt)) \<and>
     (\<forall>f. quiet sent (ee_list env f)) \<and> (\<forall>i. quiet sent (ee_stop env i)) \<and>
     (\<forall>ids. quiet sent (ee_terminate env ids))"

lemma quiet_on_aws: "logs_launches sent api (ee_runtime env) \<Longrightarrow> quiet_env sent (ec2_on_aws api pages env)"
proof -
  assume l: "logs_launches sent api (ee_runtime env)"
  note a = adapter_log(1,2) [OF l] listing_log [OF l]
  from l a show ?thesis
    by (simp add: quiet_env_def quiet_def ec2_on_aws_def logs_launches_def Let_def)
qed

lemma quiet_calls:
  assumes "quiet_env sent env"
  shows "quiet sent (rt_now (ee_runtime env))" "quiet sent (rt_order (ee_runtime env) ks)"
    "quiet sent (rt_ctx_err (ee_runtime env))" "quiet sent (rt_send (ee_runtime env) ev)"
    "quiet sent (rt_done (ee_runtime env))" "quiet sent (ee_list env f)" "quiet sent (ee_stop env i)"
    "quiet sent (ee_terminate env ids)"
  using assms by (simp_all add: quiet_env_def Let_def)

section \<open>Every step keeps the log clean\<close>

definition clean :: "('w \<Rightarrow> run_input list) \<Rightarrow> (run_input \<Rightarrow> bool) \<Rightarrow> limits \<Rightarrow> 'w sys \<Rightarrow> bool" where
  "clean sent P l s \<longleftrightarrow> limits_are l (sy_reg s) \<and> (\<forall>ri \<in> set (sent (sy_world s)). P ri)"

lemma clean_on_reg:
  "(\<And>r. limits_are l r \<Longrightarrow> limits_are l (snd (f r))) \<Longrightarrow> (\<And>b. preserves (clean sent P l) (k b)) \<Longrightarrow>
   preserves (clean sent P l) (act (on_reg f) k)"
  by (rule preserves_act) (auto simp: on_reg_def clean_def split_def)

lemma clean_on_world:
  "quiet sent f \<Longrightarrow> (\<And>b. preserves (clean sent P l) (k b)) \<Longrightarrow> preserves (clean sent P l) (act (on_world f) k)"
  by (rule preserves_act) (auto simp: on_world_def clean_def quiet_def split_def)

lemma clean_with_keys:
  "quiet_env sent env \<Longrightarrow> (\<And>ks r. limits_are l r \<Longrightarrow> limits_are l (snd (f ks r))) \<Longrightarrow>
   (\<And>b. preserves (clean sent P l) (k b)) \<Longrightarrow> preserves (clean sent P l) (act (with_keys (ee_runtime env) f) k)"
  by (rule preserves_act)
    (auto simp: with_keys_def on_reg_def clean_def split_def quiet_calls(2) [unfolded quiet_def])

lemma clean_with_now:
  "quiet_env sent env \<Longrightarrow> (\<And>now r. limits_are l r \<Longrightarrow> limits_are l (snd (f now r))) \<Longrightarrow>
   (\<And>b. preserves (clean sent P l) (k b)) \<Longrightarrow> preserves (clean sent P l) (act (with_now (ee_runtime env) f) k)"
  by (rule preserves_act)
    (auto simp: with_now_def on_reg_def clean_def split_def quiet_calls(1) [unfolded quiet_def])

lemma clean_order_of:
  "quiet_env sent env \<Longrightarrow> (\<And>b. preserves (clean sent P l) (k b)) \<Longrightarrow>
   preserves (clean sent P l) (order_of (ee_runtime env) ks k)"
  unfolding order_of_def by (rule clean_on_world [OF quiet_calls(2)])

lemma clean_now_of:
  "quiet_env sent env \<Longrightarrow> (\<And>b. preserves (clean sent P l) (k b)) \<Longrightarrow>
   preserves (clean sent P l) (now_of (ee_runtime env) k)"
  unfolding now_of_def by (rule clean_on_world [OF quiet_calls(1)])

lemmas clean_steps =
  clean_on_reg clean_on_world clean_with_keys clean_with_now clean_order_of clean_now_of
  quiet_calls limits_ops

lemmas generic_steps =
  preserves_Ret preserves_call preserves_for_each preserves_if preserves_option preserves_sum
  preserves_prod preserves_list preserves_let

lemma clean_fail: "quiet_env sent env \<Longrightarrow> preserves (clean sent P l) (ec2_fail env e)"
  unfolding ec2_fail_def by (intro generic_steps clean_steps)

lemma clean_validate: "quiet_env sent env \<Longrightarrow> preserves (clean sent P l) (ec2_validate env sbo)"
  unfolding ec2_validate_def by (intro generic_steps clean_steps)

lemma clean_resolve: "quiet_env sent env \<Longrightarrow> preserves (clean sent P l) (ec2_resolve env i nm)"
  unfolding ec2_resolve_def ec2_resolve_remote_def by (intro generic_steps clean_steps clean_fail)

lemma clean_watch:
  assumes "quiet_env sent env"
  shows "preserves (clean sent P l) (watch_sandboxes (ee_runtime env) fuel)"
proof -
  have "preserves (clean sent P l) (watch_loop (ee_runtime env) ch fuel)" for ch
    by (induction fuel) (auto intro!: generic_steps clean_steps assms)
  then show ?thesis unfolding watch_sandboxes_def by (intro generic_steps clean_steps assms)
qed

lemma clean_poll: "quiet_env sent env \<Longrightarrow> preserves (clean sent P l) (ec2_poll env)"
  unfolding ec2_poll_def ec2_poll_listed_def ec2_poll_sandbox_def ec2_reconcile_def ec2_recover_def
    ec2_trust_created_at_def ec2_poll_missing_def ec2_missing_one_def ec2_poll_expired_def
    ec2_expire_one_def Let_def
  by (intro generic_steps clean_steps)

text \<open>
  A creation: the lifetime is read twice, once for the document and once for the tags, and
  both readings are the registry's constant limit.
\<close>

lemma clean_read_lifetime:
  assumes "preserves (clean sent P l) (k (duration_string (effective_max_age l)))"
  shows "preserves (clean sent P l) (act (on_reg (read_op max_lifetime_string)) k)"
  by (rule preserves_act_dep)
    (use assms in \<open>auto simp: on_reg_def read_op_def clean_def limits_are_def max_lifetime_string_def\<close>)

lemma clean_fair_order:
  assumes "quiet_env sent env" and "fair_order (ee_runtime env)"
    and "\<And>ks'. set ks' = set ks \<Longrightarrow> preserves (clean sent P l) (k ks')"
  shows "preserves (clean sent P l) (order_of (ee_runtime env) ks k)"
  unfolding order_of_def
  by (rule preserves_act_dep)
    (use assms quiet_calls(2) [OF assms(1)] fair_order_set [OF assms(2)] in
      \<open>auto simp: on_world_def clean_def quiet_def split_def\<close>)

lemma clean_launch:
  assumes "logs_launches sent api rt" and "P (launch_input spec)"
    and "\<And>b. preserves (clean sent P l) (k b)"
  shows "preserves (clean sent P l) (act (on_world (aws_launch api spec)) k)"
  by (rule preserves_act) (use assms(2,3) adapter_log(3) [OF assms(1)] in \<open>auto simp: on_world_def clean_def split_def\<close>)


lemma clean_create:
  fixes l :: limits
  assumes L: "logs_launches sent api (ee_runtime env)" and F: "fair_order (ee_runtime env)"
  defines "lifetime \<equiv> duration_string (effective_max_age l)"
  shows "preserves (clean sent (launch_conforms (ee_config env) (ee_print_table env) lifetime) l)
    (ec2_create_sandbox (ec2_on_aws api pages env) sbo)"
proof -
  let ?env = "ec2_on_aws api pages env"
  let ?P = "launch_conforms (ee_config env) (ee_print_table env) lifetime"
  note q = quiet_on_aws [OF L, of pages]
  have e: "ee_runtime ?env = ee_runtime env" "ee_config ?env = ee_config env"
    "ee_print_table ?env = ee_print_table env" "ee_launch ?env = aws_launch api"
    by (simp_all add: ec2_on_aws_def)
  have F': "fair_order (ee_runtime ?env)" by (simp only: e F)
  have launch: "?P (launch_input (ec2_launch_spec ?env sb it ud t lifetime))"
    if "set ks = set sec_keys"
      "render_user_data (ee_transport_lib ?env) (ee_print_table ?env) ks (ec2_user_data_params ?env sb lifetime) = Inr ud"
    for ks sb it ud t
    using created_conforms [OF that] unfolding e(2,3) .
  have reserved: "preserves (clean sent ?P l) (ec2_create_reserved ?env sb it t)" for sb it t
    unfolding ec2_create_reserved_def
    by (intro clean_read_lifetime clean_fair_order [OF q F'], fold lifetime_def, rule preserves_sum,
        rule preserves_Ret, unfold e(4), rule clean_read_lifetime, fold lifetime_def,
        rule clean_launch [OF L, where P = ?P, OF launch], assumption+)
      (intro generic_steps clean_steps clean_fail q)
  show ?thesis unfolding ec2_create_sandbox_def
    by (intro generic_steps clean_steps clean_validate reserved q)
qed

lemma clean_process:
  assumes L: "logs_launches sent api (ee_runtime env)" and F: "fair_order (ee_runtime env)"
  shows "preserves (clean sent (launch_conforms (ee_config env) (ee_print_table env)
      (duration_string (effective_max_age l))) l) (ec2_process (ec2_on_aws api pages env) req)"
proof -
  let ?env = "ec2_on_aws api pages env"
  let ?I = "clean sent (launch_conforms (ee_config env) (ee_print_table env) (duration_string (effective_max_age l))) l"
  note q = quiet_on_aws [OF L, of pages]
  have w: "preserves ?I (ec2_start_watcher ?env fuel n)" for fuel n
    by (induction fuel arbitrary: n) (auto intro!: generic_steps clean_steps clean_poll q)
  have get: "preserves ?I (ec2_get_sandbox ?env r)" for r
    unfolding ec2_get_sandbox_def by (intro generic_steps clean_resolve q)
  have list: "preserves ?I (ec2_list_sandboxes ?env)"
    unfolding ec2_list_sandboxes_def by (intro generic_steps clean_steps clean_fail q)
  have stop: "preserves ?I (ec2_stop_sandbox ?env r)" for r
    unfolding ec2_stop_sandbox_def by (intro generic_steps clean_steps clean_resolve clean_fail q)
  have delete: "preserves ?I (ec2_delete_sandbox ?env r)" for r
    unfolding ec2_delete_sandbox_def by (intro generic_steps clean_steps clean_resolve clean_fail q)
  show ?thesis
    by (cases req)
      (simp_all add: process_preserves clean_create [OF L F] get list stop delete clean_watch [OF q] clean_poll [OF q]
        ec2_initialize_def w)
qed

section \<open>Every request conforms\<close>

text \<open>
  The configurations a driver reaches on the cloud, from an empty registry and an empty log,
  while the cloud changes by itself in any way that sends no request for the driver.
\<close>

definition aws_reach ::
  "('w \<Rightarrow> run_input list) \<Rightarrow> 'w ec2_api \<Rightarrow> nat \<Rightarrow> 'w ec2_env \<Rightarrow> ('w sys, unit) config \<Rightarrow> bool" where
  "aws_reach sent api pages env =
     reach (\<lambda>p. \<exists>q. p = ec2_process (ec2_on_aws api pages env) q)
       (\<lambda>s s'. world_moves s s' \<and> sent (sy_world s') = sent (sy_world s))
       (\<lambda>s. starts (ec2_limits (ee_config env)) s \<and> sent (sy_world s) = [])"

text \<open>C15: In every interleaving of requests, watch streams and polls of the EC2 driver on the AWS
  adapter, every launch request that was sent to the cloud conforms: it names the configured
  image, subnet and security group, has no metadata service, exactly one instance that
  terminates itself on shutdown and encrypted volumes that go with it; its user data fits
  EC2's limit and powers the instance off after the registry's lifetime; and its instance,
  volumes and interfaces are tagged with the sandbox whose files the user data carries, this
  gateway and this same lifetime.\<close>

theorem ec2_launches_conform:
  assumes "aws_reach sent api pages env c"
    and "logs_launches sent api (ee_runtime env)" and "fair_order (ee_runtime env)"
  shows "\<forall>ri \<in> set (sent (sy_world (snd c))).
    launch_conforms (ee_config env) (ee_print_table env)
      (duration_string (effective_max_age (ec2_limits (ee_config env)))) ri"
proof -
  let ?l = "ec2_limits (ee_config env)"
  let ?P = "launch_conforms (ee_config env) (ee_print_table env) (duration_string (effective_max_age ?l))"
  have "clean sent ?P ?l (snd c) \<and> (\<forall>p \<in> set (fst c). preserves (clean sent ?P ?l) p)"
  proof (rule reach_preserves [OF assms(1) [unfolded aws_reach_def]])
    fix p :: "('a sys, unit) prog" assume "\<exists>q. p = ec2_process (ec2_on_aws api pages env) q"
    then show "preserves (clean sent ?P ?l) p" using clean_process [OF assms(2,3), of ?l] by auto
  qed (auto simp: clean_def starts_def limits_new world_moves_def)
  then show ?thesis by (simp add: clean_def)
qed


text \<open>A cloud that is nothing but its log, and a creation on it.\<close>

definition log_api :: "run_input list ec2_api" where
  "log_api =
     \<lparr>run_instances = (\<lambda>ri w. (Inr (Some [\<lparr>raw_id = Some ''i-1'', raw_tags = [],
        raw_launch_time = Some 64000000000000000000, raw_state = None\<rparr>]), w @ [ri])),
      terminate_instances = (\<lambda>_ w. (None, w)), stop_instances = (\<lambda>_ w. (None, w)),
      next_page = (\<lambda>_ _ w. (Inr ([], False), w))\<rparr>"

definition log_env :: "run_input list ec2_env" where
  "log_env =
     \<lparr>ee_config = ec2_sample_config,
      ee_runtime = \<lparr>rt_now = (\<lambda>w. (64000000000000000000, w)), rt_order = (\<lambda>ks w. (ks, w)), rt_ctx_err = (\<lambda>w. (None, w)),
        rt_sha256 = (\<lambda>_. []), rt_send = (\<lambda>_ w. (None, w)), rt_done = (\<lambda>w. (None, w))\<rparr>,
      ee_launch = (\<lambda>_ w. (Inl ErrCanceled, w)), ee_list = (\<lambda>_ w. (Inr [], w)),
      ee_stop = (\<lambda>_ w. (None, w)), ee_terminate = (\<lambda>_ w. (None, w)),
      ee_transport_lib = plain_lib, ee_print_table = (\<lambda>_. True), ee_sort = insertion_sort,
      ee_sort_instances = insertion_sort\<rparr>"

lemma log_runtime [simp]:
  "rt_now (ee_runtime log_env) w = (64000000000000000000, w)" "rt_order (ee_runtime log_env) ks w = (ks, w)"
  "rt_ctx_err (ee_runtime log_env) w = (None, w)" "rt_send (ee_runtime log_env) ev w = (None, w)"
  "rt_done (ee_runtime log_env) w = (None, w)" "ee_config log_env = ec2_sample_config"
  by (simp_all add: log_env_def)

lemma log_cloud: "logs_launches (\<lambda>w. w) log_api (ee_runtime log_env)"
  by (simp add: logs_launches_def log_api_def)

lemma sample_lifetime: "duration_string (effective_max_age (ec2_limits ec2_sample_config)) = ''8h0m0s''"
proof -
  have "effective_max_age (ec2_limits ec2_sample_config) = 8 * hour"
    by (simp add: effective_max_age_def ec2_limits_def ec2_sample_config_def ec2_default_config_def
        default_max_instance_age_def hour_def minute_def second_def)
  moreover have "duration_string (8 * hour) = ''8h0m0s''"
  proof -
    have "dec 8 = ''8''" "dec 0 = ''0''" by code_simp+
    then show ?thesis
      by (simp add: duration_string_def duration_body_def hour_def minute_def second_def frac_text_def del: dec.simps)
  qed
  ultimately show ?thesis by simp
qed

lemma log_creation:
  "length (sy_world (snd (run (ec2_process (ec2_on_aws log_api 2 log_env) (ReqCreate (Some plain_sandbox)))
     \<lparr>sy_reg = new_registry (ec2_limits ec2_sample_config), sy_world = []\<rparr>))) = 1"
proof -
  let ?env = "ec2_on_aws log_api 2 log_env"
  let ?s = "\<lparr>sy_reg = new_registry (ec2_limits ec2_sample_config), sy_world = []\<rparr> :: run_input list sys"
  have rt: "rt_now (ee_runtime ?env) w = (64000000000000000000, w)" "rt_order (ee_runtime ?env) ks w = (ks, w)"
    "ee_config ?env = ec2_sample_config" "ee_sort ?env = insertion_sort" "ee_launch ?env = aws_launch log_api"
    "ee_transport_lib ?env = plain_lib" "ee_print_table ?env = (\<lambda>_. True)" for w ks
    by (simp_all add: ec2_on_aws_def log_env_def)
  have sh: "sandbox_resources plain_sandbox = None" "sb_id plain_sandbox = ''sb''"
    "ec2_user_data_params ?env plain_sandbox ''8h0m0s'' = plain_user_data"
    unfolding ec2_user_data_params_def rt
    by (simp_all add: sandbox_resources_def plain_sandbox_def plain_spec_def plain_template_def
        sandbox_token_def sandbox_log_level_def plain_user_data_def ec2_sample_config_def)
  have "ec2_validate_sandbox cpu_keys mem_keys (Some plain_sandbox) = None"
    by (subst ec2_validate_sandbox_core)
      (use no_ctl in \<open>simp_all add: cpu_keys_def mem_keys_def plain_sandbox_def plain_spec_def plain_template_def
        log_levels_def gpu_requested_def\<close>)
  then have v: "run (ec2_validate ?env (Some plain_sandbox)) ?s = (Inr (), ?s)"
    by (simp add: ec2_validate_def exec rt ec2_validate_sandbox_create_def)
  obtain ud where ud: "render_user_data plain_lib (\<lambda>_. True) sec_keys plain_user_data = Inr ud"
    using plain_user_data_rendered by blast
  have launch: "\<exists>i. aws_launch log_api spec w = (Inr i, w @ [launch_input spec])" for spec w
    by (simp add: aws_launch_def log_api_def normalize_instance_def to_string_def Let_def)
  have t: "ee_terminate ?env ids w = (None, w)" for ids w
    by (simp add: ec2_on_aws_def aws_terminate_def log_api_def)
  have "length (sy_world (snd (run (ec2_create_reserved ?env plain_sandbox it ta) s))) = Suc (length (sy_world s))"
    if "limits_are (ec2_limits ec2_sample_config) (sy_reg s)" for s it ta
  proof -
    have lt: "max_lifetime_string (sy_reg s) = ''8h0m0s''"
      using that sample_lifetime by (simp add: max_lifetime_string_def limits_are_def)
    obtain i where i: "aws_launch log_api (ec2_launch_spec ?env plain_sandbox it ud ta ''8h0m0s'') (sy_world s) =
        (Inr i, sy_world s @ [launch_input (ec2_launch_spec ?env plain_sandbox it ud ta ''8h0m0s'')])"
      using launch by blast
    show ?thesis by (simp add: ec2_create_reserved_def exec rt lt sh ud i t Let_def split_def)
  qed
  note reserved = this
  let ?rc = "ec2_launching_record plain_sandbox 64000000000000000000"
  have r: "fst (reserve ?rc (new_registry (ec2_limits ec2_sample_config))) = None"
    by (simp add: reserve_def reserve_with_lease_def new_registry_next effective_max_instances_def
        ec2_limits_def ec2_launching_record_def plain_sandbox_def ec2_sample_config_def ec2_default_config_def
        default_max_instances_def new_registry_def reg_lookup_def Let_def)
  have s: "ec2_select_instance_type (ee_sort ?env) (sandbox_resources plain_sandbox) (e_default_instance (ee_config ?env)) =
      Inr (e_default_instance (ee_config ?env))"
    by (simp add: sh ec2_select_instance_type_def)
  have "limits_are (ec2_limits ec2_sample_config) (snd (reserve ?rc (new_registry (ec2_limits ec2_sample_config))))"
    by (intro limits_ops limits_new)
  note one = reserved [of "?s\<lparr>sy_reg := snd (reserve ?rc (sy_reg ?s))\<rparr>", simplified, OF this]
  show ?thesis
    by (simp add: process_def run_call ec2_create_sandbox_def v s [unfolded rt] exec rt r one split_def)
qed

theorem ec2_launches_conform_witness:
  "\<exists>ri. sy_world (snd (run (ec2_process (ec2_on_aws log_api 2 log_env) (ReqCreate (Some plain_sandbox)))
     \<lparr>sy_reg = new_registry (ec2_limits ec2_sample_config), sy_world = []\<rparr>)) = [ri] \<and>
     launch_conforms ec2_sample_config (\<lambda>_. True) ''8h0m0s'' ri"
proof -
  let ?p = "ec2_process (ec2_on_aws log_api 2 log_env) (ReqCreate (Some plain_sandbox))"
  let ?s = "\<lparr>sy_reg = new_registry (ec2_limits ec2_sample_config), sy_world = []\<rparr> :: run_input list sys"
  obtain ri where ri: "sy_world (snd (run ?p ?s)) = [ri]"
    using log_creation by (metis One_nat_def length_0_conv length_Suc_conv)
  have c: "aws_reach (\<lambda>w. w) log_api 2 log_env ([Ret (fst (run ?p ?s))], snd (run ?p ?s))"
    unfolding aws_reach_def by (rule reach_one) (simp add: starts_def, blast)
  have f: "fair_order (ee_runtime log_env)" by (simp add: fair_order_def)
  have "ee_print_table log_env = (\<lambda>_. True)" by (simp add: log_env_def)
  with ec2_launches_conform [OF c log_cloud f] ri sample_lifetime show ?thesis by simp
qed

end
