(* ===== verification/KvDeletion.thy ===== *)
theory KvDeletion
  imports Systems
begin

text \<open>
  A deletion that is accepted while the machine is being launched, among concurrent
  requests. The mark it leaves on the reservation is kept by every step of every request
  and watch stream, so the launch it was accepted against cannot commit. A poll is the one
  thing that can take the mark away.
\<close>

section \<open>The mark\<close>

definition deletion_marked :: "64 word \<Rightarrow> srecord \<Rightarrow> bool" where
  "deletion_marked l rc \<longleftrightarrow>
     r_instance_id rc = [] \<and> r_lease rc = l \<and>
     r_state rc \<in> {''delete-requested'', ''deleting'', ''stopping''}"

definition deletion_holds :: "bytestr \<Rightarrow> 64 word \<Rightarrow> registry \<Rightarrow> bool" where
  "deletion_holds i l r \<longleftrightarrow> (\<exists>rc. reg_lookup r i = Some rc \<and> deletion_marked l rc)"

lemma marked_clone [simp]: "deletion_marked l (clone_record rc) = deletion_marked l rc"
  by (simp add: deletion_marked_def)

text \<open>No guarded update of a request takes the mark away.\<close>

lemma marked_guards:
  "deletion_marked l rc \<Longrightarrow> \<not> kv_may_commit l' (clone_record rc)"
  "deletion_marked l rc \<Longrightarrow> \<not> kv_launching (clone_record rc)"
  "deletion_marked l rc \<Longrightarrow> deletion_marked l (kv_mark ''stopping'' t rc)"
  "deletion_marked l rc \<Longrightarrow> deletion_marked l (kv_mark ''deleting'' t rc)"
  by (auto simp: deletion_marked_def kv_may_commit_def kv_launching_def kv_mark_def)

lemma holds_update_if:
  assumes "deletion_holds i l r"
    and "\<And>rc. deletion_marked l rc \<Longrightarrow> p (clone_record rc) \<Longrightarrow> deletion_marked l (fn rc)"
  shows "deletion_holds i l (snd (update_if k p fn r))"
proof (cases "\<exists>rc. reg_lookup r k = Some rc \<and> p (clone_record rc)")
  case True
  then obtain rc where rc: "reg_lookup r k = Some rc" "p (clone_record rc)" by blast
  from update_if_hit [where p = p and r = r, OF rc] assms rc show ?thesis by (auto simp: deletion_holds_def)
next
  case False
  then have "update_if k p fn r = ((zero_record, False), r)" by (intro update_if_miss) auto
  with assms(1) show ?thesis by simp
qed

lemma holds_same_lookup: "reg_lookup r' = reg_lookup r \<Longrightarrow> deletion_holds i l r \<Longrightarrow> deletion_holds i l r'"
  by (simp add: deletion_holds_def)

lemma holds_add: "deletion_holds i l r \<Longrightarrow> deletion_holds i l (snd (add_record (Some rc) r))"
  by (auto simp: deletion_holds_def add_lookup)

lemma holds_watchers:
  "deletion_holds i l r \<Longrightarrow> deletion_holds i l (snd (unit_op (broadcast_sandbox b) r))"
  "deletion_holds i l r \<Longrightarrow> deletion_holds i l (snd (read_op g r))"
  "deletion_holds i l r \<Longrightarrow> deletion_holds i l (snd (subscribe ks r))"
  "deletion_holds i l r \<Longrightarrow> deletion_holds i l (snd (poll_chan ch r))"
  "deletion_holds i l r \<Longrightarrow> deletion_holds i l (snd (unit_op (remove_watcher ch) r))"
  by (auto simp: deletion_holds_def op_defs broadcast_sandbox_def poll_chan_def subscribe_def
      receive_def remove_watcher_def close_chan_def Let_def reg_lookup_def split: list.split)

lemmas holds_ops = holds_add holds_watchers

lemma holds_rollback: "deletion_holds i l r \<Longrightarrow> k \<noteq> i \<Longrightarrow> deletion_holds i l (snd (unit_op (rollback k) r))"
  by (cases "reg_lookup r k") (auto simp: deletion_holds_def op_defs rollback_lookup)

lemma holds_reserve:
  assumes "deletion_holds i l r"
  shows "deletion_holds i l (snd (reserve_with_lease rc r))"
    and "fst (reserve_with_lease rc r) = Inr l' \<Longrightarrow> r_sandbox_id rc \<noteq> i"
  using assms by (auto simp: deletion_holds_def reserve_with_lease_def Let_def split: if_splits)

section \<open>Every request keeps it\<close>

lemma holds_fail: "preserves (in_reg (deletion_holds i l)) (kv_fail env e)"
  by (rule kv_fail_preserves)

lemma holds_commit: "preserves (in_reg (deletion_holds i l)) (kv_commit_launch env sb lease t x)"
  unfolding kv_commit_launch_def
  by (intro inv_intro holds_ops holds_update_if) (auto dest: marked_guards)

lemma holds_create_reserved:
  "preserves (in_reg (deletion_holds i l)) (kv_create_reserved env sb it t lease)"
  unfolding kv_create_reserved_def by (intro inv_intro holds_ops holds_commit holds_fail)

lemma holds_create: "preserves (in_reg (deletion_holds i l)) (kv_create_sandbox env sbo)"
proof -
  have reserve: "preserves (in_reg (deletion_holds i l))
      (act (on_reg (reserve_with_lease (kv_launching_record sb t))) (\<lambda>reserved.
         case reserved of
           Inl e \<Rightarrow> Ret (Inl (reserve_status e))
         | Inr lease \<Rightarrow>
             call (kv_create_reserved env sb it t lease) (\<lambda>(res, rollback_it).
               if rollback_it then act (on_reg (unit_op (rollback (sb_id sb)))) (\<lambda>_. Ret res)
               else Ret res)))" for sb t it
  proof (rule preserves_act_dep, rule conjI)
    fix s assume s: "in_reg (deletion_holds i l) s"
    let ?a = "reserve_with_lease (kv_launching_record sb t) (sy_reg s)"
    have h: "deletion_holds i l (sy_reg s)" using s by (simp add: in_reg_def)
    show "in_reg (deletion_holds i l) (snd (on_reg (reserve_with_lease (kv_launching_record sb t)) s))"
      using holds_reserve(1) [OF h] by (simp add: on_reg_def in_reg_def split_def)
    have "sb_id sb \<noteq> i" if "fst ?a = Inr lease" for lease
      using holds_reserve(2) [OF h that] by (simp add: kv_launching_record_def)
    then show "preserves (in_reg (deletion_holds i l))
       (case fst (on_reg (reserve_with_lease (kv_launching_record sb t)) s) of
           Inl e \<Rightarrow> Ret (Inl (reserve_status e))
         | Inr lease \<Rightarrow>
             call (kv_create_reserved env sb it t lease) (\<lambda>(res, rollback_it).
               if rollback_it then act (on_reg (unit_op (rollback (sb_id sb)))) (\<lambda>_. Ret res)
               else Ret res))"
      by (auto simp: on_reg_def split_def split: sum.split
          intro!: preserves_call holds_create_reserved preserves_on_reg holds_rollback)
  qed
  show ?thesis unfolding kv_create_sandbox_def now_of_def
    by (rule reserve preserves_call kv_validate_preserves preserves_sum preserves_option preserves_Ret
        preserves_on_world)+
qed

lemma holds_resolve: "preserves (in_reg (deletion_holds i l)) (kv_resolve env j nm)"
  unfolding kv_resolve_def kv_resolve_remote_def kv_resolve_adopt_def
  by (intro inv_intro holds_ops holds_update_if) (auto dest: marked_guards)

lemma holds_mark_same:
  "st \<in> {''stopping'', ''deleting''} \<Longrightarrow> preserves (in_reg (deletion_holds i l)) (kv_mark_same env rc st answer)"
  unfolding kv_mark_same_def by (intro inv_intro holds_ops holds_update_if) (auto dest: marked_guards)

lemma holds_delete: "preserves (in_reg (deletion_holds i l)) (kv_delete_sandbox env req)"
  unfolding kv_delete_sandbox_def kv_mark_launching_deletion_def kv_mark_one_def
  by (intro inv_intro holds_ops holds_update_if holds_resolve holds_mark_same holds_fail) (auto dest: marked_guards)

lemma holds_watch: "preserves (in_reg (deletion_holds i l)) (watch_sandboxes rt fuel)"
proof -
  have "preserves (in_reg (deletion_holds i l)) (watch_loop rt ch fuel)" for ch
    by (induction fuel) (auto intro!: inv_intro holds_ops)
  then show ?thesis unfolding watch_sandboxes_def by (intro inv_intro holds_ops)
qed

text \<open>The requests and streams of a client; polls are left out.\<close>

definition client_request :: "request \<Rightarrow> bool" where
  "client_request q \<longleftrightarrow> q \<noteq> ReqInitialize \<and> (\<forall>fuel. q \<noteq> ReqWatcher fuel)"

lemma holds_request: "client_request q \<Longrightarrow> preserves (in_reg (deletion_holds i l)) (kv_process env q)"
  by (cases q) (auto simp: client_request_def kv_get_sandbox_def kv_list_sandboxes_def kv_stop_sandbox_def
      intro!: inv_intro holds_create holds_resolve holds_mark_same holds_delete holds_watch holds_fail)


section \<open>The deletion marks the reservation\<close>

lemma delete_marks:
  assumes "reg_ok (sy_reg s)" and "fair_order (ke_runtime env)"
    and "reg_lookup (sy_reg s) i = Some rc" and l: "kv_launching rc"
    and "means_reservation (sy_reg s) req rc"
  shows "fst (run (kv_delete_sandbox env req) s) = Inr True \<and>
    deletion_holds i (r_lease rc) (sy_reg (snd (run (kv_delete_sandbox env req) s)))"
proof -
  have "deletion_marked (r_lease rc) (kv_delete_requested t rc)" for t
    using l by (simp add: deletion_marked_def kv_delete_requested_def kv_launching_def)
  with kv_delete_launching_run [OF assms] show ?thesis by (auto simp: deletion_holds_def)
qed

section \<open>An accepted deletion cancels the launch\<close>

text \<open>
  The configurations that follow a state while only clients are at work: any number of
  requests and streams, their steps interleaved, and the world moving as it likes.
\<close>

definition clients_reach :: "'w kv_env \<Rightarrow> 'w sys \<Rightarrow> ('w sys, unit) config \<Rightarrow> bool" where
  "clients_reach env s = reach (\<lambda>p. \<exists>q. client_request q \<and> p = kv_process env q) world_moves (\<lambda>t. t = s)"

text \<open>C3: A deletion that refers to a sandbox still being launched, by its id or by a name no
  other reservation has, is accepted, and the launch cannot win against it: whatever requests
  and watch streams begin after the deletion, however their steps interleave and the cluster
  moves, the commit of that launch is refused, the termination of the launched machine is
  requested, and the rollback frees the id. Polls are not among the steps between: a poll can
  take the mark away, which is shown among the defects in \<open>KvTheorems\<close>.\<close>

theorem kv_accepted_delete_cancels_launch:
  assumes "core_inv (sy_reg s)" and "fair_order (ke_runtime env)"
    and "reg_lookup (sy_reg s) (sb_id sb) = Some rc" and "kv_launching rc"
    and "means_reservation (sy_reg s) req rc"
    and "run (kv_delete_sandbox env req) s = (res, s1)"
    and "clients_reach env s1 (ps, s2)"
  shows "res = Inr True \<and>
    run (kv_commit_launch env sb (r_lease rc) t i) s2 =
      ((Inl (Status Internal (ErrNew ''launched VM could not be committed; cleanup requested'')), True),
       s2\<lparr>sy_world := snd (ke_terminate env (v_vm_name i) (sy_world s2))\<rparr>) \<and>
    reg_lookup (rollback (sb_id sb) (sy_reg s2)) (sb_id sb) = None"
proof -
  have ok: "reg_ok (sy_reg s)" using assms(1) by (simp add: core_inv_def)
  from delete_marks [OF ok assms(2-5)] assms(6) have
    r: "res = Inr True" and s1: "deletion_holds (sb_id sb) (r_lease rc) (sy_reg s1)" by simp_all
  let ?I = "in_reg (deletion_holds (sb_id sb) (r_lease rc))"
  have "?I (snd (ps, s2)) \<and> (\<forall>p \<in> set (fst (ps, s2)). preserves ?I p)"
  proof (rule reach_preserves [OF assms(7) [unfolded clients_reach_def]])
    fix p :: "('a sys, unit) prog" assume "\<exists>q. client_request q \<and> p = kv_process env q"
    then show "preserves ?I p" using holds_request by blast
  qed (use s1 world_moves_in_reg in \<open>auto simp: in_reg_def [of _ s1]\<close>)
  then obtain x where x: "reg_lookup (sy_reg s2) (sb_id sb) = Some x" "deletion_marked (r_lease rc) x"
    by (auto simp: in_reg_def deletion_holds_def)
  have "run (kv_commit_launch env sb (r_lease rc) t i) s2 =
      ((Inl (Status Internal (ErrNew ''launched VM could not be committed; cleanup requested'')), True),
       s2\<lparr>sy_world := snd (ke_terminate env (v_vm_name i) (sy_world s2))\<rparr>)"
    by (rule kv_commit_refused_run) (use x marked_guards(1) in auto)
  moreover have "reg_lookup (rollback (sb_id sb) (sy_reg s2)) (sb_id sb) = None"
    using x by (simp add: rollback_lookup deletion_marked_def)
  ultimately show ?thesis using r by blast
qed

theorem kv_accepted_delete_cancels_launch_witness:
  "\<exists>s1. run (kv_delete_sandbox (demo_kv []) \<lparr>ref_id = ''sb'', ref_name = []\<rparr>) launching_sys = (Inr True, s1) \<and>
     (let s2 = snd (run (kv_process (demo_kv []) (ReqStop \<lparr>ref_id = ''sb'', ref_name = []\<rparr>)) s1)
      in fst (run (kv_commit_launch (demo_kv []) plain_sandbox 1 5 demo_vm) s2) =
       (Inl (Status Internal (ErrNew ''launched VM could not be committed; cleanup requested'')), True))"
proof -
  let ?req = "\<lparr>ref_id = ''sb'', ref_name = []\<rparr>"
  let ?q = "kv_process (demo_kv []) (ReqStop ?req)"
  obtain rc where rc: "reg_lookup (sy_reg launching_sys) ''sb'' = Some rc" "kv_launching rc" "r_lease rc = 1"
    using launching_sys_lookup by blast
  obtain res s1 where r: "run (kv_delete_sandbox (demo_kv []) ?req) launching_sys = (res, s1)" by fastforce
  have id: "sb_id plain_sandbox = ''sb''" by (simp add: plain_sandbox_def)
  have f: "fair_order (ke_runtime (demo_kv []))" by (simp add: demo_fair)
  have "r_sandbox_id rc = ''sb''"
    using reg_okD [of "sy_reg launching_sys"] launching_sys_inv rc(1) by (simp add: core_inv_def)
  then have m: "means_reservation (sy_reg launching_sys) ?req rc" by (simp add: means_reservation_def)
  have c: "clients_reach (demo_kv []) s1 ([Ret (fst (run ?q s1))], snd (run ?q s1))"
    unfolding clients_reach_def by (rule reach_one) (simp, auto simp: client_request_def)
  from kv_accepted_delete_cancels_launch [OF launching_sys_inv f _ rc(2) m r c, of plain_sandbox 5 demo_vm] rc r id
  show ?thesis by (simp add: Let_def)
qed

end
