(* ===== verification/RegistryRefinement.thy ===== *)
theory RegistryRefinement
  imports Watchers
begin

text \<open>
  The registry of pkg/safeguards implements a map. The abstract store is a partial map
  from sandbox ids to records and the last lease; its operations are those of the
  registry's interface, each in one or two equations, with the capacity read as the number
  of sandboxes. The registry, with its association list, its copies and its watcher
  channels, gives the same answers as the store to every sequence of operations.
\<close>

section \<open>The abstract store\<close>

type_synonym store = "(bytestr \<rightharpoonup> srecord) \<times> 64 word"

definition redacted :: "srecord \<Rightarrow> srecord" where
  "redacted rc = rc\<lparr>r_spec := map_option (\<lambda>s. s\<lparr>sp_sandbox_token := []\<rparr>) (r_spec rc)\<rparr>"

text \<open>The operations of the interface; the last four act on watchers only.\<close>

datatype reg_op =
  OpReserve srecord | OpAdd "srecord option" | OpGet bytestr | OpDelete bytestr | OpRollback bytestr
| OpUpdateIf bytestr "srecord \<Rightarrow> bool" "srecord \<Rightarrow> srecord"
| OpDeleteIf bytestr "srecord \<Rightarrow> bool" | OpCount
| OpSubscribe "bytestr list" | OpBroadcast watch_event | OpReceive nat | OpRemoveWatcher nat

datatype answer =
  AnsLease "goerr + 64 word" | AnsError "goerr option" | AnsFound "srecord option" | AnsCount int | AnsDone

definition exists_error :: "bytestr \<Rightarrow> goerr" where
  "exists_error i = ErrWrap ''%w: %q'' [AStr i] ErrExists"

definition capacity_error :: "nat \<Rightarrow> limits \<Rightarrow> goerr" where
  "capacity_error n l =
     ErrWrap ''%w (%d/%d)'' [AInt (int n), AInt (effective_max_instances l)] ErrCapacity"

fun store_step :: "limits \<Rightarrow> reg_op \<Rightarrow> store \<Rightarrow> answer \<times> store" where
  "store_step l (OpReserve rc) (m, n) =
     (if r_sandbox_id rc \<in> dom m then (AnsLease (Inl (exists_error (r_sandbox_id rc))), (m, n))
      else if int (card (dom m)) \<ge> effective_max_instances l
      then (AnsLease (Inl (capacity_error (card (dom m)) l)), (m, n))
      else (AnsLease (Inr (n + 1)), (m(r_sandbox_id rc \<mapsto> redacted (rc\<lparr>r_lease := n + 1\<rparr>)), n + 1)))"
| "store_step l (OpAdd None) s = (AnsError (Some (ErrNew ''record is nil'')), s)"
| "store_step l (OpAdd (Some rc)) (m, n) =
     (if r_sandbox_id rc \<in> dom m then (AnsError (Some (exists_error (r_sandbox_id rc))), (m, n))
      else if r_lease rc = 0
      then (AnsError None, (m(r_sandbox_id rc \<mapsto> redacted (rc\<lparr>r_lease := n + 1\<rparr>)), n + 1))
      else (AnsError None, (m(r_sandbox_id rc \<mapsto> redacted rc), n)))"
| "store_step l (OpGet i) (m, n) = (AnsFound (m i), (m, n))"
| "store_step l (OpDelete i) (m, n) = (AnsFound (m i), (m(i := None), n))"
| "store_step l (OpRollback i) (m, n) =
     (AnsDone, (if \<exists>rc. m i = Some rc \<and> r_instance_id rc = [] then m(i := None) else m, n))"
| "store_step l (OpUpdateIf i p f) (m, n) =
     (case m i of
        Some rc \<Rightarrow>
          if p rc then (AnsFound (Some (redacted (f rc))), (m(i \<mapsto> redacted (f rc)), n)) else (AnsFound None, (m, n))
      | None \<Rightarrow> (AnsFound None, (m, n)))"
| "store_step l (OpDeleteIf i p) (m, n) =
     (case m i of
        Some rc \<Rightarrow> if p rc then (AnsFound (Some rc), (m(i := None), n)) else (AnsFound None, (m, n))
      | None \<Rightarrow> (AnsFound None, (m, n)))"
| "store_step l OpCount (m, n) = (AnsCount (int (card (dom m))), (m, n))"
| "store_step l (OpSubscribe ks) s = (AnsDone, s)"
| "store_step l (OpBroadcast ev) s = (AnsDone, s)"
| "store_step l (OpReceive ch) s = (AnsDone, s)"
| "store_step l (OpRemoveWatcher ch) s = (AnsDone, s)"

section \<open>The registry's side\<close>

text \<open>Go's answer pairs: the record counts when the flag says so.\<close>

definition found :: "srecord \<times> bool \<Rightarrow> srecord option" where
  "found a = (if snd a then Some (fst a) else None)"

primrec reg_step :: "reg_op \<Rightarrow> registry \<Rightarrow> answer \<times> registry" where
  "reg_step (OpReserve rc) r = map_prod AnsLease id (reserve_with_lease rc r)"
| "reg_step (OpAdd rco) r = map_prod AnsError id (add_record rco r)"
| "reg_step (OpGet i) r = (AnsFound (found (get_record i r)), r)"
| "reg_step (OpDelete i) r = map_prod (AnsFound \<circ> found) id (delete_record i r)"
| "reg_step (OpRollback i) r = (AnsDone, rollback i r)"
| "reg_step (OpUpdateIf i p f) r = map_prod (AnsFound \<circ> found) id (update_if i p f r)"
| "reg_step (OpDeleteIf i p) r = map_prod (AnsFound \<circ> found) id (delete_if i p r)"
| "reg_step OpCount r = (AnsCount (count_records r), r)"
| "reg_step (OpSubscribe ks) r = (AnsDone, snd (subscribe ks r))"
| "reg_step (OpBroadcast ev) r = (AnsDone, broadcast ev r)"
| "reg_step (OpReceive ch) r = (AnsDone, snd (receive ch r))"
| "reg_step (OpRemoveWatcher ch) r = (AnsDone, remove_watcher ch r)"

text \<open>The answers of a sequence of operations, and the state after it.\<close>

fun run_ops :: "('op \<Rightarrow> 's \<Rightarrow> 'a \<times> 's) \<Rightarrow> 'op list \<Rightarrow> 's \<Rightarrow> 'a list \<times> 's" where
  "run_ops step [] s = ([], s)"
| "run_ops step (op # ops) s =
     (case step op s of (a, s') \<Rightarrow> (case run_ops step ops s' of (as, s'') \<Rightarrow> (a # as, s'')))"

definition abs_store :: "registry \<Rightarrow> store" where
  "abs_store r = (reg_lookup r, reg_next_lease r)"

section \<open>The simulation\<close>

definition store_inv :: "limits \<Rightarrow> registry \<Rightarrow> bool" where
  "store_inv l r \<longleftrightarrow>
     distinct (map fst (reg_records r)) \<and> reg_limits r = l \<and>
     (\<forall>i rc. reg_lookup r i = Some rc \<longrightarrow> clone_record rc = rc)"

text \<open>An operation simulates its abstract one: the same answer, and related states after it.\<close>

definition simulates :: "limits \<Rightarrow> reg_op \<Rightarrow> registry \<Rightarrow> bool" where
  "simulates l op r \<longleftrightarrow>
     store_inv l (snd (reg_step op r)) \<and>
     fst (reg_step op r) = fst (store_step l op (abs_store r)) \<and>
     abs_store (snd (reg_step op r)) = snd (store_step l op (abs_store r))"

lemma redacted_clone: "redacted = clone_record"
  by (rule ext) (simp add: redacted_def clone_record_def clone_redacted_spec_def clone_status_def)

lemma card_lookup:
  assumes "distinct (map fst (reg_records r))"
  shows "card (dom (reg_lookup r)) = length (reg_records r)"
proof -
  have "dom (reg_lookup r) = set (map fst (reg_records r))"
    by (simp add: reg_lookup_def dom_map_of_conv_image_fst)
  then show ?thesis using distinct_card [OF assms] by simp
qed

text \<open>A write of a copied record and a removal keep the invariant.\<close>

lemma store_inv_update:
  "store_inv l r \<Longrightarrow>
   store_inv l (r\<lparr>reg_next_lease := n, reg_records := AList.update i (clone_record rc) (reg_records r)\<rparr>)"
  "store_inv l r \<Longrightarrow> store_inv l (r\<lparr>reg_records := AList.update i (clone_record rc) (reg_records r)\<rparr>)"
  by (simp_all add: store_inv_def distinct_update)

lemma store_inv_delete:
  "store_inv l r \<Longrightarrow> store_inv l (r\<lparr>reg_records := AList.delete i (reg_records r)\<rparr>)"
  by (simp add: store_inv_def distinct_delete)

lemma store_inv_copy: "store_inv l r \<Longrightarrow> reg_lookup r i = Some rc \<Longrightarrow> clone_record rc = rc"
  by (simp add: store_inv_def)

lemma store_inv_size: "store_inv l r \<Longrightarrow> card (dom (reg_lookup r)) = length (reg_records r)"
  by (simp add: store_inv_def card_lookup)

lemma store_inv_limits: "store_inv l r \<Longrightarrow> reg_limits r = l"
  by (simp add: store_inv_def)

lemmas store_inv_keeps = store_inv_update store_inv_delete

lemma sim_reserve: "store_inv l r \<Longrightarrow> simulates l (OpReserve rc) r"
  by (cases "reg_lookup r (r_sandbox_id rc)")
    (simp_all add: simulates_def reserve_with_lease_def abs_store_def Let_def store_inv_size store_inv_limits
      store_inv_keeps redacted_clone exists_error_def capacity_error_def domIff)

lemma sim_add: "store_inv l r \<Longrightarrow> simulates l (OpAdd (Some rc)) r"
  by (cases "reg_lookup r (r_sandbox_id rc)")
    (simp_all add: simulates_def add_record_def abs_store_def Let_def
      store_inv_keeps redacted_clone exists_error_def domIff)

lemma sim_get: "store_inv l r \<Longrightarrow> simulates l (OpGet i) r"
  by (cases "reg_lookup r i")
    (simp_all add: simulates_def get_record_def found_def abs_store_def store_inv_copy)

lemma sim_delete: "store_inv l r \<Longrightarrow> simulates l (OpDelete i) r"
  by (cases "reg_lookup r i")
    (simp_all add: simulates_def delete_record_def get_record_def found_def abs_store_def store_inv_copy
      store_inv_delete)

lemma sim_rollback: "store_inv l r \<Longrightarrow> simulates l (OpRollback i) r"
  by (cases "reg_lookup r i")
    (simp_all add: simulates_def rollback_def abs_store_def store_inv_delete)

lemma sim_update_if: "store_inv l r \<Longrightarrow> simulates l (OpUpdateIf i p f) r"
  by (cases "reg_lookup r i")
    (simp_all add: simulates_def update_if_def found_def abs_store_def Let_def store_inv_copy store_inv_keeps
      redacted_clone)

lemma sim_delete_if: "store_inv l r \<Longrightarrow> simulates l (OpDeleteIf i p) r"
  by (cases "reg_lookup r i")
    (simp_all add: simulates_def delete_if_def found_def abs_store_def store_inv_copy store_inv_delete)

lemma sim_count: "store_inv l r \<Longrightarrow> simulates l OpCount r"
  by (simp add: simulates_def count_records_def abs_store_def store_inv_size)

text \<open>An operation on watchers leaves the records, the limits and the leases alone.\<close>

definition same_store :: "registry \<Rightarrow> registry \<Rightarrow> bool" where
  "same_store r r' \<longleftrightarrow>
     reg_records r' = reg_records r \<and> reg_limits r' = reg_limits r \<and> reg_next_lease r' = reg_next_lease r"

lemma same_store_subscribe: "same_store r (snd (subscribe ks r))"
  by (simp add: same_store_def subscribe_def)

lemma same_store_close: "same_store r (close_chan ch r)"
  by (simp add: same_store_def close_chan_def)

lemma same_store_send: "same_store r (send_or_drop ev ch r)"
  by (simp add: same_store_def close_chan_def send_or_drop_def Let_def)

lemma same_store_remove: "same_store r (remove_watcher ch r)"
  by (simp add: same_store_def remove_watcher_def close_chan_def)

lemma same_store_receive: "same_store r (snd (receive ch r))"
  by (simp add: same_store_def receive_def Let_def split: list.split)

lemma same_store_fold: "same_store r (fold (send_or_drop ev) chs r)"
proof (induction chs arbitrary: r)
  case (Cons ch chs)
  from Cons.IH [of "send_or_drop ev ch r"] same_store_send [of r ev ch] show ?case
    by (simp add: same_store_def)
qed (simp add: same_store_def)

lemma same_store_broadcast: "same_store r (broadcast ev r)"
  by (simp add: broadcast_def same_store_fold)

lemma same_store_sim:
  "same_store r r' \<Longrightarrow> store_inv l r \<Longrightarrow> store_inv l r' \<and> abs_store r' = abs_store r"
  by (simp add: same_store_def store_inv_def abs_store_def reg_lookup_def)

lemma sim_watchers:
  assumes "store_inv l r"
  shows "simulates l (OpSubscribe ks) r" "simulates l (OpBroadcast ev) r"
    "simulates l (OpReceive ch) r" "simulates l (OpRemoveWatcher ch) r"
  using same_store_sim [OF same_store_subscribe assms] same_store_sim [OF same_store_broadcast assms]
    same_store_sim [OF same_store_receive assms] same_store_sim [OF same_store_remove assms]
  by (simp_all add: simulates_def)

lemma reg_step_simulates:
  assumes "store_inv l r"
  shows "simulates l op r"
proof (cases op)
  case (OpAdd rco)
  with assms show ?thesis
    by (cases rco) (simp_all add: sim_add, simp add: simulates_def add_record_def)
qed (use assms in \<open>simp_all add: sim_reserve sim_get sim_delete sim_rollback sim_update_if sim_delete_if
  sim_count sim_watchers\<close>)

lemma run_ops_simulates:
  assumes "store_inv l r"
  shows "fst (run_ops reg_step ops r) = fst (run_ops (store_step l) ops (abs_store r)) \<and>
    abs_store (snd (run_ops reg_step ops r)) = snd (run_ops (store_step l) ops (abs_store r))"
  using assms
proof (induction ops arbitrary: r)
  case (Cons op ops)
  obtain a r' where reg: "reg_step op r = (a, r')" by fastforce
  from reg_step_simulates [OF Cons.prems, of op] reg have "store_inv l r'"
    and "store_step l op (abs_store r) = (a, abs_store r')"
    by (auto simp: simulates_def prod_eq_iff)
  with Cons.IH [OF this(1)] reg show ?case by (simp add: case_prod_beta)
qed simp

lemma store_inv_new: "store_inv l (new_registry l)"
  by (simp add: store_inv_def) (simp add: new_registry_def)

text \<open>
  C8: C0. The registry refines the abstract store: from an empty registry, every sequence of
  reservations, additions, lookups, deletions, rollbacks, guarded updates and deletions,
  counts and watcher operations is answered, errors included, as the partial map answers
  it, and leaves the registry holding that map and that last lease.
\<close>

theorem registry_refines_store:
  "fst (run_ops reg_step ops (new_registry l)) = fst (run_ops (store_step l) ops (Map.empty, 0)) \<and>
   abs_store (snd (run_ops reg_step ops (new_registry l))) = snd (run_ops (store_step l) ops (Map.empty, 0))"
proof -
  have "abs_store (new_registry l) = (Map.empty, 0)"
    by (simp add: abs_store_def) (simp add: new_registry_def)
  with run_ops_simulates [OF store_inv_new, of ops l] show ?thesis by simp
qed

end
