(* ===== verification/WatchStream.thy ===== *)
theory WatchStream
  imports RegistryTheorems
begin

text \<open>
  The end of a watch stream. The registry closes the channel of a watcher that fell
  behind; what was buffered until then is still sent, in order, and the stream then ends
  with the status that asks for a reconnection.
\<close>

text \<open>
  A stream that is open: its context is not done and every send succeeds, which
  \<open>sent\<close> reads off the world.
\<close>

definition open_stream :: "'w runtime \<Rightarrow> ('w \<Rightarrow> watch_event list) \<Rightarrow> bool" where
  "open_stream rt sent \<longleftrightarrow>
     (\<forall>w. fst (rt_done rt w) = None \<and> sent (snd (rt_done rt w)) = sent w \<and>
        (\<forall>ev. fst (rt_send rt ev w) = None \<and> sent (snd (rt_send rt ev w)) = sent w @ [ev]))"

text \<open>One round of the loop on an open stream.\<close>

lemma open_stream_done:
  "open_stream rt sent \<Longrightarrow> \<exists>w'. rt_done rt w = (None, w') \<and> sent w' = sent w"
  by (rule exI [of _ "snd (rt_done rt w)"]) (simp add: open_stream_def prod_eq_iff)

lemma open_stream_send:
  "open_stream rt sent \<Longrightarrow> \<exists>w'. rt_send rt ev w = (None, w') \<and> sent w' = sent w @ [ev]"
  by (rule exI [of _ "snd (rt_send rt ev w)"]) (simp add: open_stream_def prod_eq_iff)

lemma poll_chan_closed:
  assumes "ch < length (reg_chans r)" and "reg_chans r ! ch = \<lparr>ch_buf = evs, ch_closed = True\<rparr>"
  shows "evs = [] \<Longrightarrow> poll_chan ch r = (Some None, r)"
    and "evs = e # es \<Longrightarrow> poll_chan ch r =
      (Some (Some e), r\<lparr>reg_chans := (reg_chans r)[ch := \<lparr>ch_buf = es, ch_closed = True\<rparr>]\<rparr>)"
  using assms by (simp_all add: poll_chan_def receive_def Let_def)

lemma watch_loop_drains:
  assumes "open_stream rt sent" and "ch < length (reg_chans (sy_reg s))"
    and "reg_chans (sy_reg s) ! ch = \<lparr>ch_buf = evs, ch_closed = True\<rparr>" and "length evs < fuel"
  shows "\<exists>s'. run (watch_loop rt ch fuel) s =
      (Some (WatchStatus (Status Aborted
         (ErrNew ''watcher fell behind; reconnect for a fresh snapshot''))), s') \<and>
    sent (sy_world s') = sent (sy_world s) @ evs"
  using assms(2-)
proof (induction fuel arbitrary: s evs)
  case (Suc fuel)
  obtain w where w: "rt_done rt (sy_world s) = (None, w)" "sent w = sent (sy_world s)"
    using open_stream_done [OF assms(1)] by blast
  show ?case
  proof (cases evs)
    case Nil
    from poll_chan_closed(1) [OF Suc.prems(1,2) Nil] w Nil show ?thesis by (simp add: exec)
  next
    case (Cons e es)
    let ?r = "(sy_reg s)\<lparr>reg_chans := (reg_chans (sy_reg s))[ch := \<lparr>ch_buf = es, ch_closed = True\<rparr>]\<rparr>"
    obtain w' where w': "rt_send rt e w = (None, w')" "sent w' = sent w @ [e]"
      using open_stream_send [OF assms(1)] by blast
    have step: "run (watch_loop rt ch (Suc fuel)) s = run (watch_loop rt ch fuel) (s\<lparr>sy_reg := ?r, sy_world := w'\<rparr>)"
      using poll_chan_closed(2) [OF Suc.prems(1,2) Cons] w(1) w'(1) by (simp add: exec)
    with Suc.IH [of "s\<lparr>sy_reg := ?r, sy_world := w'\<rparr>" es] Suc.prems w(2) w'(2) Cons show ?thesis by simp
  qed
qed simp

text \<open>C13: A watch stream whose channel the registry closed sends what is left in the buffer,
  in order, and then ends with Aborted, asking for a reconnection, within 65 rounds of its
  loop: one for each event the buffer can hold, and one.\<close>

theorem disconnected_stream_drains:
  assumes "open_stream rt sent" and "watch_ok (sy_reg s)" and "ch < length (reg_chans (sy_reg s))"
    and "ch_closed (reg_chans (sy_reg s) ! ch)"
  shows "\<exists>s'. run (watch_loop rt ch 65) s =
      (Some (WatchStatus (Status Aborted
         (ErrNew ''watcher fell behind; reconnect for a fresh snapshot''))), s') \<and>
    sent (sy_world s') = sent (sy_world s) @ ch_buf (reg_chans (sy_reg s) ! ch)"
proof (rule watch_loop_drains [OF assms(1,3)])
  show "reg_chans (sy_reg s) ! ch = \<lparr>ch_buf = ch_buf (reg_chans (sy_reg s) ! ch), ch_closed = True\<rparr>"
    using assms(4) by (cases "reg_chans (sy_reg s) ! ch") simp
  show "length (ch_buf (reg_chans (sy_reg s) ! ch)) < 65"
    using assms(2) nth_mem [OF assms(3)] by (fastforce simp: watch_ok_def watch_buffer_size_def)
qed

definition log_runtime :: "watch_event list runtime" where
  "log_runtime =
     \<lparr>rt_now = (\<lambda>w. (64000000000000000000, w)), rt_order = (\<lambda>ks w. (ks, w)), rt_ctx_err = (\<lambda>w. (None, w)),
      rt_sha256 = (\<lambda>_. []), rt_send = (\<lambda>ev w. (None, w @ [ev])), rt_done = (\<lambda>w. (None, w))\<rparr>"

text \<open>A registry whose only watcher was disconnected with two events in its buffer.\<close>

definition cut_off :: "watch_event list sys" where
  "cut_off =
     \<lparr>sy_reg = (new_registry demo_limits)
        \<lparr>reg_chans := [\<lparr>ch_buf = [EvDeleted ''a'', EvDeleted ''b''], ch_closed = True\<rparr>]\<rparr>,
      sy_world = []\<rparr>"

theorem disconnected_stream_drains_witness:
  "sy_world (snd (run (watch_loop log_runtime 0 65) cut_off)) = [EvDeleted ''a'', EvDeleted ''b'']"
proof -
  have "open_stream log_runtime id" by (simp add: open_stream_def log_runtime_def)
  moreover have "watch_ok (sy_reg cut_off)"
    by (simp add: watch_ok_def cut_off_def new_registry_def watch_buffer_size_def nth_Cons')
  moreover have "0 < length (reg_chans (sy_reg cut_off))" "ch_closed (reg_chans (sy_reg cut_off) ! 0)"
    by (simp_all add: cut_off_def new_registry_def)
  ultimately obtain s' where "run (watch_loop log_runtime 0 65) cut_off =
      (Some (WatchStatus (Status Aborted
         (ErrNew ''watcher fell behind; reconnect for a fresh snapshot''))), s')"
    and "id (sy_world s') = id (sy_world cut_off) @ ch_buf (reg_chans (sy_reg cut_off) ! 0)"
    using disconnected_stream_drains by blast
  then show ?thesis by (simp add: cut_off_def new_registry_def)
qed

end
