(* ===== verification/Spec2Isabelle.thy ===== *)
theory Spec2Isabelle
  imports SelfDestruct KvDeletion RegistryRefinement WatchStream
begin

text \<open>
  A verification development for the OpenShell compute drivers: two gRPC services that
  run each sandbox on a machine of its own, an EC2 instance (cmd/openshell-driver-ec2,
  drivers/ec2) or a KubeVirt virtual machine (cmd/openshell-driver-kubevirt,
  drivers/kubevirt), over the shared packages pkg/safeguards, pkg/quantity, pkg/bootstrap
  and pkg/server.

  \<^bold>\<open>The program.\<close> A gateway calls Create, Get, List, Stop, Delete and Watch. A driver
  checks the request, reserves the sandbox id in the registry under a fresh lease, renders
  the bootstrap document, chooses an instance type, asks the provider for a machine and
  commits the machine to the record. A poll lists the provider's machines, brings the
  registry up to date, gives up what is missing and terminates what has expired. Every
  change is broadcast to the watch streams. The server listens on a Unix socket or a
  loopback port, after the first poll has succeeded, and bounds the concurrent calls.
  Requests, watch streams and polls run at the same time; the registry's mutex, the
  provider's calls and the clock are the points at which they meet.

  \<^bold>\<open>State.\<close> The registry (\<open>registry\<close>) is its record map, the watcher channels and the
  two counters of \<open>safeguards.Registry\<close>. A driver runs on \<open>sys\<close>, the registry and the
  world around the process, of an arbitrary type. A handler or a poll is a \<open>prog\<close>, a
  sequence of atomic actions on that state, one for each section under the mutex, provider
  call and clock reading, in the order of the code; \<open>run\<close> executes one alone, and the
  relation \<open>reach\<close> interleaves any number of them while the world moves by itself. Go
  errors are the trees of \<open>goerr\<close>, answers are sums whose left side is a \<open>grpc_status\<close>.

  \<^bold>\<open>Theories, and the code they model.\<close>

  \<^item> Prelude: byte strings, string functions, association lists, 64-bit arithmetic, the
    fact collections. GoText (unicode/utf8), GoTime (time), GoFloat and GoParse (float64,
    strconv), GoEncode (base64, Quote), GoSort (sort.Slice), GoNet (net addresses), GoFlag
    (flag): what the source uses of the standard library, each with its own lemmas. Errors:
    error values and statuses. Proto: the messages of proto/compute_driver.proto.
  \<^item> pkg/safeguards: Safeguards (the operations), RegistryLaws (their contract), RegistryInv
    (invariants), Watchers (the fan-out), RegistryRefinement (the registry as a map),
    RegistryTheorems (properties).
  \<^item> pkg/quantity: Quantity. pkg/bootstrap: Bootstrap. userdata.go, cloudinit.go: UserData,
    with a reader of what they render. config.go: Configs. instancetype.go: InstanceTypes. Properties: LibraryTheorems.
  \<^item> drivers/ec2: Ec2Core and Ec2Driver (driver.go, without and with effects), Ec2Client
    (ec2.go), Ec2Watcher (watcher.go); Ec2Props and Ec2Poll (lemmas); Ec2Theorems and
    Ec2DriverTheorems (properties).
  \<^item> drivers/kubevirt: KvCore and KvDriver (driver.go, provider.go), KvApi (kubeapi.go),
    KvWatcher (watcher.go); KvProps, KvPoll, KvApiProps (lemmas); KvTheorems, KvApiTheorems,
    and KvDeletion, a deletion during a launch among concurrent requests (properties).
  \<^item> Prog and Sys: programs, their interleavings, WatchSandboxes (its end in WatchStream);
    Passes: loops over a snapshot. Systems: the two drivers as systems of concurrent processes.
  \<^item> pkg/server: Server, ServerTheorems. cmd: Commands (loadConfig), CommandTheorems, and
    Programs, which puts each driver on its adapter and models main. SelfDestruct: what the
    EC2 driver on its adapter asks of the cloud.

  A definition has the name of its Go function in snake case, with \<open>ec2_\<close> or \<open>kv_\<close> in
  front where both drivers have one; the pieces of a long function are definitions of their
  own, composed as in the code.

  \<^bold>\<open>What the lemmas show.\<close> In every interleaving the records stay under their own ids and
  free of tokens, the channels are served without a panic, and the reservations in flight
  stay within the limit (Systems, Programs). The registry answers like a partial map
  (RegistryRefinement), a stale lease commits nothing, and a subscriber sees a prefix of
  the events (RegistryTheorems); a stream that is cut off sends what was left and ends
  (WatchStream). A creation ends in one of its documented outcomes and a
  poll that succeeds makes of each record what the listing says. A deletion accepted during a
  launch cancels it, whatever requests and streams follow; polls are the exception
  (KvDeletion). Every launch request that reaches EC2 carries the security policy, a document
  that powers its machine off, and the tags to find it by (SelfDestruct); the adapters read back
  what they wrote, own what they launch, and leave nothing undeleted when they report so. The
  rendered documents are bounded, and readers that know nothing of the templates find in them
  the files meant, the armed timer and the shutdown. The server listens only
  locally and reports success only after a shutdown; the commands load only valid
  configurations. A few theorems state what the code gets wrong, among them an
  accepted delete that a poll overwrites, a re-created sandbox that a poll terminates, and
  a disk size that wraps at 32 bits.

  \<^bold>\<open>Interfaces.\<close> \<open>lease_store\<close> is what the drivers ask of the registry, interpreted on its
  operations (\<open>reg\<close>). \<open>slice_sort\<close> is the promise of sort.Slice; \<open>spec_sorter\<close>,
  \<open>instance_sorter\<close> and \<open>vm_sorter\<close> extend it to the three orders the code sorts by, and
  are interpreted on insertion sorts (\<open>ins\<close>, \<open>insr\<close>, \<open>ins_inst\<close>, \<open>ins_vm\<close>).
  \<open>instance_provider\<close> is what the EC2 driver asks of a launch, interpreted on the AWS adapter
  (\<open>aws\<close>), and \<open>machine_source\<close> what the KubeVirt driver asks of a listing, interpreted on
  the Kubernetes adapter (\<open>kube\<close>).

  \<^bold>\<open>Bounds and fuel.\<close> The loops that may run for ever take fuel and answer \<open>None\<close> when it
  ends: the watch streams, StartWatcher, and the pages of a listing. The results about
  interleavings hold for every fuel; for listings, as much fuel as the service has pages is
  proved to be enough. Everything else terminates: a retry makes at most five attempts, a
  poll ranges over finite lists, parsers consume their input. A watcher's buffer has 64
  places, counters and leases are 64-bit words that wrap, and the results on leases assume
  that fewer than 2 to the 64 have been issued. Durations saturate or wrap as Go's do.

  \<^bold>\<open>Parameters.\<close> What the repository only calls is an argument: the four calls of the AWS
  SDK (\<open>ec2_api\<close>), the calls of the Kubernetes and KubeVirt clients (\<open>kube_api\<close>), the name
  checks of apimachinery (\<open>k8s_lib\<close>), SHA-256, the URL and certificate libraries
  (\<open>transport_lib\<close>), the clock, the order of map iteration, contexts and streams
  (\<open>runtime\<close>), the failures of the operating system and the end of the grpc server
  (\<open>host_lib\<close>), and the environment variables. A theorem that relies on one of them states
  the documented behaviour as a hypothesis, and its witness instantiates it: that a range
  visits every key once (\<open>fair_order\<close>), that the cluster names its objects
  (\<open>kube_names_objects\<close>), that a deletion marks its object and touches no other
  (\<open>marks_deleted\<close>), that only a launch adds to the cloud's log of launch requests
  (\<open>logs_launches\<close>), and that a collection is served in pages (\<open>serves\<close>, \<open>kube_serves\<close>).

  \<^bold>\<open>Not modelled.\<close> Log lines and the text of the version and usage output. The status-code
  fallback by which apierrors classifies an error without a reason: an error carries its
  reason here. The constructors that only build an SDK or cluster client, the internals of
  those clients and of grpc, and what another process does to the host while Run works (a
  file that appears between the check of the socket path and the bind). The generated
  gen/computepb, whose messages are modelled from the .proto file, and pkg/contracttest, a
  test helper that only calls the drivers.
\<close>

end
